(* ===== verification/Auth_Prelude.thy ===== *)
theory Auth_Prelude
  imports Main "HOL-Library.List_Lexorder" "HOL-Library.Char_ord" "HOL-Library.Product_Lexorder"
begin

text \<open>
  The prelude of the development: the error values of the Go code, the shape of a fallible
  operation on a state, the combinators that stand for the idioms
  \<open>x, err := f(); if err != nil { return err }\<close>, and the generic lemmas on lists that every
  component shares.

  A Go function that can fail and that reads or writes shared state is a function
  \<open>'s \<Rightarrow> 'a res \<times> 's\<close>. \<open>Inl e\<close> is the returned error and \<open>Inr x\<close> is the returned value; the
  state comes back in both cases, because a failed call can leave a write behind.
\<close>

section \<open>Errors\<close>

text \<open>The stable public codes of \<open>apierr/apierr.go\<close>.\<close>

datatype api_code =
    CodeInvalidRequest | CodeInvalidCredentials | CodeEmailAlreadyExists | CodeWeakPassword
  | CodeInvalidToken | CodeUnauthorized | CodeForbidden | CodeNotFound | CodeMethodNotAllowed
  | CodeOriginNotAllowed | CodeEmailNotVerified | CodeNoPasswordCredential
  | CodeAccountAlreadyLinked | CodeAccountNotLinked | CodeLastAuthMethod | CodeProviderNotFound
  | CodeOAuthStateInvalid | CodeOAuthFailed | CodeRateLimited | CodeInvalidTOTPCode
  | CodeTOTPNotEnrolled | CodeTOTPAlreadyEnrolled | CodeInvalidRecoveryCode | CodeInternal
  | CodeInsufficientRole | CodeRoleUnknown | CodeRoleNotAllowed | CodeUserDisabled
  | CodePasswordChangeRequired | CodeLastAdmin | CodeAPIKeyExpiryTooLong
  | CodeAPIKeyExpiryRequired
  | CodeSlugTaken | CodePermissionDenied | CodeNoActiveOrganization | CodeNotAMember
  | CodeAlreadyMember | CodeLastOwner | CodeInvitationInvalid | CodeMemberLimit
  | CodeOAuthRequestInvalid | CodeOAuthClientUnknown
  | CodeScopeUnknown | CodeScopeMissing

text \<open>
  A Go \<open>error\<close> value: the sentinel errors of \<open>store/store.go\<close>, an opaque failure of the
  database driver, a public error of \<open>apierr\<close> with its optional private cause, the
  \<open>RateLimitError\<close> of \<open>operations.go\<close> with its retry time, and any other error by its
  message.
\<close>

datatype err =
    ErrNotFound
  | ErrConflict
  | ErrInvalidCursor
  | ErrDriver
  | ErrOther string
  | RateLimitError int
  | Api api_code "err option"

abbreviation api :: "api_code \<Rightarrow> err" where
  "api c \<equiv> Api c None"

abbreviation with_cause :: "api_code \<Rightarrow> err \<Rightarrow> err" where
  "with_cause c e \<equiv> Api c (Some e)"

text \<open>\<open>errors.Is(err, store.ErrNotFound)\<close>: the test walks the chain of causes.\<close>

fun isNotFound :: "err \<Rightarrow> bool" where
  "isNotFound ErrNotFound = True"
| "isNotFound (Api c (Some e)) = isNotFound e"
| "isNotFound _ = False"

fun isConflict :: "err \<Rightarrow> bool" where
  "isConflict ErrConflict = True"
| "isConflict (Api c (Some e)) = isConflict e"
| "isConflict _ = False"

text \<open>\<open>errors.As(err, &public)\<close>: the first public error of the chain. A
  \<open>RateLimitError\<close> unwraps to \<open>apierr.ErrRateLimited\<close>.\<close>

fun asPublic :: "err \<Rightarrow> err option" where
  "asPublic (Api c e) = Some (Api c e)"
| "asPublic (RateLimitError _) = Some (api CodeRateLimited)"
| "asPublic _ = None"

text \<open>\<open>apierr.From\<close>: any error becomes a public one, and an unknown error becomes
  INTERNAL.\<close>

definition apierr_From :: "err \<Rightarrow> err" where
  "apierr_From e = (case asPublic e of Some p \<Rightarrow> p | None \<Rightarrow> with_cause CodeInternal e)"

text \<open>\<open>publicError\<close> of \<open>sessions.go\<close>.\<close>

definition publicError :: "err \<Rightarrow> err" where
  "publicError e =
     (case asPublic e of
        Some p \<Rightarrow> p
      | None \<Rightarrow>
          if isConflict e then with_cause CodeEmailAlreadyExists e
          else if isNotFound e then with_cause CodeNotFound e
          else with_cause CodeInternal e)"

text \<open>\<open>mapStoreError\<close> of \<open>authall.go\<close>. Its order differs from \<open>publicError\<close>.\<close>

definition mapStoreError :: "err \<Rightarrow> err" where
  "mapStoreError e =
     (if isNotFound e then with_cause CodeNotFound e
      else if isConflict e then with_cause CodeEmailAlreadyExists e
      else with_cause CodeInternal e)"

text \<open>The public code that a client sees.\<close>

definition code_of :: "err \<Rightarrow> api_code" where
  "code_of e = (case apierr_From e of Api c _ \<Rightarrow> c | _ \<Rightarrow> CodeInternal)"

lemma code_of_simps [simp]:
  "code_of (Api c x) = c"
  "code_of (RateLimitError n) = CodeRateLimited"
  "code_of ErrNotFound = CodeInternal"
  "code_of ErrConflict = CodeInternal"
  "code_of ErrDriver = CodeInternal"
  "code_of ErrInvalidCursor = CodeInternal"
  "code_of (ErrOther m) = CodeInternal"
  by (simp_all add: code_of_def apierr_From_def)

section \<open>Fallible operations on a state\<close>

type_synonym 'a res = "err + 'a"

type_synonym ('s, 'a) oper = "'s \<Rightarrow> 'a res \<times> 's"

definition ret :: "'a \<Rightarrow> ('s, 'a) oper" where
  "ret x s = (Inr x, s)"

definition fail :: "err \<Rightarrow> ('s, 'a) oper" where
  "fail e s = (Inl e, s)"

text \<open>\<open>if !c { return e }\<close>.\<close>

definition ensure :: "bool \<Rightarrow> err \<Rightarrow> ('s, unit) oper" where
  "ensure c e s = (if c then (Inr (), s) else (Inl e, s))"

text \<open>\<open>r, err := m()\<close> with a continuation that inspects \<open>err\<close> itself.\<close>

definition caught :: "('s, 'a) oper \<Rightarrow> ('a res \<Rightarrow> ('s, 'b) oper) \<Rightarrow> ('s, 'b) oper" where
  "caught m k s = (case m s of (r, s') \<Rightarrow> k r s')"

text \<open>\<open>x, err := m(); if err != nil { return err }\<close>.\<close>

definition andThen :: "('s, 'a) oper \<Rightarrow> ('a \<Rightarrow> ('s, 'b) oper) \<Rightarrow> ('s, 'b) oper" where
  "andThen m k s = (case m s of (Inl e, s') \<Rightarrow> (Inl e, s') | (Inr x, s') \<Rightarrow> k x s')"

text \<open>\<open>if err != nil { return f(err) }\<close>.\<close>

definition mapFail :: "(err \<Rightarrow> err) \<Rightarrow> ('s, 'a) oper \<Rightarrow> ('s, 'a) oper" where
  "mapFail f m s = (case m s of (Inl e, s') \<Rightarrow> (Inl (f e), s') | (Inr x, s') \<Rightarrow> (Inr x, s'))"

text \<open>\<open>_ = m()\<close> and a failure that is logged and dropped.\<close>

definition ignoring :: "('s, 'a) oper \<Rightarrow> ('s, unit) oper" where
  "ignoring m s = (Inr (), snd (m s))"

lemmas oper_defs = ret_def fail_def ensure_def caught_def andThen_def mapFail_def ignoring_def

text \<open>
  Inversion of a success and of a failure: these two rules replace the unfolding of every
  combinator in the proofs about complete operations.
\<close>

lemma andThen_Inr:
  "andThen m k s = (Inr y, t) \<longleftrightarrow> (\<exists>x u. m s = (Inr x, u) \<and> k x u = (Inr y, t))"
  by (auto simp: andThen_def split: prod.splits sum.splits)

lemma andThen_Inl:
  "andThen m k s = (Inl e, t) \<longleftrightarrow>
     m s = (Inl e, t) \<or> (\<exists>x u. m s = (Inr x, u) \<and> k x u = (Inl e, t))"
  by (auto simp: andThen_def split: prod.splits sum.splits)

lemma mapFail_Inr: "mapFail f m s = (Inr y, t) \<longleftrightarrow> m s = (Inr y, t)"
  by (auto simp: mapFail_def split: prod.splits sum.splits)

lemma mapFail_Inl: "mapFail f m s = (Inl e, t) \<longleftrightarrow> (\<exists>e'. m s = (Inl e', t) \<and> e = f e')"
  by (auto simp: mapFail_def split: prod.splits sum.splits)

lemma ensure_Inr: "ensure c e s = (Inr y, t) \<longleftrightarrow> c \<and> t = s"
  by (auto simp: ensure_def)

lemma ensure_Inl: "ensure c e s = (Inl e', t) \<longleftrightarrow> \<not> c \<and> e' = e \<and> t = s"
  by (auto simp: ensure_def)

lemma ret_Inr: "ret x s = (Inr y, t) \<longleftrightarrow> y = x \<and> t = s"
  by (auto simp: ret_def)

lemma ret_Inl: "\<not> ret x s = (Inl e, t)"
  by (simp add: ret_def)

lemma fail_Inr: "\<not> fail e s = (Inr y, t)"
  by (simp add: fail_def)

lemma fail_Inl: "fail e s = (Inl e', t) \<longleftrightarrow> e' = e \<and> t = s"
  by (auto simp: fail_def)

lemma ignoring_Inr: "ignoring m s = (Inr y, t) \<longleftrightarrow> t = snd (m s)"
  by (auto simp: ignoring_def)

lemma ignoring_Inl: "\<not> ignoring m s = (Inl e, t)"
  by (simp add: ignoring_def)

lemma caught_eq: "caught m k s = k (fst (m s)) (snd (m s))"
  by (simp add: caught_def split: prod.splits)

lemma caught_run:
  "caught m k s = z \<longleftrightarrow>
     (\<exists>e u. m s = (Inl e, u) \<and> k (Inl e) u = z) \<or> (\<exists>x u. m s = (Inr x, u) \<and> k (Inr x) u = z)"
  by (cases "m s"; cases "fst (m s)") (auto simp: caught_def)

text \<open>The branches of an operation, as alternatives of its run.\<close>

lemma sum_run:
  "(case z of Inl e \<Rightarrow> f e | Inr x \<Rightarrow> g x) s = r \<longleftrightarrow>
     (\<exists>e. z = Inl e \<and> f e s = r) \<or> (\<exists>x. z = Inr x \<and> g x s = r)"
  by (cases z) simp_all

lemma option_run:
  "(case z of None \<Rightarrow> a | Some x \<Rightarrow> g x) s = r \<longleftrightarrow> z = None \<and> a s = r \<or> (\<exists>x. z = Some x \<and> g x s = r)"
  by (cases z) simp_all

lemma prod_run: "(case z of (x, y) \<Rightarrow> h x y) s = r \<longleftrightarrow> (\<exists>x y. z = (x, y) \<and> h x y s = r)"
  by (cases z) simp_all

lemma if_run: "(if c then a else b) s = r \<longleftrightarrow> c \<and> a s = r \<or> \<not> c \<and> b s = r"
  by simp

lemmas branch_run = caught_run sum_run option_run prod_run if_run

lemmas success_simps =
  andThen_Inr mapFail_Inr ensure_Inr ret_Inr fail_Inr ignoring_Inr

lemmas failure_simps =
  andThen_Inl mapFail_Inl ensure_Inl ret_Inl fail_Inl ignoring_Inl

text \<open>The result of an evaluated run, up to the part that matters.\<close>

lemma run_InrE:
  assumes "map_sum f g (fst x) = Inr y"
  obtains z s where "x = (Inr z, s)" and "g z = y"
  using assms by (cases x; cases "fst x") auto

section \<open>Invariants of operations\<close>

text \<open>
  \<open>keeps P m\<close>: the operation preserves the state predicate on every branch, the failing ones
  included. The collection \<open>keeps_intros\<close> closes such goals along the structure of an
  operation.
\<close>

definition keeps :: "('s \<Rightarrow> bool) \<Rightarrow> ('s, 'a) oper \<Rightarrow> bool" where
  "keeps P m \<longleftrightarrow> (\<forall>s. P s \<longrightarrow> P (snd (m s)))"

named_theorems keeps_intros

lemma keepsD: "keeps P m \<Longrightarrow> P s \<Longrightarrow> P (snd (m s))"
  by (simp add: keeps_def)

lemma keepsD': "keeps P m \<Longrightarrow> P s \<Longrightarrow> m s = (r, t) \<Longrightarrow> P t"
  by (metis keepsD snd_conv)

lemma keeps_ret [keeps_intros]: "keeps P (ret x)"
  by (simp add: keeps_def ret_def)

lemma keeps_fail [keeps_intros]: "keeps P (fail e)"
  by (simp add: keeps_def fail_def)

lemma keeps_ensure [keeps_intros]: "keeps P (ensure c e)"
  by (simp add: keeps_def ensure_def)

lemma keeps_andThen [keeps_intros]:
  "keeps P m \<Longrightarrow> (\<And>x. keeps P (k x)) \<Longrightarrow> keeps P (andThen m k)"
  by (fastforce simp: keeps_def andThen_def split: prod.splits sum.splits)

lemma keeps_caught [keeps_intros]:
  "keeps P m \<Longrightarrow> (\<And>r. keeps P (k r)) \<Longrightarrow> keeps P (caught m k)"
  by (simp add: keeps_def caught_eq)

lemma keeps_mapFail [keeps_intros]: "keeps P m \<Longrightarrow> keeps P (mapFail f m)"
  by (fastforce simp: keeps_def mapFail_def split: prod.splits sum.splits)

lemma keeps_ignoring [keeps_intros]: "keeps P m \<Longrightarrow> keeps P (ignoring m)"
  by (simp add: keeps_def ignoring_def)

lemma keeps_if [keeps_intros]: "keeps P a \<Longrightarrow> keeps P b \<Longrightarrow> keeps P (if c then a else b)"
  by simp

lemma keeps_option [keeps_intros]:
  "keeps P a \<Longrightarrow> (\<And>x. keeps P (b x)) \<Longrightarrow> keeps P (case z of None \<Rightarrow> a | Some x \<Rightarrow> b x)"
  by (cases z) simp_all

lemma keeps_sum [keeps_intros]:
  "(\<And>e. keeps P (a e)) \<Longrightarrow> (\<And>x. keeps P (b x)) \<Longrightarrow>
     keeps P (case z of Inl e \<Rightarrow> a e | Inr x \<Rightarrow> b x)"
  by (cases z) simp_all

lemma keeps_prod [keeps_intros]:
  "(\<And>x y. keeps P (a x y)) \<Longrightarrow> keeps P (case z of (x, y) \<Rightarrow> a x y)"
  by (cases z) simp

lemma keeps_Let [keeps_intros]: "keeps P (f x) \<Longrightarrow> keeps P (Let x f)"
  by (simp add: Let_def)

section \<open>Lists as tables\<close>

text \<open>
  A table is the list of its rows in insertion order. \<open>updateWhere\<close> and \<open>deleteWhere\<close> are the
  UPDATE and DELETE statements, and \<open>countWhere\<close> is the number of affected rows.
\<close>

definition updateWhere :: "('r \<Rightarrow> bool) \<Rightarrow> ('r \<Rightarrow> 'r) \<Rightarrow> 'r list \<Rightarrow> 'r list" where
  "updateWhere p f rows = map (\<lambda>r. if p r then f r else r) rows"

definition deleteWhere :: "('r \<Rightarrow> bool) \<Rightarrow> 'r list \<Rightarrow> 'r list" where
  "deleteWhere p rows = filter (\<lambda>r. \<not> p r) rows"

definition countWhere :: "('r \<Rightarrow> bool) \<Rightarrow> 'r list \<Rightarrow> nat" where
  "countWhere p rows = length (filter p rows)"

lemma set_deleteWhere [simp]: "set (deleteWhere p rows) = {r \<in> set rows. \<not> p r}"
  by (simp add: deleteWhere_def)

lemma set_updateWhere:
  "set (updateWhere p f rows) = (\<lambda>r. if p r then f r else r) ` set rows"
  by (simp add: updateWhere_def)

lemma in_updateWhereE:
  assumes "x \<in> set (updateWhere p f rows)"
  obtains r where "r \<in> set rows" "p r" "x = f r" | "x \<in> set rows" "\<not> p x"
  using assms by (auto simp: updateWhere_def split: if_splits)

lemma updateWhere_Nil [simp]: "updateWhere p f [] = []"
  by (simp add: updateWhere_def)

lemma updateWhere_Cons [simp]:
  "updateWhere p f (r # rs) = (if p r then f r else r) # updateWhere p f rs"
  by (simp add: updateWhere_def)

lemma deleteWhere_Nil [simp]: "deleteWhere p [] = []"
  by (simp add: deleteWhere_def)

lemma deleteWhere_Cons [simp]:
  "deleteWhere p (r # rs) = (if p r then deleteWhere p rs else r # deleteWhere p rs)"
  by (simp add: deleteWhere_def)

lemma countWhere_0_iff [simp]: "countWhere p rows = 0 \<longleftrightarrow> (\<forall>r \<in> set rows. \<not> p r)"
  by (auto simp: countWhere_def filter_empty_conv)

lemma countWhere_pos: "0 < countWhere p rows \<longleftrightarrow> (\<exists>r \<in> set rows. p r)"
  by (auto simp: countWhere_def filter_empty_conv)

lemma distinct_map_updateWhere [simp]:
  "(\<And>r. k (f r) = k r) \<Longrightarrow> map k (updateWhere p f rows) = map k rows"
  by (simp add: updateWhere_def)

lemma distinct_map_deleteWhere:
  "distinct (map k rows) \<Longrightarrow> distinct (map k (deleteWhere p rows))"
  by (simp add: deleteWhere_def distinct_map_filter)

lemma find_None_set: "find p rows = None \<longleftrightarrow> (\<forall>r \<in> set rows. \<not> p r)"
  by (auto simp: find_None_iff)

lemma find_SomeD: "find p rows = Some r \<Longrightarrow> r \<in> set rows \<and> p r"
  by (auto simp: find_Some_iff)

lemma find_unique:
  assumes "r \<in> set rows" and "p r" and "\<And>a. a \<in> set rows \<Longrightarrow> p a \<Longrightarrow> a = r"
  shows "find p rows = Some r"
proof (cases "find p rows")
  case None
  then show ?thesis using assms(1,2) by (auto simp: find_None_iff)
next
  case (Some a)
  then show ?thesis using find_SomeD [OF Some] assms(3) by simp
qed

text \<open>Two rows of a table with one key are one row.\<close>

lemma distinct_map_unique:
  "distinct (map k rows) \<Longrightarrow> a \<in> set rows \<Longrightarrow> b \<in> set rows \<Longrightarrow> k a = k b \<Longrightarrow> a = b"
  by (simp add: distinct_map inj_on_def)

end
