(* ===== verification/Go_Strings.thy ===== *)
theory Go_Strings
  imports Auth_Prelude
begin

text \<open>
  The functions of the Go standard library that the source calls on strings and bytes:
  \<open>strings.TrimSpace\<close>, \<open>ToLower\<close>, \<open>ToUpper\<close>, \<open>Fields\<close>, \<open>Cut\<close>, \<open>Split\<close>, \<open>Join\<close>,
  \<open>HasPrefix\<close>, \<open>Trim\<close>, \<open>TrimRight\<close>, \<open>ReplaceAll\<close> (removal of one byte),
  \<open>base64.RawURLEncoding\<close>, \<open>hex.EncodeToString\<close> and \<open>strconv.Itoa\<close>.

  A Go string is the list of its bytes. The case and the space functions are written for the
  ASCII range; a byte above 127 is kept as it is. The Go functions also know the Unicode
  letters and spaces, so the model agrees with them on ASCII input.
\<close>

section \<open>Bytes\<close>

definition is_space :: "char \<Rightarrow> bool" where
  "is_space c \<longleftrightarrow> of_char c \<in> {9, 10, 11, 12, 13, 32 :: nat}"

definition is_digit :: "char \<Rightarrow> bool" where
  "is_digit c \<longleftrightarrow> (48 :: nat) \<le> of_char c \<and> of_char c \<le> (57 :: nat)"

definition is_lower :: "char \<Rightarrow> bool" where
  "is_lower c \<longleftrightarrow> (97 :: nat) \<le> of_char c \<and> of_char c \<le> (122 :: nat)"

definition is_upper :: "char \<Rightarrow> bool" where
  "is_upper c \<longleftrightarrow> (65 :: nat) \<le> of_char c \<and> of_char c \<le> (90 :: nat)"

definition lower_char :: "char \<Rightarrow> char" where
  "lower_char c = (if is_upper c then char_of (of_char c + 32 :: nat) else c)"

definition upper_char :: "char \<Rightarrow> char" where
  "upper_char c = (if is_lower c then char_of (of_char c - 32 :: nat) else c)"

definition ToLower :: "string \<Rightarrow> string" where
  "ToLower s = map lower_char s"

definition ToUpper :: "string \<Rightarrow> string" where
  "ToUpper s = map upper_char s"

lemma of_char_lower_char:
  "is_upper c \<Longrightarrow> of_char (lower_char c) = (of_char c + 32 :: nat)"
  by (simp add: lower_char_def is_upper_def)

lemma lower_char_idem [simp]: "lower_char (lower_char c) = lower_char c"
proof (cases "is_upper c")
  case True
  then have "\<not> is_upper (lower_char c)"
    by (simp add: is_upper_def [of "lower_char c"] of_char_lower_char) (simp add: is_upper_def)
  then show ?thesis by (simp add: lower_char_def)
qed (simp add: lower_char_def)

lemma is_space_lower_char [simp]: "is_space (lower_char c) = is_space c"
proof (cases "is_upper c")
  case True
  then show ?thesis
    by (simp add: is_space_def of_char_lower_char) (auto simp: is_upper_def)
qed (simp add: lower_char_def)

lemma ToLower_idem [simp]: "ToLower (ToLower s) = ToLower s"
  by (simp add: ToLower_def)

section \<open>Trimming\<close>

definition TrimLeftF :: "(char \<Rightarrow> bool) \<Rightarrow> string \<Rightarrow> string" where
  "TrimLeftF p s = dropWhile p s"

definition TrimRightF :: "(char \<Rightarrow> bool) \<Rightarrow> string \<Rightarrow> string" where
  "TrimRightF p s = rev (dropWhile p (rev s))"

definition TrimSpace :: "string \<Rightarrow> string" where
  "TrimSpace s = TrimRightF is_space (TrimLeftF is_space s)"

definition TrimRight :: "string \<Rightarrow> char \<Rightarrow> string" where
  "TrimRight s c = TrimRightF (\<lambda>x. x = c) s"

definition TrimChar :: "string \<Rightarrow> char \<Rightarrow> string" where
  "TrimChar s c = TrimRightF (\<lambda>x. x = c) (TrimLeftF (\<lambda>x. x = c) s)"

lemma TrimRightF_idem: "TrimRightF p (TrimRightF p s) = TrimRightF p s"
  by (simp add: TrimRightF_def)

lemma dropWhile_hd: "dropWhile p s = x # xs \<Longrightarrow> \<not> p x"
  by (metis hd_dropWhile list.distinct(1) list.sel(1))

text \<open>Trimming on the right never uncovers a new first byte, so the two ends commute.\<close>

lemma TrimLeftF_TrimRightF_fix:
  assumes "s = [] \<or> \<not> p (hd s)"
  shows "TrimLeftF p (TrimRightF p s) = TrimRightF p s"
proof (cases "TrimRightF p s")
  case Nil
  then show ?thesis by (simp add: TrimLeftF_def)
next
  case (Cons a as)
  have prefix: "take (length (TrimRightF p s)) s = TrimRightF p s"
  proof -
    have "rev s = takeWhile p (rev s) @ dropWhile p (rev s)" by simp
    then have "s = rev (dropWhile p (rev s)) @ rev (takeWhile p (rev s))"
      by (metis rev_append rev_rev_ident)
    then have "s = TrimRightF p s @ rev (takeWhile p (rev s))" by (simp only: TrimRightF_def)
    then show ?thesis by (metis append_eq_conv_conj)
  qed
  then have "hd s = a" and "s \<noteq> []" using Cons by (cases s; auto)+
  then show ?thesis using assms Cons by (simp add: TrimLeftF_def)
qed

lemma TrimSpace_idem [simp]: "TrimSpace (TrimSpace s) = TrimSpace s"
proof -
  have "TrimLeftF is_space s = [] \<or> \<not> is_space (hd (TrimLeftF is_space s))"
    by (metis TrimLeftF_def hd_dropWhile)
  then have "TrimLeftF is_space (TrimSpace s) = TrimSpace s"
    by (simp add: TrimSpace_def TrimLeftF_TrimRightF_fix)
  then show ?thesis
    by (metis TrimSpace_def TrimRightF_idem)
qed

lemma TrimSpace_ToLower: "TrimSpace (ToLower s) = ToLower (TrimSpace s)"
proof -
  have comp: "(is_space \<circ> lower_char) = is_space" by auto
  show ?thesis
    by (simp add: TrimSpace_def TrimLeftF_def TrimRightF_def ToLower_def dropWhile_map comp
        rev_map)
qed

section \<open>Splitting and joining\<close>

definition HasPrefix :: "string \<Rightarrow> string \<Rightarrow> bool" where
  "HasPrefix s p \<longleftrightarrow> take (length p) s = p"

definition ContainsChar :: "string \<Rightarrow> char \<Rightarrow> bool" where
  "ContainsChar s c \<longleftrightarrow> c \<in> set s"

text \<open>\<open>strings.Cut(s, sep)\<close> for a separator of one byte.\<close>

definition Cut :: "string \<Rightarrow> char \<Rightarrow> (string \<times> string) option" where
  "Cut s c = (if c \<in> set s
              then Some (takeWhile (\<lambda>x. x \<noteq> c) s, tl (dropWhile (\<lambda>x. x \<noteq> c) s))
              else None)"

lemma Cut_rec:
  "Cut [] c = None"
  "Cut (x # xs) c = (if x = c then Some ([], xs) else map_option (apfst (Cons x)) (Cut xs c))"
  by (simp_all add: Cut_def)

lemma Cut_Some: "Cut s c = Some (a, b) \<Longrightarrow> s = a @ c # b \<and> c \<notin> set a"
  by (induction s arbitrary: a) (auto simp: Cut_rec split: if_splits)

lemma Cut_append: "c \<notin> set a \<Longrightarrow> Cut (a @ c # b) c = Some (a, b)"
  by (induction a) (auto simp: Cut_def)

lemma Cut_None: "Cut s c = None \<longleftrightarrow> c \<notin> set s"
  by (simp add: Cut_def)

text \<open>\<open>strings.Split(s, sep)\<close> for a separator of one byte. The result is never empty.\<close>

fun Split :: "string \<Rightarrow> char \<Rightarrow> string list" where
  "Split [] c = [[]]"
| "Split (x # xs) c =
     (if x = c then [] # Split xs c
      else (case Split xs c of [] \<Rightarrow> [[x]] | y # ys \<Rightarrow> (x # y) # ys))"

fun Join :: "string list \<Rightarrow> string \<Rightarrow> string" where
  "Join [] sep = []"
| "Join [x] sep = x"
| "Join (x # y # ys) sep = x @ sep @ Join (y # ys) sep"

text \<open>\<open>strings.Fields\<close>: the maximal runs of bytes that are not space.\<close>

fun fieldsAux :: "string \<Rightarrow> string \<Rightarrow> string list" where
  "fieldsAux acc [] = (if acc = [] then [] else [rev acc])"
| "fieldsAux acc (x # xs) =
     (if is_space x then (if acc = [] then fieldsAux [] xs else rev acc # fieldsAux [] xs)
      else fieldsAux (x # acc) xs)"

definition Fields :: "string \<Rightarrow> string list" where
  "Fields s = fieldsAux [] s"

lemma fieldsAux_word:
  "\<forall>x \<in> set w. \<not> is_space x \<Longrightarrow> fieldsAux acc (w @ rest) = fieldsAux (rev w @ acc) rest"
  by (induction w arbitrary: acc) auto

lemma Fields_words:
  assumes "\<forall>w \<in> set ws. w \<noteq> [] \<and> (\<forall>x \<in> set w. \<not> is_space x)"
  shows "Fields (Join ws '' '') = ws"
  using assms
proof (induction ws rule: induct_list012)
  case 1
  then show ?case by (simp add: Fields_def)
next
  case (2 x)
  then show ?case using fieldsAux_word [of x "[]" "[]"] by (simp add: Fields_def)
next
  case (3 x y zs)
  have sp: "is_space CHR '' ''" by (simp add: is_space_def)
  have "Fields (Join (x # y # zs) '' '') = x # Fields (Join (y # zs) '' '')"
    using 3 fieldsAux_word [of x "[]" "CHR '' '' # Join (y # zs) '' ''"] sp
    by (simp add: Fields_def)
  then show ?case using 3 by simp
qed

text \<open>No field holds a space, and no field is empty.\<close>

lemma fieldsAux_words:
  "\<forall>x \<in> set acc. \<not> is_space x \<Longrightarrow>
     w \<in> set (fieldsAux acc s) \<Longrightarrow> w \<noteq> [] \<and> (\<forall>x \<in> set w. \<not> is_space x)"
proof (induction s arbitrary: acc w)
  case Nil
  then show ?case by (auto split: if_splits)
next
  case (Cons x xs)
  show ?case
  proof (cases "is_space x")
    case True
    then have "w = rev acc \<and> acc \<noteq> [] \<or> w \<in> set (fieldsAux [] xs)"
      using Cons.prems(2) by (simp split: if_splits)
    then show ?thesis using Cons.IH [of "[]" w] Cons.prems(1) by auto
  next
    case False
    then have "w \<in> set (fieldsAux (x # acc) xs)" using Cons.prems(2) by simp
    then show ?thesis using Cons.IH [of "x # acc" w] Cons.prems(1) False by simp
  qed
qed

lemma Fields_words_nonempty:
  "w \<in> set (Fields s) \<Longrightarrow> w \<noteq> [] \<and> (\<forall>x \<in> set w. \<not> is_space x)"
  using fieldsAux_words [of "[]" w s] by (simp add: Fields_def)

section \<open>Decimal, hexadecimal and base64url\<close>

text \<open>\<open>strconv.Itoa\<close> on a natural number.\<close>

fun Itoa :: "nat \<Rightarrow> string" where
  "Itoa n = (if n < 10 then [char_of (48 + n)] else Itoa (n div 10) @ [char_of (48 + n mod 10)])"

declare Itoa.simps [simp del]

definition hexDigit :: "nat \<Rightarrow> char" where
  "hexDigit n = (if n < 10 then char_of (48 + n) else char_of (87 + n))"

definition hexEncode :: "nat list \<Rightarrow> string" where
  "hexEncode bs = concat (map (\<lambda>b. [hexDigit (b div 16), hexDigit (b mod 16)]) bs)"

definition b64alphabet :: string where
  "b64alphabet = ''ABCDEFGHIJKLMNOPQRSTUVWXYZabcdefghijklmnopqrstuvwxyz0123456789-_''"

definition enc6 :: "nat \<Rightarrow> char" where
  "enc6 n = b64alphabet ! n"

fun indexOf :: "'a \<Rightarrow> 'a list \<Rightarrow> nat option" where
  "indexOf x [] = None"
| "indexOf x (y # ys) = (if x = y then Some 0 else map_option Suc (indexOf x ys))"

definition dec6 :: "char \<Rightarrow> nat option" where
  "dec6 c = indexOf c b64alphabet"

lemma dec6_enc6: "n < 64 \<Longrightarrow> dec6 (enc6 n) = Some n"
proof -
  have "\<forall>m \<in> set [0..<64]. dec6 (enc6 m) = Some m" by code_simp
  then show "n < 64 \<Longrightarrow> ?thesis" by simp
qed

text \<open>\<open>base64.RawURLEncoding.EncodeToString\<close>: three bytes give four characters, and a rest of
  one or two bytes gives two or three characters with no padding.\<close>

fun b64Encode :: "nat list \<Rightarrow> string" where
  "b64Encode [] = []"
| "b64Encode [a] = [enc6 (a div 4), enc6 ((a mod 4) * 16)]"
| "b64Encode [a, b] = [enc6 (a div 4), enc6 ((a mod 4) * 16 + b div 16), enc6 ((b mod 16) * 4)]"
| "b64Encode (a # b # c # r) =
     enc6 (a div 4) # enc6 ((a mod 4) * 16 + b div 16) # enc6 ((b mod 16) * 4 + c div 64)
       # enc6 (c mod 64) # b64Encode r"

text \<open>\<open>DecodeString\<close> reads the sextets; the encoding is not strict, so the unused low bits of
  the last sextet are dropped. A rest of one character is an error, and so is a character
  outside the alphabet. A line break is skipped.\<close>

fun b64Sextets :: "nat list \<Rightarrow> nat list option" where
  "b64Sextets [] = Some []"
| "b64Sextets [a] = None"
| "b64Sextets [a, b] = Some [a * 4 + b div 16]"
| "b64Sextets [a, b, c] = Some [a * 4 + b div 16, (b mod 16) * 16 + c div 4]"
| "b64Sextets (a # b # c # d # r) =
     map_option (\<lambda>bs. (a * 4 + b div 16) # ((b mod 16) * 16 + c div 4) # ((c mod 4) * 64 + d) # bs)
       (b64Sextets r)"

definition b64Decode :: "string \<Rightarrow> nat list option" where
  "b64Decode s =
     (let cs = filter (\<lambda>c. of_char c \<noteq> (10 :: nat) \<and> of_char c \<noteq> (13 :: nat)) s
      in Option.bind (those (map dec6 cs)) b64Sextets)"

lemma enc6_no_break: "n < 64 \<Longrightarrow> of_char (enc6 n) \<noteq> (10 :: nat) \<and> of_char (enc6 n) \<noteq> (13 :: nat)"
proof -
  have "\<forall>m \<in> set [0..<64]. of_char (enc6 m) \<noteq> (10 :: nat) \<and> of_char (enc6 m) \<noteq> (13 :: nat)"
    by code_simp
  then show "n < 64 \<Longrightarrow> ?thesis" by simp
qed

fun sextetsOf :: "nat list \<Rightarrow> nat list" where
  "sextetsOf [] = []"
| "sextetsOf [a] = [a div 4, (a mod 4) * 16]"
| "sextetsOf [a, b] = [a div 4, (a mod 4) * 16 + b div 16, (b mod 16) * 4]"
| "sextetsOf (a # b # c # r) =
     a div 4 # ((a mod 4) * 16 + b div 16) # ((b mod 16) * 4 + c div 64) # (c mod 64)
       # sextetsOf r"

lemma b64Encode_sextets: "b64Encode bs = map enc6 (sextetsOf bs)"
  by (induction bs rule: b64Encode.induct) simp_all

lemma sextet_bounds:
  fixes a b c :: nat
  shows "a < 256 \<Longrightarrow> a div 4 < 64"
    and "b < 256 \<Longrightarrow> (a mod 4) * 16 + b div 16 < 64"
    and "c < 256 \<Longrightarrow> (b mod 16) * 4 + c div 64 < 64"
proof -
  show "a < 256 \<Longrightarrow> a div 4 < 64" by (rule less_mult_imp_div_less) simp
  have "a mod 4 < 4" and "b mod 16 < 16" by simp_all
  moreover have "b < 256 \<Longrightarrow> b div 16 < 16" and "c < 256 \<Longrightarrow> c div 64 < 4"
    by (rule less_mult_imp_div_less, simp)+
  ultimately show "b < 256 \<Longrightarrow> (a mod 4) * 16 + b div 16 < 64"
    and "c < 256 \<Longrightarrow> (b mod 16) * 4 + c div 64 < 64"
    by linarith+
qed

lemma sextetsOf_bound: "\<forall>b \<in> set bs. b < 256 \<Longrightarrow> \<forall>x \<in> set (sextetsOf bs). x < 64"
  by (induction bs rule: sextetsOf.induct) (auto simp: sextet_bounds)

lemma b64Sextets_sextetsOf: "\<forall>b \<in> set bs. b < 256 \<Longrightarrow> b64Sextets (sextetsOf bs) = Some bs"
proof (induction bs rule: sextetsOf.induct)
  case (4 a b c r)
  have "(a mod 4 * 16 + b div 16) div 16 = a mod 4" and "(a mod 4 * 16 + b div 16) mod 16 = b div 16"
    "(b mod 16 * 4 + c div 64) div 4 = b mod 16" "(b mod 16 * 4 + c div 64) mod 4 = c div 64"
    using 4 by (auto simp: less_mult_imp_div_less)
  then show ?case using 4 by simp
qed (auto simp: less_mult_imp_div_less)

lemma those_map_Some: "(\<And>x. x \<in> set xs \<Longrightarrow> f x = Some (g x)) \<Longrightarrow> those (map f xs) = Some (map g xs)"
  by (induction xs) auto

theorem b64_roundtrip:
  assumes "\<forall>b \<in> set bs. b < 256"
  shows "b64Decode (b64Encode bs) = Some bs"
proof -
  let ?xs = "sextetsOf bs"
  have b: "\<forall>x \<in> set ?xs. x < 64" using assms by (rule sextetsOf_bound)
  then have "filter (\<lambda>c. of_char c \<noteq> (10 :: nat) \<and> of_char c \<noteq> (13 :: nat)) (map enc6 ?xs)
      = map enc6 ?xs"
    by (simp add: filter_id_conv enc6_no_break)
  moreover have "those (map dec6 (map enc6 ?xs)) = Some (map id ?xs)"
    using b by (simp only: map_map) (rule those_map_Some, simp add: dec6_enc6)
  ultimately show ?thesis
    using assms by (simp add: b64Decode_def b64Encode_sextets b64Sextets_sextetsOf)
qed

definition bytesOf :: "string \<Rightarrow> nat list" where
  "bytesOf s = map of_char s"

definition stringOf :: "nat list \<Rightarrow> string" where
  "stringOf bs = map char_of bs"

lemma stringOf_bytesOf [simp]: "stringOf (bytesOf s) = s"
  by (simp add: stringOf_def bytesOf_def comp_def)

lemma bytesOf_bound: "\<forall>b \<in> set (bytesOf s). b < 256"
  by (auto simp: bytesOf_def nat_of_char_less_256)

end
