(* ===== verification/Permission.thy ===== *)
theory Permission
  imports Go_Strings
begin

text \<open>
  The permission statements of \<open>plugins/organizations/permission/permission.go\<close>: the grammar
  of a statement, the set of statements with its default-deny check, and the rule that stops
  a privilege escalation (\<open>CoversSet\<close>).

  A Go map of grants has no order. The model keeps the grants in insertion order, and
  \<open>UnionOrder\<close> takes the iteration orders as arguments, so a theorem about it speaks of every
  order that a Go runtime can choose.
\<close>

section \<open>Statements\<close>

definition Wildcard :: string where
  "Wildcard = ''*''"

definition ErrInvalidStatement :: err where
  "ErrInvalidStatement = ErrOther ''authall/permission: the statement is invalid''"

record Statement =
  st_resource :: string
  st_action :: string
  st_all :: bool

definition AllStatement :: Statement where
  "AllStatement = \<lparr>st_resource = [], st_action = [], st_all = True\<rparr>"

abbreviation stmtOf :: "string \<Rightarrow> string \<Rightarrow> Statement" where
  "stmtOf r a \<equiv> \<lparr>st_resource = r, st_action = a, st_all = False\<rparr>"

text \<open>The switch over the characters of a segment.\<close>

definition segmentChar :: "char \<Rightarrow> bool" where
  "segmentChar c \<longleftrightarrow> is_lower c \<or> is_digit c \<or> c = CHR ''_'' \<or> c = CHR ''.'' \<or> c = CHR ''-''"

definition validSegment :: "string \<Rightarrow> err option" where
  "validSegment seg =
     (if seg = Wildcard then None
      else if seg = [] then Some (ErrOther ''a segment is empty'')
      else case find (\<lambda>c. \<not> segmentChar c) seg of
             None \<Rightarrow> None
           | Some c \<Rightarrow> Some (ErrOther (''the character '' @ [c] @ '' is not allowed'')))"

definition Parse :: "string \<Rightarrow> Statement res" where
  "Parse s =
     (if s = Wildcard then Inr AllStatement
      else case Cut s CHR '':'' of
             None \<Rightarrow> Inl ErrInvalidStatement
           | Some (resource, action) \<Rightarrow>
               if validSegment resource \<noteq> None then Inl ErrInvalidStatement
               else if validSegment action \<noteq> None then Inl ErrInvalidStatement
               else Inr (stmtOf resource action))"

definition Statement_String :: "Statement \<Rightarrow> string" where
  "Statement_String s = (if st_all s then Wildcard else st_resource s @ '':'' @ st_action s)"

definition wfStatement :: "Statement \<Rightarrow> bool" where
  "wfStatement st \<longleftrightarrow>
     st = AllStatement \<or>
     (\<not> st_all st \<and> validSegment (st_resource st) = None \<and> validSegment (st_action st) = None)"

definition concrete :: "Statement \<Rightarrow> bool" where
  "concrete st \<longleftrightarrow> \<not> st_all st \<and> st_resource st \<noteq> Wildcard \<and> st_action st \<noteq> Wildcard"

text \<open>What a statement means by the package comment: a wildcard segment stands for every
  value of the segment, and the single asterisk for every permission.\<close>

definition reaches :: "Statement \<Rightarrow> Statement \<Rightarrow> bool" where
  "reaches g p \<longleftrightarrow>
     st_all g \<or>
     (\<not> st_all p \<and>
      (st_resource g = Wildcard \<or> st_resource g = st_resource p) \<and>
      (st_action g = Wildcard \<or> st_action g = st_action p))"

lemma validSegment_chars:
  "validSegment seg = None \<longleftrightarrow>
     seg = Wildcard \<or> (seg \<noteq> [] \<and> (\<forall>c \<in> set seg. segmentChar c))"
  by (auto simp: validSegment_def find_None_set split: option.splits dest: find_SomeD)

lemma colon_not_segment: "\<not> segmentChar CHR '':''"
  by (simp add: segmentChar_def is_lower_def is_digit_def)

lemma validSegment_no_colon: "validSegment seg = None \<Longrightarrow> CHR '':'' \<notin> set seg"
  using colon_not_segment by (auto simp: validSegment_chars Wildcard_def)

lemma Parse_cases:
  assumes "Parse s = Inr st"
  shows "(s = Wildcard \<and> st = AllStatement) \<or>
         (\<exists>r a. s = r @ '':'' @ a \<and> st = stmtOf r a \<and>
                validSegment r = None \<and> validSegment a = None)"
  using assms by (auto simp: Parse_def split: if_splits option.splits dest!: Cut_Some)

lemma Parse_String: "Parse s = Inr st \<Longrightarrow> Statement_String st = s"
  by (drule Parse_cases) (auto simp: Statement_String_def AllStatement_def)

lemma Parse_wf: "Parse s = Inr st \<Longrightarrow> wfStatement st"
  by (drule Parse_cases) (auto simp: wfStatement_def)

lemma String_Parse:
  assumes "wfStatement st"
  shows "Parse (Statement_String st) = Inr st"
proof (cases "st_all st")
  case True
  then show ?thesis using assms
    by (simp add: wfStatement_def Statement_String_def Parse_def)
next
  case False
  then have v: "validSegment (st_resource st) = None" "validSegment (st_action st) = None"
    using assms by (auto simp: wfStatement_def AllStatement_def)
  have cut: "Cut (st_resource st @ CHR '':'' # st_action st) CHR '':''
      = Some (st_resource st, st_action st)"
    by (rule Cut_append) (rule validSegment_no_colon [OF v(1)])
  have "st_resource st @ CHR '':'' # st_action st \<noteq> Wildcard"
    by (cases "st_resource st") (auto simp: Wildcard_def)
  then show ?thesis using False v cut
    by (simp add: Parse_def Statement_String_def)
qed

lemma String_inj: "wfStatement a \<Longrightarrow> wfStatement b \<Longrightarrow> Statement_String a = Statement_String b \<Longrightarrow> a = b"
  by (metis String_Parse sum.inject(2))

section \<open>Sets\<close>

record PermSet =
  ps_all :: bool
  ps_grants :: "Statement list"
  ps_sources :: "string list"

definition emptySet :: PermSet where
  "emptySet = \<lparr>ps_all = False, ps_grants = [], ps_sources = []\<rparr>"

definition add :: "PermSet \<Rightarrow> Statement \<Rightarrow> PermSet" where
  "add s stmt =
     (let s1 = (if st_all stmt then s\<lparr>ps_all := True\<rparr> else s)
      in if stmt \<in> set (ps_grants s1) then s1
         else s1\<lparr>ps_grants := ps_grants s1 @ [stmt],
                 ps_sources := ps_sources s1 @ [Statement_String stmt]\<rparr>)"

fun addAll :: "PermSet \<Rightarrow> string list \<Rightarrow> PermSet res" where
  "addAll acc [] = Inr acc"
| "addAll acc (raw # rest) =
     (case Parse raw of Inl e \<Rightarrow> Inl e | Inr stmt \<Rightarrow> addAll (add acc stmt) rest)"

definition NewSet :: "string list \<Rightarrow> PermSet res" where
  "NewSet statements = addAll emptySet statements"

definition Set_Empty :: "PermSet \<Rightarrow> bool" where
  "Set_Empty s \<longleftrightarrow> length (ps_grants s) = 0"

definition Statements :: "PermSet \<Rightarrow> string list" where
  "Statements s = sort (ps_sources s)"

definition Covers :: "PermSet \<Rightarrow> Statement \<Rightarrow> bool" where
  "Covers s stmt =
     (if ps_all s then True
      else if length (ps_grants s) = 0 then False
      else if stmt \<in> set (ps_grants s) then True
      else if st_all stmt then False
      else if st_resource stmt \<noteq> Wildcard
              \<and> stmtOf (st_resource stmt) Wildcard \<in> set (ps_grants s) then True
      else if st_action stmt \<noteq> Wildcard
              \<and> stmtOf Wildcard (st_action stmt) \<in> set (ps_grants s) then True
      else False)"

definition Allows :: "PermSet \<Rightarrow> string \<Rightarrow> bool" where
  "Allows s statement =
     (case Parse statement of Inl e \<Rightarrow> False | Inr stmt \<Rightarrow> Covers s stmt)"

text \<open>\<open>Union\<close> ranges over the maps of the sets. The first argument lists the statements in
  the order of the iterations.\<close>

definition UnionOrder :: "Statement list \<Rightarrow> PermSet" where
  "UnionOrder order = foldl add emptySet order"

definition unionSets :: "PermSet \<Rightarrow> PermSet list \<Rightarrow> PermSet" where
  "unionSets s others = UnionOrder (concat (map ps_grants (s # others)))"

definition CoversSet :: "PermSet \<Rightarrow> PermSet \<Rightarrow> bool" where
  "CoversSet s other = list_all (Covers s) (ps_grants other)"

text \<open>The invariant of a set: the flag says that the single asterisk is held, the sources are
  the written grants, and every grant follows the grammar.\<close>

definition wfSet :: "PermSet \<Rightarrow> bool" where
  "wfSet s \<longleftrightarrow>
     (ps_all s \<longleftrightarrow> (\<exists>g \<in> set (ps_grants s). st_all g)) \<and>
     distinct (ps_grants s) \<and>
     ps_sources s = map Statement_String (ps_grants s) \<and>
     (\<forall>g \<in> set (ps_grants s). wfStatement g)"

lemma wfSet_empty [simp]: "wfSet emptySet"
  by (simp add: wfSet_def emptySet_def)

lemma add_grants [simp]: "set (ps_grants (add s st)) = insert st (set (ps_grants s))"
  by (auto simp: add_def Let_def)

lemma wfSet_add: "wfSet s \<Longrightarrow> wfStatement st \<Longrightarrow> wfSet (add s st)"
  by (auto simp: wfSet_def add_def Let_def)

lemma addAll_wf: "addAll s raws = Inr t \<Longrightarrow> wfSet s \<Longrightarrow> wfSet t"
  by (induction raws arbitrary: s)
     (auto split: sum.splits intro: wfSet_add dest: Parse_wf)

lemma NewSet_wf: "NewSet raws = Inr s \<Longrightarrow> wfSet s"
  using addAll_wf [of emptySet raws s] by (simp add: NewSet_def)

lemma addAll_grants:
  "addAll s raws = Inr t \<Longrightarrow>
     set (ps_grants t) = set (ps_grants s) \<union> {st. \<exists>raw \<in> set raws. Parse raw = Inr st}"
  by (induction raws arbitrary: s) (auto split: sum.splits)

lemma NewSet_grants:
  "NewSet raws = Inr s \<Longrightarrow> set (ps_grants s) = {st. \<exists>raw \<in> set raws. Parse raw = Inr st}"
  using addAll_grants [of emptySet raws s] by (simp add: NewSet_def emptySet_def)

lemma addAll_succeeds: "(\<exists>t. addAll s raws = Inr t) \<longleftrightarrow> (\<forall>raw \<in> set raws. \<exists>st. Parse raw = Inr st)"
proof (induction raws arbitrary: s)
  case (Cons raw raws)
  then show ?case by (cases "Parse raw") auto
qed simp

lemma foldl_add_grants: "set (ps_grants (foldl add s order)) = set (ps_grants s) \<union> set order"
  by (induction order arbitrary: s) auto

lemma foldl_add_wf: "wfSet s \<Longrightarrow> \<forall>st \<in> set order. wfStatement st \<Longrightarrow> wfSet (foldl add s order)"
  by (induction order arbitrary: s) (auto intro: wfSet_add)

lemma UnionOrder_grants [simp]: "set (ps_grants (UnionOrder order)) = set order"
  by (simp add: UnionOrder_def foldl_add_grants emptySet_def)

lemma UnionOrder_wf: "\<forall>st \<in> set order. wfStatement st \<Longrightarrow> wfSet (UnionOrder order)"
  by (simp add: UnionOrder_def foldl_add_wf)

lemma unionSets_grants:
  "set (ps_grants (unionSets s others)) = (\<Union>t \<in> set (s # others). set (ps_grants t))"
  by (auto simp: unionSets_def)

lemma unionSets_wf: "\<forall>t \<in> set (s # others). wfSet t \<Longrightarrow> wfSet (unionSets s others)"
  unfolding unionSets_def by (rule UnionOrder_wf) (auto simp: wfSet_def)

section \<open>What a set covers\<close>

text \<open>On a well-formed set the check is a function of the held statements.\<close>

definition coveredBy :: "Statement set \<Rightarrow> Statement \<Rightarrow> bool" where
  "coveredBy G st \<longleftrightarrow>
     AllStatement \<in> G \<or> st \<in> G \<or>
     (\<not> st_all st \<and>
       ((st_resource st \<noteq> Wildcard \<and> stmtOf (st_resource st) Wildcard \<in> G) \<or>
        (st_action st \<noteq> Wildcard \<and> stmtOf Wildcard (st_action st) \<in> G)))"

lemma wf_all: "wfSet s \<Longrightarrow> ps_all s \<longleftrightarrow> AllStatement \<in> set (ps_grants s)"
  by (auto simp: wfSet_def wfStatement_def) (auto simp: AllStatement_def)

lemma Covers_coveredBy: "wfSet s \<Longrightarrow> Covers s st = coveredBy (set (ps_grants s)) st"
  using wf_all [of s] by (auto simp: Covers_def coveredBy_def)

lemma coveredBy_union: "coveredBy (\<Union>i \<in> I. G i) st \<longleftrightarrow> (\<exists>i \<in> I. coveredBy (G i) st)"
  by (auto simp: coveredBy_def)

lemma coveredBy_special:
  "coveredBy G AllStatement \<Longrightarrow> AllStatement \<in> G"
  "coveredBy G (stmtOf r Wildcard) \<Longrightarrow> r \<noteq> Wildcard \<Longrightarrow> AllStatement \<in> G \<or> stmtOf r Wildcard \<in> G"
  "coveredBy G (stmtOf Wildcard a) \<Longrightarrow> a \<noteq> Wildcard \<Longrightarrow> AllStatement \<in> G \<or> stmtOf Wildcard a \<in> G"
  by (auto simp: coveredBy_def AllStatement_def)

lemma coveredBy_trans:
  assumes H: "\<And>g. g \<in> H \<Longrightarrow> coveredBy G g" and st: "coveredBy H st"
  shows "coveredBy G st"
  using st [unfolded coveredBy_def]
proof (elim disjE conjE)
  assume "AllStatement \<in> H"
  then show ?thesis using coveredBy_special(1) [OF H] by (simp add: coveredBy_def)
next
  assume "st \<in> H"
  then show ?thesis by (rule H)
next
  assume "\<not> st_all st" "st_resource st \<noteq> Wildcard" "stmtOf (st_resource st) Wildcard \<in> H"
  then show ?thesis using coveredBy_special(2) [OF H] by (auto simp: coveredBy_def)
next
  assume "\<not> st_all st" "st_action st \<noteq> Wildcard" "stmtOf Wildcard (st_action st) \<in> H"
  then show ?thesis using coveredBy_special(3) [OF H] by (auto simp: coveredBy_def)
qed

lemma wf_eq_all: "wfStatement g \<Longrightarrow> st_all g \<Longrightarrow> g = AllStatement"
  by (auto simp: wfStatement_def)

lemma stmt_eta: "\<not> st_all g \<Longrightarrow> g = stmtOf (st_resource g) (st_action g)"
  by (cases g) simp

lemma coveredBy_reaches:
  "coveredBy G st \<Longrightarrow> \<exists>g \<in> G. reaches g st"
  unfolding coveredBy_def
proof (elim disjE conjE)
  assume "AllStatement \<in> G"
  then show ?thesis by (rule bexI [rotated]) (simp add: reaches_def AllStatement_def)
next
  assume "st \<in> G"
  then show ?thesis by (rule bexI [rotated]) (simp add: reaches_def)
next
  assume "stmtOf (st_resource st) Wildcard \<in> G" and "\<not> st_all st"
  then show ?thesis by - (rule bexI, simp_all add: reaches_def)
next
  assume "stmtOf Wildcard (st_action st) \<in> G" and "\<not> st_all st"
  then show ?thesis by - (rule bexI, simp_all add: reaches_def)
qed

lemma reaches_coveredBy:
  assumes "g \<in> G" "wfStatement g" "reaches g st" "concrete st" "g \<noteq> stmtOf Wildcard Wildcard"
  shows "coveredBy G st"
proof (cases "st_all g")
  case True
  then show ?thesis using assms wf_eq_all by (auto simp: coveredBy_def)
next
  case False
  then have g: "g = stmtOf (st_resource g) (st_action g)" by (rule stmt_eta)
  have st: "st = stmtOf (st_resource st) (st_action st)" and n: "\<not> st_all st"
    using assms(4) by (auto simp: concrete_def intro: stmt_eta)
  have "st_resource g = Wildcard \<and> st_action g = st_action st
      \<or> st_resource g = st_resource st \<and> st_action g = Wildcard
      \<or> st_resource g = st_resource st \<and> st_action g = st_action st"
    using assms(3,5) False g by (auto simp: reaches_def)
  then have "g = st \<or> g = stmtOf Wildcard (st_action st) \<or> g = stmtOf (st_resource st) Wildcard"
    by (subst (1 2 3) g, subst (1) st) auto
  then show ?thesis
    using assms(1,4) n unfolding coveredBy_def concrete_def by auto
qed

text \<open>Parse and String are inverse: parsing accepts exactly the written forms of the
  well-formed statements.\<close>

theorem parse_print:
  "Parse s = Inr st \<longleftrightarrow> wfStatement st \<and> s = Statement_String st"
  by (metis Parse_String Parse_wf String_Parse)

text \<open>The check of a set is sound: whatever a set covers is inside the documented reach of
  one statement that the set holds.\<close>

theorem covers_sound:
  assumes "NewSet raws = Inr s" and "Allows s p"
  shows "\<exists>raw \<in> set raws. \<exists>g st. Parse raw = Inr g \<and> Parse p = Inr st \<and> reaches g st"
proof -
  from assms(2) obtain st where st: "Parse p = Inr st" "Covers s st"
    by (auto simp: Allows_def split: sum.splits)
  then have "coveredBy (set (ps_grants s)) st" using Covers_coveredBy NewSet_wf assms(1) by simp
  then obtain g where "g \<in> set (ps_grants s)" "reaches g st" using coveredBy_reaches by blast
  then show ?thesis using NewSet_grants [OF assms(1)] st(1) by auto
qed

text \<open>The check is complete for a concrete permission, with one exception: a set allows every
  concrete permission that a held statement reaches, unless the statement is the two-wildcard
  form, which the grammar accepts and the check never consults.\<close>

theorem covers_complete:
  assumes "NewSet raws = Inr s" and "raw \<in> set raws" and "Parse raw = Inr g"
    and "Parse p = Inr st" and "concrete st" and "reaches g st" and "raw \<noteq> ''*:*''"
  shows "Allows s p"
proof -
  have "g \<in> set (ps_grants s)" using NewSet_grants [OF assms(1)] assms(2,3) by auto
  moreover have "g \<noteq> stmtOf Wildcard Wildcard"
    using Parse_String [OF assms(3)] assms(7) by (auto simp: Statement_String_def Wildcard_def)
  ultimately have "coveredBy (set (ps_grants s)) st"
    using reaches_coveredBy Parse_wf assms(3,5,6) by blast
  then show ?thesis
    using assms(1,4) Covers_coveredBy NewSet_wf by (simp add: Allows_def)
qed

text \<open>The two-wildcard statement is accepted and reaches everything by the package comment,
  but a set that holds only this statement denies every other permission.\<close>

theorem two_wildcards_allow_nothing:
  "\<exists>s. NewSet [''*:*''] = Inr s \<and> (\<forall>p. Allows s p \<longleftrightarrow> p = ''*:*'')"
proof -
  have parse: "Parse ''*:*'' = Inr (stmtOf Wildcard Wildcard)"
    by (simp add: Parse_def Cut_def Wildcard_def validSegment_def)
  define s where "s = add emptySet (stmtOf Wildcard Wildcard)"
  have ns: "NewSet [''*:*''] = Inr s" by (simp add: NewSet_def parse s_def)
  have g: "set (ps_grants s) = {stmtOf Wildcard Wildcard}" by (simp add: s_def emptySet_def)
  have "Allows s p \<longleftrightarrow> p = ''*:*''" for p
  proof (cases "Parse p")
    case (Inl e)
    then show ?thesis using parse by (auto simp: Allows_def)
  next
    case (Inr st)
    have "Allows s p \<longleftrightarrow> st = stmtOf Wildcard Wildcard"
      using Inr NewSet_wf [OF ns] g
      by (auto simp: Allows_def Covers_coveredBy coveredBy_def AllStatement_def)
    also have "\<dots> \<longleftrightarrow> p = ''*:*''"
      using Inr parse Parse_String [OF Inr] by (auto simp: Statement_String_def Wildcard_def)
    finally show ?thesis .
  qed
  with ns show ?thesis by blast
qed

text \<open>No escalation: when a member may hand out a set (\<open>CoversSet\<close>), then every permission
  that the set allows is one that the member already holds.\<close>

theorem covers_set_no_escalation:
  assumes "wfSet s" and "wfSet other" and "CoversSet s other" and "Allows other p"
  shows "Allows s p"
proof -
  from assms(4) obtain st where st: "Parse p = Inr st" "Covers other st"
    by (auto simp: Allows_def split: sum.splits)
  have "coveredBy (set (ps_grants s)) st"
  proof (rule coveredBy_trans)
    show "coveredBy (set (ps_grants s)) g" if "g \<in> set (ps_grants other)" for g
      using assms(1,3) that by (auto simp: CoversSet_def list_all_iff Covers_coveredBy)
    show "coveredBy (set (ps_grants other)) st"
      using st(2) assms(2) by (simp add: Covers_coveredBy)
  qed
  then show ?thesis using st(1) assms(1) by (simp add: Allows_def Covers_coveredBy)
qed

text \<open>The union of the sets of a member allows a permission exactly when one of them allows
  it, so a team role adds its own permissions and nothing else.\<close>

theorem union_allows:
  assumes "\<forall>t \<in> set (s # others). wfSet t"
  shows "Allows (unionSets s others) p \<longleftrightarrow> (\<exists>t \<in> set (s # others). Allows t p)"
proof (cases "Parse p")
  case (Inr st)
  have "Covers (unionSets s others) st \<longleftrightarrow> (\<exists>t \<in> set (s # others). coveredBy (set (ps_grants t)) st)"
    using unionSets_wf [OF assms]
    by (simp only: Covers_coveredBy unionSets_grants coveredBy_union)
  then show ?thesis using Inr assms by (auto simp: Allows_def Covers_coveredBy)
qed (simp add: Allows_def)

text \<open>The iteration order of the Go maps is not observable: two orders of the same statements
  give sets with the same written form and the same answer to every check.\<close>

theorem union_order_irrelevant:
  assumes "set o1 = set o2" and "\<forall>st \<in> set o1. wfStatement st"
  shows "Statements (UnionOrder o1) = Statements (UnionOrder o2) \<and>
    Covers (UnionOrder o1) st = Covers (UnionOrder o2) st"
proof
  have w: "wfSet (UnionOrder o1)" "wfSet (UnionOrder o2)"
    using assms by (simp_all add: UnionOrder_wf)
  have "distinct (ps_sources (UnionOrder o1))" "distinct (ps_sources (UnionOrder o2))"
    using w by (auto simp: wfSet_def distinct_map inj_on_def intro: String_inj)
  moreover have "set (ps_sources (UnionOrder o1)) = set (ps_sources (UnionOrder o2))"
    using w assms(1) by (simp add: wfSet_def)
  ultimately show "Statements (UnionOrder o1) = Statements (UnionOrder o2)"
    by (simp add: Statements_def sorted_distinct_set_unique sorted_sort)
  show "Covers (UnionOrder o1) st = Covers (UnionOrder o2) st"
    using w assms(1) by (simp add: Covers_coveredBy)
qed

definition w_set :: PermSet where
  "w_set = (case NewSet [''doc:*''] of Inr s \<Rightarrow> s | Inl _ \<Rightarrow> emptySet)"

lemma w_set_new: "NewSet [''doc:*''] = Inr w_set"
  by code_simp

lemma w_set_allows: "Allows w_set ''doc:read''" "\<not> Allows w_set ''team:read''" "wfSet w_set"
  by code_simp+

theorem covers_sound_witness:
  "\<exists>raw \<in> set [''doc:*'']. \<exists>g st. Parse raw = Inr g \<and> Parse ''doc:read'' = Inr st \<and> reaches g st"
  by (rule covers_sound [OF w_set_new w_set_allows(1)])

theorem covers_complete_witness: "Allows w_set ''doc:write''"
proof -
  have "Parse ''doc:*'' = Inr (stmtOf ''doc'' ''*'')" "Parse ''doc:write'' = Inr (stmtOf ''doc'' ''write'')"
    "concrete (stmtOf ''doc'' ''write'')" "reaches (stmtOf ''doc'' ''*'') (stmtOf ''doc'' ''write'')"
    by code_simp+
  then show ?thesis by (intro covers_complete [OF w_set_new, where raw = "''doc:*''"]) simp_all
qed

theorem covers_set_no_escalation_witness: "Allows w_set ''doc:read''"
proof -
  have "wfSet (add emptySet (stmtOf ''doc'' ''read''))"
    "CoversSet w_set (add emptySet (stmtOf ''doc'' ''read''))"
    "Allows (add emptySet (stmtOf ''doc'' ''read'')) ''doc:read''" by code_simp+
  then show ?thesis using covers_set_no_escalation [OF w_set_allows(3)] by blast
qed

theorem union_allows_witness:
  "Allows (unionSets w_set [emptySet]) ''doc:read'' \<longleftrightarrow> (\<exists>t \<in> set [w_set, emptySet]. Allows t ''doc:read'')"
  by (rule union_allows) (simp add: w_set_allows)

theorem union_order_irrelevant_witness:
  "Statements (UnionOrder [stmtOf ''a'' ''b'', stmtOf ''c'' ''d'']) =
     Statements (UnionOrder [stmtOf ''c'' ''d'', stmtOf ''a'' ''b'']) \<and>
   Covers (UnionOrder [stmtOf ''a'' ''b'', stmtOf ''c'' ''d'']) (stmtOf ''a'' ''b'') =
     Covers (UnionOrder [stmtOf ''c'' ''d'', stmtOf ''a'' ''b'']) (stmtOf ''a'' ''b'')"
proof -
  have "wfStatement (stmtOf ''a'' ''b'')" "wfStatement (stmtOf ''c'' ''d'')" by code_simp+
  then show ?thesis by (intro union_order_irrelevant) auto
qed

end
