(* ===== verification/Store_Types.thy ===== *)
theory Store_Types
  imports Go_Strings
begin

text \<open>
  The rows of \<open>store/store.go\<close>, \<open>store/apikey.go\<close>, \<open>store/organizations.go\<close> and
  \<open>store/oauthprovider.go\<close>, the database as one list of rows per table, and the constraints of
  \<open>schema/core.go\<close>, \<open>schema/organizations.go\<close> and \<open>schema/oauthprovider.go\<close> (primary keys, unique
  indexes and foreign keys) as the predicate \<open>wfTables\<close>.

  A time is the number of nanoseconds since the epoch, and a duration is a number of
  nanoseconds. A Go pointer to a value is an option. The host-owned columns (\<open>Extra\<close>) are
  not modelled.
\<close>

type_synonym time = int
type_synonym duration = int

record User =
  u_ID :: string
  u_Email :: string
  u_EmailNormalized :: string
  u_EmailVerifiedAt :: "time option"
  u_DisplayName :: string
  u_ImageURL :: string
  u_CreatedAt :: time
  u_UpdatedAt :: time
  u_Role :: string
  u_DisabledAt :: "time option"
  u_MustChangePassword :: bool

record Credential =
  cr_UserID :: string
  cr_PasswordHash :: string
  cr_CreatedAt :: time
  cr_UpdatedAt :: time

record Account =
  ac_ID :: string
  ac_UserID :: string
  ac_Provider :: string
  ac_ProviderAccountID :: string
  ac_CreatedAt :: time
  ac_UpdatedAt :: time

text \<open>The column \<open>active_org_id\<close> is the one that the organizations plugin adds to the sessions
  table. A core insert leaves it null.\<close>

record Session =
  se_ID :: string
  se_UserID :: string
  se_TokenHash :: string
  se_CreatedAt :: time
  se_ExpiresAt :: time
  se_LastSeenAt :: time
  se_ActiveOrgID :: "string option"

record Token =
  tk_ID :: string
  tk_UserID :: "string option"
  tk_Kind :: string
  tk_Identifier :: string
  tk_TokenHash :: string
  tk_CreatedAt :: time
  tk_ExpiresAt :: time
  tk_ConsumedAt :: "time option"

record TOTP =
  tp_UserID :: string
  tp_Secret :: string
  tp_ConfirmedAt :: "time option"
  tp_LastStep :: int
  tp_CreatedAt :: time
  tp_UpdatedAt :: time

record RecoveryCode =
  rc_UserID :: string
  rc_CodeHash :: string

record OAuthState =
  os_ID :: string
  os_StateHash :: string
  os_Provider :: string
  os_Verifier :: string
  os_Nonce :: string
  os_RedirectTo :: string
  os_LinkUserID :: "string option"
  os_CreatedAt :: time
  os_ExpiresAt :: time
  os_ConsumedAt :: "time option"

record RateRow =
  rl_Key :: string
  rl_WindowStart :: time
  rl_Count :: int

record APIKey =
  ak_ID :: string
  ak_UserID :: string
  ak_Name :: string
  ak_Start :: string
  ak_KeyHash :: string
  ak_Role :: string
  ak_OrgID :: "string option"
  ak_Scopes :: string
  ak_CreatedAt :: time
  ak_ExpiresAt :: "time option"
  ak_LastUsedAt :: "time option"
  ak_RevokedAt :: "time option"
  ak_RevokedBy :: "string option"

record Organization =
  og_ID :: string
  og_Name :: string
  og_Slug :: string
  og_CreatedAt :: time
  og_UpdatedAt :: time

text \<open>The fields \<open>Permissions\<close> and \<open>TeamRoles\<close> of a membership are computed by the credential
  read and are no columns; a stored row holds two empty strings.\<close>

record Membership =
  mb_ID :: string
  mb_OrgID :: string
  mb_UserID :: string
  mb_Role :: string
  mb_Status :: string
  mb_JoinedAt :: time
  mb_Permissions :: string
  mb_TeamRoles :: string

definition MembershipActive :: string where "MembershipActive = ''active''"
definition MembershipSuspended :: string where "MembershipSuspended = ''suspended''"

record Invitation =
  iv_ID :: string
  iv_OrgID :: string
  iv_EmailNormalized :: string
  iv_Role :: string
  iv_InvitedBy :: string
  iv_TokenHash :: string
  iv_Status :: string
  iv_ExpiresAt :: time
  iv_CreatedAt :: time

definition InvitationPending :: string where "InvitationPending = ''pending''"
definition InvitationAccepted :: string where "InvitationAccepted = ''accepted''"
definition InvitationRevoked :: string where "InvitationRevoked = ''revoked''"
definition InvitationExpired :: string where "InvitationExpired = ''expired''"

record CustomRole =
  cu_ID :: string
  cu_OrgID :: string
  cu_Name :: string
  cu_Permissions :: string
  cu_CreatedAt :: time

record Team =
  te_ID :: string
  te_OrgID :: string
  te_Name :: string
  te_Role :: string
  te_CreatedAt :: time

record OAuthKey =
  ok_ID :: string
  ok_Algorithm :: string
  ok_WrappedPrivate :: "nat list"
  ok_PublicJWK :: string
  ok_CreatedAt :: time
  ok_RetiredAt :: "time option"

record OAuthClient =
  oc_ID :: string
  oc_ClientID :: string
  oc_SecretHash :: string
  oc_Name :: string
  oc_LogoURI :: string
  oc_RedirectURIs :: "string list"
  oc_GrantTypes :: "string list"
  oc_Scopes :: "string list"
  oc_TokenEndpointAuthMethod :: string
  oc_DPoPRequired :: bool
  oc_OwnerUserID :: "string option"
  oc_OrgID :: "string option"
  oc_RegistrationTokenHash :: "string option"
  oc_CreatedAt :: time
  oc_UpdatedAt :: time

record OAuthAuthorizationRequest =
  or_ID :: string
  or_ClientID :: string
  or_RedirectURI :: string
  or_Scopes :: "string list"
  or_Resources :: "string list"
  or_State :: string
  or_Nonce :: string
  or_CodeChallenge :: string
  or_CodeChallengeMethod :: string
  or_Prompt :: "string list"
  or_MaxAge :: "int option"
  or_DPoPJKT :: string
  or_CreatedAt :: time
  or_ExpiresAt :: time
  or_ConsumedAt :: "time option"

record OAuthGrant =
  gr_ID :: string
  gr_ClientID :: string
  gr_UserID :: "string option"
  gr_Scopes :: "string list"
  gr_Resources :: "string list"
  gr_AuthTime :: "time option"
  gr_SessionID :: "string option"
  gr_CreatedAt :: time
  gr_RevokedAt :: "time option"

record OAuthCode =
  co_ID :: string
  co_CodeHash :: string
  co_GrantID :: string
  co_ClientID :: string
  co_RedirectURI :: string
  co_CodeChallenge :: string
  co_Nonce :: string
  co_Scopes :: "string list"
  co_Resources :: "string list"
  co_DPoPJKT :: string
  co_CreatedAt :: time
  co_ExpiresAt :: time
  co_ConsumedAt :: "time option"

record OAuthAccessToken =
  at_ID :: string
  at_GrantID :: string
  at_ClientID :: string
  at_UserID :: "string option"
  at_Scopes :: "string list"
  at_Audience :: string
  at_JKT :: string
  at_CreatedAt :: time
  at_ExpiresAt :: time
  at_RevokedAt :: "time option"

record OAuthRefreshToken =
  rt_ID :: string
  rt_TokenHash :: string
  rt_GrantID :: string
  rt_ClientID :: string
  rt_UserID :: "string option"
  rt_Scopes :: "string list"
  rt_Resources :: "string list"
  rt_JKT :: string
  rt_CreatedAt :: time
  rt_ExpiresAt :: time
  rt_RotatedAt :: "time option"
  rt_SuccessorID :: "string option"
  rt_RevokedAt :: "time option"

record OAuthConsent =
  cs_ID :: string
  cs_ClientID :: string
  cs_UserID :: string
  cs_Scopes :: "string list"
  cs_Resources :: "string list"
  cs_CreatedAt :: time
  cs_UpdatedAt :: time

text \<open>The database: one list of rows per table, in insertion order.\<close>

record tables =
  users :: "User list"
  credentials :: "Credential list"
  accounts :: "Account list"
  sessions :: "Session list"
  tokens :: "Token list"
  oauth_states :: "OAuthState list"
  totps :: "TOTP list"
  recovery :: "RecoveryCode list"
  rate_limits :: "RateRow list"
  api_keys :: "APIKey list"
  orgs :: "Organization list"
  members :: "Membership list"
  invitations :: "Invitation list"
  org_roles :: "CustomRole list"
  teams :: "Team list"
  team_members :: "(string \<times> string) list"
  op_keys :: "OAuthKey list"
  op_clients :: "OAuthClient list"
  op_requests :: "OAuthAuthorizationRequest list"
  op_grants :: "OAuthGrant list"
  op_codes :: "OAuthCode list"
  op_access :: "OAuthAccessToken list"
  op_refresh :: "OAuthRefreshToken list"
  op_consents :: "OAuthConsent list"
  op_proofs :: "(string \<times> time) list"

definition emptyTables :: tables where
  "emptyTables =
     \<lparr>users = [], credentials = [], accounts = [], sessions = [], tokens = [],
      oauth_states = [], totps = [], recovery = [], rate_limits = [], api_keys = [],
      orgs = [], members = [], invitations = [], org_roles = [], teams = [], team_members = [],
      op_keys = [], op_clients = [], op_requests = [], op_grants = [], op_codes = [],
      op_access = [], op_refresh = [], op_consents = [], op_proofs = []\<rparr>"

section \<open>The constraints of the schema\<close>

abbreviation unique :: "('r \<Rightarrow> 'k) \<Rightarrow> 'r list \<Rightarrow> bool" where
  "unique k rows \<equiv> distinct (map k rows)"

text \<open>The primary key and the unique indexes of the tables that have more than one key.\<close>

definition uniqUsers :: "User list \<Rightarrow> bool" where
  "uniqUsers rows \<longleftrightarrow> unique u_ID rows \<and> unique u_EmailNormalized rows"

definition uniqAccounts :: "Account list \<Rightarrow> bool" where
  "uniqAccounts rows \<longleftrightarrow>
     unique ac_ID rows \<and> unique (\<lambda>a. (ac_Provider a, ac_ProviderAccountID a)) rows \<and>
     unique (\<lambda>a. (ac_UserID a, ac_Provider a)) rows"

definition uniqSessions :: "Session list \<Rightarrow> bool" where
  "uniqSessions rows \<longleftrightarrow> unique se_ID rows \<and> unique se_TokenHash rows"

definition uniqTokens :: "Token list \<Rightarrow> bool" where
  "uniqTokens rows \<longleftrightarrow> unique tk_ID rows \<and> unique (\<lambda>k. (tk_Kind k, tk_TokenHash k)) rows"

definition uniqStates :: "OAuthState list \<Rightarrow> bool" where
  "uniqStates rows \<longleftrightarrow> unique os_ID rows \<and> unique os_StateHash rows"

definition uniqKeys :: "APIKey list \<Rightarrow> bool" where
  "uniqKeys rows \<longleftrightarrow> unique ak_ID rows \<and> unique ak_KeyHash rows"

definition uniqOrgs :: "Organization list \<Rightarrow> bool" where
  "uniqOrgs rows \<longleftrightarrow> unique og_ID rows \<and> unique og_Slug rows"

definition uniqMembers :: "Membership list \<Rightarrow> bool" where
  "uniqMembers rows \<longleftrightarrow> unique mb_ID rows \<and> unique (\<lambda>m. (mb_OrgID m, mb_UserID m)) rows"

definition uniqInvitations :: "Invitation list \<Rightarrow> bool" where
  "uniqInvitations rows \<longleftrightarrow> unique iv_ID rows \<and> unique iv_TokenHash rows"

definition uniqRoles :: "CustomRole list \<Rightarrow> bool" where
  "uniqRoles rows \<longleftrightarrow> unique cu_ID rows \<and> unique (\<lambda>r. (cu_OrgID r, cu_Name r)) rows"

definition uniqTeams :: "Team list \<Rightarrow> bool" where
  "uniqTeams rows \<longleftrightarrow> unique te_ID rows \<and> unique (\<lambda>r. (te_OrgID r, te_Name r)) rows"

definition uniqClients :: "OAuthClient list \<Rightarrow> bool" where
  "uniqClients rows \<longleftrightarrow> unique oc_ID rows \<and> unique oc_ClientID rows"

definition uniqCodes :: "OAuthCode list \<Rightarrow> bool" where
  "uniqCodes rows \<longleftrightarrow> unique co_ID rows \<and> unique co_CodeHash rows"

definition uniqRefresh :: "OAuthRefreshToken list \<Rightarrow> bool" where
  "uniqRefresh rows \<longleftrightarrow> unique rt_ID rows \<and> unique rt_TokenHash rows"

definition uniqConsents :: "OAuthConsent list \<Rightarrow> bool" where
  "uniqConsents rows \<longleftrightarrow> unique cs_ID rows \<and> unique (\<lambda>c. (cs_UserID c, cs_ClientID c)) rows"

text \<open>\<open>okRows u f rows\<close>: the keys of a table are unique, and every row satisfies its foreign
  keys.\<close>

definition okRows :: "('r list \<Rightarrow> bool) \<Rightarrow> ('r \<Rightarrow> bool) \<Rightarrow> 'r list \<Rightarrow> bool" where
  "okRows u f rows \<longleftrightarrow> u rows \<and> (\<forall>r \<in> set rows. f r)"

definition hereditary :: "('r list \<Rightarrow> bool) \<Rightarrow> bool" where
  "hereditary u \<longleftrightarrow> (\<forall>rows p. u rows \<longrightarrow> u (deleteWhere p rows))"

definition userIDs :: "User list \<Rightarrow> string set" where
  "userIDs rows = u_ID ` set rows"

definition orgIDs :: "Organization list \<Rightarrow> string set" where
  "orgIDs rows = og_ID ` set rows"

definition teamIDs :: "Team list \<Rightarrow> string set" where
  "teamIDs rows = te_ID ` set rows"

definition grantIDs :: "OAuthGrant list \<Rightarrow> string set" where
  "grantIDs rows = gr_ID ` set rows"

definition refOpt :: "string option \<Rightarrow> string set \<Rightarrow> bool" where
  "refOpt r S \<longleftrightarrow> (case r of None \<Rightarrow> True | Some x \<Rightarrow> x \<in> S)"

definition wfTables :: "tables \<Rightarrow> bool" where
  "wfTables t \<longleftrightarrow>
     uniqUsers (users t) \<and>
     okRows (unique cr_UserID) (\<lambda>r. cr_UserID r \<in> userIDs (users t)) (credentials t) \<and>
     okRows uniqAccounts (\<lambda>r. ac_UserID r \<in> userIDs (users t)) (accounts t) \<and>
     okRows uniqSessions (\<lambda>r. se_UserID r \<in> userIDs (users t)) (sessions t) \<and>
     okRows uniqTokens (\<lambda>r. refOpt (tk_UserID r) (userIDs (users t))) (tokens t) \<and>
     uniqStates (oauth_states t) \<and>
     okRows (unique tp_UserID) (\<lambda>r. tp_UserID r \<in> userIDs (users t)) (totps t) \<and>
     okRows (unique rc_CodeHash) (\<lambda>r. rc_UserID r \<in> userIDs (users t)) (recovery t) \<and>
     unique rl_Key (rate_limits t) \<and>
     okRows uniqKeys (\<lambda>r. ak_UserID r \<in> userIDs (users t)) (api_keys t) \<and>
     uniqOrgs (orgs t) \<and>
     okRows uniqMembers (\<lambda>r. mb_OrgID r \<in> orgIDs (orgs t) \<and> mb_UserID r \<in> userIDs (users t)) (members t) \<and>
     okRows uniqInvitations (\<lambda>r. iv_OrgID r \<in> orgIDs (orgs t)) (invitations t) \<and>
     okRows uniqRoles (\<lambda>r. cu_OrgID r \<in> orgIDs (orgs t)) (org_roles t) \<and>
     okRows uniqTeams (\<lambda>r. te_OrgID r \<in> orgIDs (orgs t)) (teams t) \<and>
     okRows (unique (\<lambda>r. r)) (\<lambda>r. fst r \<in> teamIDs (teams t) \<and> snd r \<in> userIDs (users t)) (team_members t) \<and>
     unique ok_ID (op_keys t) \<and>
     okRows uniqClients (\<lambda>r. refOpt (oc_OwnerUserID r) (userIDs (users t))) (op_clients t) \<and>
     unique or_ID (op_requests t) \<and>
     okRows (unique gr_ID) (\<lambda>r. refOpt (gr_UserID r) (userIDs (users t))) (op_grants t) \<and>
     okRows uniqCodes (\<lambda>r. co_GrantID r \<in> grantIDs (op_grants t)) (op_codes t) \<and>
     okRows (unique at_ID) (\<lambda>r. at_GrantID r \<in> grantIDs (op_grants t)) (op_access t) \<and>
     okRows uniqRefresh (\<lambda>r. rt_GrantID r \<in> grantIDs (op_grants t)) (op_refresh t) \<and>
     okRows uniqConsents (\<lambda>r. cs_UserID r \<in> userIDs (users t)) (op_consents t) \<and>
     unique fst (op_proofs t)"

lemmas uniq_defs =
  uniqUsers_def uniqAccounts_def uniqSessions_def uniqTokens_def uniqStates_def uniqKeys_def
  uniqOrgs_def uniqMembers_def uniqInvitations_def uniqRoles_def uniqTeams_def uniqClients_def
  uniqCodes_def uniqRefresh_def uniqConsents_def

lemma wfTables_empty: "wfTables emptyTables"
  by (simp add: wfTables_def okRows_def uniq_defs emptyTables_def)

lemma unique_deleteWhere: "unique k rows \<Longrightarrow> unique k (deleteWhere p rows)"
  by (rule distinct_map_deleteWhere)

lemma hereditary_unique [simp]: "hereditary (unique k)"
  by (simp add: hereditary_def unique_deleteWhere)

lemma hereditary_uniq [simp]:
  "hereditary uniqUsers" "hereditary uniqAccounts" "hereditary uniqSessions"
  "hereditary uniqTokens" "hereditary uniqStates" "hereditary uniqKeys" "hereditary uniqOrgs"
  "hereditary uniqMembers" "hereditary uniqInvitations" "hereditary uniqRoles"
  "hereditary uniqTeams" "hereditary uniqClients" "hereditary uniqCodes"
  "hereditary uniqRefresh" "hereditary uniqConsents"
  by (simp_all add: hereditary_def uniq_defs unique_deleteWhere)

lemma hereditaryD: "hereditary u \<Longrightarrow> u rows \<Longrightarrow> u (deleteWhere p rows)"
  by (simp add: hereditary_def)

lemma okRows_append:
  "okRows u f rows \<Longrightarrow> u (rows @ [r]) \<Longrightarrow> f r \<Longrightarrow> okRows u f (rows @ [r])"
  by (simp add: okRows_def)

lemma okRows_delete:
  "hereditary u \<Longrightarrow> okRows u f rows \<Longrightarrow> okRows u f (deleteWhere p rows)"
  by (simp add: okRows_def hereditary_def)

text \<open>Rows that lose the rows whose reference goes away satisfy the smaller reference set.\<close>

lemma okRows_cascade:
  "hereditary u \<Longrightarrow> okRows u f rows \<Longrightarrow> (\<And>r. f r \<Longrightarrow> \<not> p r \<Longrightarrow> g r) \<Longrightarrow> okRows u g (deleteWhere p rows)"
  by (simp add: okRows_def hereditary_def)

lemma okRows_mono: "okRows u f rows \<Longrightarrow> (\<And>r. f r \<Longrightarrow> g r) \<Longrightarrow> okRows u g rows"
  by (simp add: okRows_def)

lemma okRows_update:
  "okRows u f rows \<Longrightarrow> u (updateWhere p h rows) \<Longrightarrow> (\<And>r. f r \<Longrightarrow> f (h r)) \<Longrightarrow>
     okRows u f (updateWhere p h rows)"
  by (auto simp: okRows_def set_updateWhere)

text \<open>An update of columns outside the keys keeps the keys.\<close>

lemma okRows_update_keep:
  assumes "okRows u f rows" and "u (updateWhere p h rows) = u rows" and "\<And>r. f (h r) = f r"
  shows "okRows u f (updateWhere p h rows)"
  using assms by (auto simp: okRows_def set_updateWhere)

lemma image_updateWhere:
  assumes "\<And>r. k (h r) = k r"
  shows "k ` set (updateWhere p h rows) = k ` set rows"
  using distinct_map_updateWhere [of k h p rows] assms by (metis image_set)

end
