(* ===== verification/Store_Sql.thy ===== *)
theory Store_Sql
  imports Store_Types
begin

text \<open>
  The world that the operations run in (\<open>sys\<close>: the database, a schedule of driver faults, the
  clock, the sources of identifiers and random tokens, and the trace of emitted events and sent
  mails), one SQL statement (\<open>stmt\<close>), \<open>Store.Transaction\<close> of \<open>internal/sqlstore/sqlstore.go\<close>, and the
  five statement forms that the adapter uses.

  Every statement, BEGIN and COMMIT consumes one element of the fault schedule. A fault is an
  error of the driver, and a failed statement changes nothing. A theorem that holds for every
  schedule holds for every place at which the database can fail.
\<close>

text \<open>\<open>Principal\<close> of \<open>principal.go\<close>: the authenticated caller of one request.\<close>

record Principal =
  pr_User :: User
  pr_Session :: "Session option"
  pr_APIKey :: "APIKey option"
  pr_Role :: string
  pr_Method :: string
  pr_ViaCookie :: bool
  pr_Organization :: "Organization option"
  pr_Membership :: "Membership option"

text \<open>\<open>Message\<close> of \<open>email/email.go\<close>.\<close>

record Message =
  ml_Intent :: string
  ml_To :: string
  ml_UserID :: string
  ml_Token :: string
  ml_URL :: string
  ml_ExpiresAt :: "time option"
  ml_Data :: "(string \<times> string) list"

text \<open>The trace: emitted events, sent mails, called After hooks, cookies and headers of the response (an
  empty value clears the cookie).\<close>

datatype trace =
    Emitted string string "(string \<times> string) list"
  | Mailed Message
  | Hooked string string
  | CookieSet string string
  | HeaderSet string string

record sys =
  db :: tables
  faults :: "bool list"
  in_tx :: bool
  clock :: time
  ids :: "nat \<Rightarrow> string"
  next_id :: nat
  entropy :: "nat \<Rightarrow> string option"
  next_rand :: nat
  draws :: "nat list list"
  audit :: "trace list"
  principals :: "(string \<times> (Principal \<times> time)) list option"

text \<open>\<open>principals\<close> is the cache of \<open>principalcache.go\<close>, absent without the option that enables it.\<close>

text \<open>\<open>draws\<close> are the index lists that the generator of recovery codes will read.\<close>

section \<open>Statements and transactions\<close>

definition faultNow :: "sys \<Rightarrow> bool" where
  "faultNow s = (case faults s of [] \<Rightarrow> False | b # bs \<Rightarrow> b)"

definition tick :: "sys \<Rightarrow> sys" where
  "tick s = s\<lparr>faults := tl (faults s)\<rparr>"

definition stmt :: "(tables \<Rightarrow> 'a res \<times> tables) \<Rightarrow> (sys, 'a) oper" where
  "stmt f s =
     (if faultNow s then (Inl ErrDriver, tick s)
      else case f (db s) of (r, t) \<Rightarrow> (r, (tick s)\<lparr>db := t\<rparr>))"

text \<open>\<open>Store.Transaction\<close>: a nested call joins the running transaction. An error of the body
  rolls back and is returned. A failed COMMIT leaves the database as it was.\<close>

definition transaction :: "(sys, 'a) oper \<Rightarrow> (sys, 'a) oper" where
  "transaction fn s =
     (if in_tx s then fn s
      else if faultNow s then (Inl ErrDriver, tick s)
      else case fn ((tick s)\<lparr>in_tx := True\<rparr>) of
             (Inl e, s') \<Rightarrow> (Inl e, s'\<lparr>db := db s, in_tx := False\<rparr>)
           | (Inr x, s') \<Rightarrow>
               if faultNow s' then (Inl ErrDriver, (tick s')\<lparr>db := db s, in_tx := False\<rparr>)
               else (Inr x, (tick s')\<lparr>in_tx := False\<rparr>))"

text \<open>\<open>cfg.now()\<close>, \<open>uuid.NewString()\<close>, \<open>crypto.NewToken()\<close> and \<open>emitter.Emit\<close>.\<close>

definition now :: "(sys, time) oper" where
  "now s = (Inr (clock s), s)"

definition newUUID :: "(sys, string) oper" where
  "newUUID s = (Inr (ids s (next_id s)), s\<lparr>next_id := next_id s + 1\<rparr>)"

definition NewToken :: "(sys, string) oper" where
  "NewToken s =
     (case entropy s (next_rand s) of
        None \<Rightarrow> (Inl (ErrOther ''crypto/rand''), s\<lparr>next_rand := next_rand s + 1\<rparr>)
      | Some t \<Rightarrow> (Inr t, s\<lparr>next_rand := next_rand s + 1\<rparr>))"

definition emit :: "string \<Rightarrow> string \<Rightarrow> (string \<times> string) list \<Rightarrow> (sys, unit) oper" where
  "emit name user fs s = (Inr (), s\<lparr>audit := audit s @ [Emitted name user fs]\<rparr>)"

text \<open>An After hook cannot reject, so only its call is recorded.\<close>

definition runAfter :: "string \<Rightarrow> string \<Rightarrow> (sys, unit) oper" where
  "runAfter name subject s = (Inr (), s\<lparr>audit := audit s @ [Hooked name subject]\<rparr>)"

text \<open>A Before hook as its verdict.\<close>

definition veto :: "err option \<Rightarrow> (sys, unit) oper" where
  "veto v = (case v of None \<Rightarrow> ret () | Some e \<Rightarrow> fail e)"

section \<open>The statement forms\<close>

text \<open>\<open>requireAffected\<close> and \<open>notFoundWhenNoRow\<close>.\<close>

definition requireAffected :: "nat \<Rightarrow> (sys, unit) oper" where
  "requireAffected n = ensure (n \<noteq> 0) ErrNotFound"

text \<open>INSERT: a clash with a unique key is \<open>ErrConflict\<close> (\<open>mapErr\<close>), and any other constraint
  failure is an error of the driver.\<close>

definition insertRow ::
  "(tables \<Rightarrow> 'r list) \<Rightarrow> (('r list \<Rightarrow> 'r list) \<Rightarrow> tables \<Rightarrow> tables) \<Rightarrow>
   ('r list \<Rightarrow> bool) \<Rightarrow> (tables \<Rightarrow> bool) \<Rightarrow> 'r \<Rightarrow> (sys, unit) oper" where
  "insertRow get upd uniq fk r =
     stmt (\<lambda>t. if \<not> uniq (get t @ [r]) then (Inl ErrConflict, t)
               else if \<not> fk t then (Inl ErrDriver, t)
               else (Inr (), upd (\<lambda>rows. rows @ [r]) t))"

text \<open>SELECT of one row, and \<open>sql.ErrNoRows\<close> as \<open>ErrNotFound\<close>.\<close>

definition selectOne :: "(tables \<Rightarrow> 'r list) \<Rightarrow> ('r \<Rightarrow> bool) \<Rightarrow> (sys, 'r) oper" where
  "selectOne get p =
     stmt (\<lambda>t. (case find p (get t) of None \<Rightarrow> Inl ErrNotFound | Some r \<Rightarrow> Inr r, t))"

text \<open>Any other SELECT computes a value of the database.\<close>

definition select :: "(tables \<Rightarrow> 'a) \<Rightarrow> (sys, 'a) oper" where
  "select f = stmt (\<lambda>t. (Inr (f t), t))"

text \<open>UPDATE with the number of matched rows.\<close>

definition updateRows ::
  "(tables \<Rightarrow> 'r list) \<Rightarrow> (('r list \<Rightarrow> 'r list) \<Rightarrow> tables \<Rightarrow> tables) \<Rightarrow>
   ('r list \<Rightarrow> bool) \<Rightarrow> ('r \<Rightarrow> bool) \<Rightarrow> ('r \<Rightarrow> 'r) \<Rightarrow> (sys, nat) oper" where
  "updateRows get upd uniq p f =
     stmt (\<lambda>t. if \<not> uniq (updateWhere p f (get t)) then (Inl ErrConflict, t)
               else (Inr (countWhere p (get t)), upd (updateWhere p f) t))"

text \<open>UPDATE ... RETURNING of one row: the first matching row after the update.\<close>

definition updateReturning ::
  "(tables \<Rightarrow> 'r list) \<Rightarrow> (('r list \<Rightarrow> 'r list) \<Rightarrow> tables \<Rightarrow> tables) \<Rightarrow>
   ('r \<Rightarrow> bool) \<Rightarrow> ('r \<Rightarrow> 'r) \<Rightarrow> (sys, 'r) oper" where
  "updateReturning get upd p f =
     stmt (\<lambda>t. (case find p (get t) of None \<Rightarrow> Inl ErrNotFound | Some r \<Rightarrow> Inr (f r),
                upd (updateWhere p f) t))"

text \<open>DELETE, with the work of the cascades in the update.\<close>

definition deleteRows ::
  "(tables \<Rightarrow> 'r list) \<Rightarrow> (('r list \<Rightarrow> 'r list) \<Rightarrow> tables \<Rightarrow> tables) \<Rightarrow> ('r \<Rightarrow> bool) \<Rightarrow> (sys, nat) oper"
  where
  "deleteRows get upd p =
     stmt (\<lambda>t. (Inr (countWhere p (get t)), upd (deleteWhere p) t))"

text \<open>No unique column changes in the update.\<close>

definition anyRows :: "'r list \<Rightarrow> bool" where
  "anyRows rows = True"

text \<open>\<open>ORDER BY k\<close> and \<open>ORDER BY k DESC\<close>.\<close>

definition orderBy :: "('r \<Rightarrow> 'k :: linorder) \<Rightarrow> 'r list \<Rightarrow> 'r list" where
  "orderBy k rows = sort_key k rows"

definition orderByDesc :: "('r \<Rightarrow> 'k :: linorder) \<Rightarrow> 'r list \<Rightarrow> 'r list" where
  "orderByDesc k rows = rev (sort_key k rows)"

section \<open>Invariants of the statements\<close>

text \<open>\<open>dbInv Q m\<close>: the operation keeps a predicate of the database, on every branch and for
  every fault schedule.\<close>

definition dbInv :: "(tables \<Rightarrow> bool) \<Rightarrow> (sys, 'a) oper \<Rightarrow> bool" where
  "dbInv Q m \<longleftrightarrow> keeps (\<lambda>s. Q (db s)) m"

named_theorems db_intros

lemma db_tick [simp]: "db (tick s) = db s" "in_tx (tick s) = in_tx s" "clock (tick s) = clock s"
  by (simp_all add: tick_def)

lemma dbInv_stmt: "(\<And>t. Q t \<Longrightarrow> Q (snd (f t))) \<Longrightarrow> dbInv Q (stmt f)"
  by (auto simp: dbInv_def keeps_def stmt_def split: prod.splits) (metis snd_conv)

lemma dbInv_transaction [db_intros]: "dbInv Q m \<Longrightarrow> dbInv Q (transaction m)"
  unfolding dbInv_def keeps_def
proof (intro allI impI)
  fix s :: sys
  assume m: "\<forall>s. Q (db s) \<longrightarrow> Q (db (snd (m s)))" and s: "Q (db s)"
  have "Q (db ((tick s)\<lparr>in_tx := True\<rparr>))" using s by simp
  then have "Q (db (snd (m ((tick s)\<lparr>in_tx := True\<rparr>))))" using m by blast
  then show "Q (db (snd (transaction m s)))"
    using m s
    by (cases "m ((tick s)\<lparr>in_tx := True\<rparr>)") (auto simp: transaction_def split: sum.split)
qed

lemma dbInv_ret [db_intros]: "dbInv Q (ret x)"
  and dbInv_fail [db_intros]: "dbInv Q (fail e)"
  and dbInv_ensure [db_intros]: "dbInv Q (ensure c e)"
  and dbInv_now [db_intros]: "dbInv Q now"
  and dbInv_newUUID [db_intros]: "dbInv Q newUUID"
  and dbInv_NewToken [db_intros]: "dbInv Q NewToken"
  and dbInv_emit [db_intros]: "dbInv Q (emit nm u fs)"
  and dbInv_runAfter [db_intros]: "dbInv Q (runAfter nm u)"
  and dbInv_requireAffected [db_intros]: "dbInv Q (requireAffected n)"
  and dbInv_veto [db_intros]: "dbInv Q (veto v)"
  by (simp_all add: dbInv_def keeps_def oper_defs now_def newUUID_def NewToken_def emit_def
      runAfter_def requireAffected_def veto_def split: option.splits)

lemma dbInv_andThen [db_intros]:
  "dbInv Q m \<Longrightarrow> (\<And>x. dbInv Q (k x)) \<Longrightarrow> dbInv Q (andThen m k)"
  unfolding dbInv_def by (rule keeps_andThen)

lemma dbInv_caught [db_intros]:
  "dbInv Q m \<Longrightarrow> (\<And>r. dbInv Q (k r)) \<Longrightarrow> dbInv Q (caught m k)"
  unfolding dbInv_def by (rule keeps_caught)

lemma dbInv_mapFail [db_intros]: "dbInv Q m \<Longrightarrow> dbInv Q (mapFail f m)"
  unfolding dbInv_def by (rule keeps_mapFail)

lemma dbInv_ignoring [db_intros]: "dbInv Q m \<Longrightarrow> dbInv Q (ignoring m)"
  unfolding dbInv_def by (rule keeps_ignoring)

lemma dbInv_if [db_intros]: "dbInv Q a \<Longrightarrow> dbInv Q b \<Longrightarrow> dbInv Q (if c then a else b)"
  by simp

lemma dbInv_option [db_intros]:
  "dbInv Q a \<Longrightarrow> (\<And>x. dbInv Q (b x)) \<Longrightarrow> dbInv Q (case z of None \<Rightarrow> a | Some x \<Rightarrow> b x)"
  by (cases z) simp_all

lemma dbInv_sum [db_intros]:
  "(\<And>e. dbInv Q (a e)) \<Longrightarrow> (\<And>x. dbInv Q (b x)) \<Longrightarrow>
     dbInv Q (case z of Inl e \<Rightarrow> a e | Inr x \<Rightarrow> b x)"
  by (cases z) simp_all

lemma dbInv_prod [db_intros]:
  "(\<And>x y. dbInv Q (a x y)) \<Longrightarrow> dbInv Q (case z of (x, y) \<Rightarrow> a x y)"
  by (cases z) simp

lemma dbInv_Let [db_intros]: "dbInv Q (f x) \<Longrightarrow> dbInv Q (Let x f)"
  by (simp add: Let_def)

lemma dbInv_select [db_intros]: "dbInv Q (select f)"
  by (simp add: select_def dbInv_stmt)

lemma dbInv_selectOne [db_intros]: "dbInv Q (selectOne get p)"
  by (simp add: selectOne_def dbInv_stmt)

lemma dbInv_insertRow:
  "(\<And>t. Q t \<Longrightarrow> uniq (get t @ [r]) \<Longrightarrow> fk t \<Longrightarrow> Q (upd (\<lambda>rows. rows @ [r]) t)) \<Longrightarrow>
     dbInv Q (insertRow get upd uniq fk r)"
  unfolding insertRow_def by (rule dbInv_stmt) simp

lemma dbInv_updateRows:
  "(\<And>t. Q t \<Longrightarrow> uniq (updateWhere p f (get t)) \<Longrightarrow> Q (upd (updateWhere p f) t)) \<Longrightarrow>
     dbInv Q (updateRows get upd uniq p f)"
  unfolding updateRows_def by (rule dbInv_stmt) simp

lemma dbInv_updateReturning:
  "(\<And>t. Q t \<Longrightarrow> Q (upd (updateWhere p f) t)) \<Longrightarrow> dbInv Q (updateReturning get upd p f)"
  unfolding updateReturning_def by (rule dbInv_stmt) simp

lemma dbInv_deleteRows:
  "(\<And>t. Q t \<Longrightarrow> Q (upd (deleteWhere p) t)) \<Longrightarrow> dbInv Q (deleteRows get upd p)"
  unfolding deleteRows_def by (rule dbInv_stmt) simp

section \<open>Successful runs\<close>

lemma stmt_Inr:
  "stmt f s = (Inr x, s') \<longleftrightarrow>
     \<not> faultNow s \<and> (\<exists>t. f (db s) = (Inr x, t) \<and> s' = (tick s)\<lparr>db := t\<rparr>)"
  by (auto simp: stmt_def split: prod.splits)

lemma selectOne_Inr:
  "selectOne get p s = (Inr r, s') \<longleftrightarrow>
     \<not> faultNow s \<and> find p (get (db s)) = Some r \<and> s' = tick s"
  by (auto simp: selectOne_def stmt_Inr split: option.splits)

lemma select_Inr:
  "select f s = (Inr x, s') \<longleftrightarrow> \<not> faultNow s \<and> x = f (db s) \<and> s' = tick s"
  by (auto simp: select_def stmt_Inr)

lemma insertRow_Inr:
  "insertRow get upd uniq fk r s = (Inr x, s') \<longleftrightarrow>
     \<not> faultNow s \<and> uniq (get (db s) @ [r]) \<and> fk (db s) \<and>
     s' = (tick s)\<lparr>db := upd (\<lambda>rows. rows @ [r]) (db s)\<rparr>"
  by (auto simp: insertRow_def stmt_Inr)

lemma updateRows_Inr:
  "updateRows get upd uniq p f s = (Inr n, s') \<longleftrightarrow>
     \<not> faultNow s \<and> uniq (updateWhere p f (get (db s))) \<and> n = countWhere p (get (db s)) \<and>
     s' = (tick s)\<lparr>db := upd (updateWhere p f) (db s)\<rparr>"
  by (auto simp: updateRows_def stmt_Inr)

lemma updateReturning_Inr:
  "updateReturning get upd p f s = (Inr r, s') \<longleftrightarrow>
     \<not> faultNow s \<and> (\<exists>a. find p (get (db s)) = Some a \<and> r = f a) \<and>
     s' = (tick s)\<lparr>db := upd (updateWhere p f) (db s)\<rparr>"
  by (auto simp: updateReturning_def stmt_Inr split: option.splits)

lemma deleteRows_Inr:
  "deleteRows get upd p s = (Inr n, s') \<longleftrightarrow>
     \<not> faultNow s \<and> n = countWhere p (get (db s)) \<and>
     s' = (tick s)\<lparr>db := upd (deleteWhere p) (db s)\<rparr>"
  by (auto simp: deleteRows_def stmt_Inr)

lemma requireAffected_Inr: "requireAffected n s = (Inr x, s') \<longleftrightarrow> n \<noteq> 0 \<and> s' = s"
  by (auto simp: requireAffected_def ensure_def)

lemma now_Inr: "now s = (Inr x, s') \<longleftrightarrow> x = clock s \<and> s' = s"
  by (auto simp: now_def)

lemma veto_Inr: "veto v s = (Inr x, s') \<longleftrightarrow> v = None \<and> s' = s"
  by (auto simp: veto_def ret_def fail_def split: option.splits)

lemmas sql_success =
  selectOne_Inr select_Inr insertRow_Inr updateRows_Inr updateReturning_Inr deleteRows_Inr
  requireAffected_Inr now_Inr veto_Inr

text \<open>A transaction either commits the effect of its body or leaves the database as it was.\<close>

lemma transaction_Inl_db:
  "\<not> in_tx s \<Longrightarrow> transaction m s = (Inl e, s') \<Longrightarrow> db s' = db s \<and> \<not> in_tx s'"
  by (auto simp: transaction_def split: prod.splits sum.splits if_splits)

lemma transaction_Inr_run:
  assumes "\<not> in_tx s" and "transaction m s = (Inr x, s')"
  obtains u where "m ((tick s)\<lparr>in_tx := True\<rparr>) = (Inr x, u)" and "s' = (tick u)\<lparr>in_tx := False\<rparr>"
  using assms by (auto simp: transaction_def split: prod.splits sum.splits if_splits)

section \<open>What an operation leaves alone\<close>

text \<open>\<open>envKept m\<close>: the operation moves neither the clock nor the sources of randomness, leaves the
  transaction flag as it found it, and adds no fault to an empty schedule.\<close>

definition sameEnv :: "sys \<Rightarrow> sys \<Rightarrow> bool" where
  "sameEnv s s' \<longleftrightarrow> clock s' = clock s \<and> in_tx s' = in_tx s \<and> ids s' = ids s \<and>
     entropy s' = entropy s \<and> (faults s = [] \<longrightarrow> faults s' = [])"

definition envKept :: "(sys, 'a) oper \<Rightarrow> bool" where
  "envKept m \<longleftrightarrow> (\<forall>s. sameEnv s (snd (m s)))"

lemma sameEnv_refl [simp]: "sameEnv s s"
  by (simp add: sameEnv_def)

lemma sameEnv_trans: "sameEnv s t \<Longrightarrow> sameEnv t u \<Longrightarrow> sameEnv s u"
  by (simp add: sameEnv_def)

named_theorems env_intros

lemma envKeptD:
  assumes "envKept m" and "m s = (r, s')"
  shows "clock s' = clock s" "in_tx s' = in_tx s" "faults s = [] \<Longrightarrow> faults s' = []"
    "ids s' = ids s" "entropy s' = entropy s"
proof -
  have "sameEnv s s'" using assms unfolding envKept_def by (metis snd_conv)
  then show "clock s' = clock s" "in_tx s' = in_tx s" "faults s = [] \<Longrightarrow> faults s' = []"
    "ids s' = ids s" "entropy s' = entropy s" by (simp_all add: sameEnv_def)
qed

lemma env_tick [simp]:
  "ids (tick s) = ids s" "entropy (tick s) = entropy s" "next_id (tick s) = next_id s"
  "next_rand (tick s) = next_rand s" "audit (tick s) = audit s"
  "faults s = [] \<Longrightarrow> faults (tick s) = []"
  by (simp_all add: tick_def)

lemma tick_nofault [simp]: "faults s = [] \<Longrightarrow> tick s = s"
  by (simp add: tick_def)

lemma faultNow_nofault [simp]: "faults s = [] \<Longrightarrow> \<not> faultNow s"
  by (simp add: faultNow_def)

lemma env_stmt [env_intros]: "envKept (stmt f)"
  by (auto simp: envKept_def sameEnv_def stmt_def split: prod.splits)

lemma env_forms [env_intros]:
  "envKept (select g)" "envKept (selectOne get p)" "envKept (insertRow get upd uq fk r)"
  "envKept (updateRows get upd uq p f)" "envKept (updateReturning get upd p f)"
  "envKept (deleteRows get upd p)"
  unfolding select_def selectOne_def insertRow_def updateRows_def updateReturning_def deleteRows_def
  by (rule env_stmt)+

lemma env_basic [env_intros]:
  "envKept (ret x)" "envKept (fail e)" "envKept (ensure c e)" "envKept now" "envKept newUUID"
  "envKept NewToken" "envKept (emit nm u fs)" "envKept (runAfter nm u)"
  "envKept (requireAffected n)" "envKept (veto v)"
  by (simp_all add: envKept_def sameEnv_def oper_defs now_def newUUID_def NewToken_def emit_def runAfter_def
      requireAffected_def veto_def split: option.splits)

lemma env_caught [env_intros]:
  "envKept m \<Longrightarrow> (\<And>r. envKept (k r)) \<Longrightarrow> envKept (caught m k)"
  unfolding envKept_def caught_eq using sameEnv_trans by blast

lemma env_andThen [env_intros]:
  assumes m: "envKept m" and k: "\<And>x. envKept (k x)"
  shows "envKept (andThen m k)"
  unfolding envKept_def
proof
  fix s
  have ms: "sameEnv s (snd (m s))" using m unfolding envKept_def ..
  show "sameEnv s (snd (andThen m k s))"
  proof (cases "m s")
    case (Pair r t)
    show ?thesis
    proof (cases r)
      case (Inl e)
      then show ?thesis using ms Pair by (simp add: andThen_def)
    next
      case (Inr x)
      have "sameEnv t (snd (k x t))" using k unfolding envKept_def ..
      then show ?thesis using sameEnv_trans [OF ms] Pair Inr by (simp add: andThen_def)
    qed
  qed
qed

lemma snd_mapFail: "snd (mapFail f m s) = snd (m s)"
  by (simp add: mapFail_def split: prod.splits sum.splits)

lemma env_mapFail [env_intros]: "envKept m \<Longrightarrow> envKept (mapFail f m)"
  by (simp add: envKept_def snd_mapFail)

lemma env_ignoring [env_intros]: "envKept m \<Longrightarrow> envKept (ignoring m)"
  by (simp add: envKept_def ignoring_def)

lemma env_transaction [env_intros]:
  assumes "envKept m"
  shows "envKept (transaction m)"
  unfolding envKept_def
proof
  fix s
  have 1: "sameEnv s (snd (m s))"
    and 2: "sameEnv ((tick s)\<lparr>in_tx := True\<rparr>) (snd (m ((tick s)\<lparr>in_tx := True\<rparr>)))"
    using assms unfolding envKept_def by blast+
  obtain r t where mt: "m ((tick s)\<lparr>in_tx := True\<rparr>) = (r, t)" by fastforce
  show "sameEnv s (snd (transaction m s))"
    using 1 2 unfolding mt
    by (cases r) (auto simp: transaction_def sameEnv_def mt simp del: tick_nofault)
qed

lemma env_if [env_intros]: "envKept a \<Longrightarrow> envKept b \<Longrightarrow> envKept (if c then a else b)"
  by simp

lemma env_option [env_intros]:
  "envKept a \<Longrightarrow> (\<And>x. envKept (g x)) \<Longrightarrow> envKept (case z of None \<Rightarrow> a | Some x \<Rightarrow> g x)"
  by (cases z) simp_all

lemma env_sum [env_intros]:
  "(\<And>e. envKept (h e)) \<Longrightarrow> (\<And>x. envKept (g x)) \<Longrightarrow>
     envKept (case w of Inl e \<Rightarrow> h e | Inr x \<Rightarrow> g x)"
  by (cases w) simp_all

lemma env_prod [env_intros]:
  "(\<And>x y. envKept (q x y)) \<Longrightarrow> envKept (case pr of (x, y) \<Rightarrow> q x y)"
  by (cases pr) simp

lemma env_Let [env_intros]: "envKept (f v) \<Longrightarrow> envKept (Let v f)"
  by (simp add: Let_def)

text \<open>An operation that keeps every predicate of the database does not write.\<close>

lemma dbInvD:
  assumes "dbInv Q m" and "m s = (r, s')" and "Q (db s)"
  shows "Q (db s')"
  using keepsD' [OF assms(1) [unfolded dbInv_def] assms(3,2)] .

lemma dbInv_same:
  assumes "\<And>Q. dbInv Q m" and "m s = (r, s')"
  shows "db s' = db s"
  by (rule dbInvD [OF assms(1,2), where Q = "\<lambda>t. t = db s"]) simp

text \<open>An operation that keeps every predicate of a table leaves the table alone.\<close>

lemma dbInv_field_same:
  assumes "\<And>P. dbInv (\<lambda>t. P (f t)) m" and "m s = (r, s')"
  shows "f (db s') = f (db s)"
  by (rule dbInvD [OF assms(1) [of "\<lambda>x. x = f (db s)"] assms(2)]) simp

text \<open>A committed transaction is a run of its body on the same database, inside a transaction.\<close>

lemma transaction_InrE:
  assumes "transaction m s = (Inr x, s')"
  obtains a b where "m a = (Inr x, b)" "db a = db s" "clock a = clock s" "in_tx a" "db s' = db b"
    "next_id a = next_id s" "next_rand a = next_rand s" "ids a = ids s" "entropy a = entropy s"
    "audit a = audit s" "audit s' = audit b"
proof (cases "in_tx s")
  case True
  then show thesis using assms that [of s s'] by (simp add: transaction_def)
next
  case False
  obtain u where "m ((tick s)\<lparr>in_tx := True\<rparr>) = (Inr x, u)" and "s' = (tick u)\<lparr>in_tx := False\<rparr>"
    by (rule transaction_Inr_run [OF False assms])
  then show thesis using that [of "(tick s)\<lparr>in_tx := True\<rparr>" u] by simp
qed

section \<open>A concrete world\<close>

text \<open>A world without faults, for the evaluation of the model on concrete inputs.\<close>

definition world :: "tables \<Rightarrow> sys" where
  "world t = \<lparr>db = t, faults = [], in_tx = False, clock = 100,
     ids = (\<lambda>n. replicate (n + 1) CHR ''i''), next_id = 0,
     entropy = (\<lambda>n. Some (replicate (n + 1) CHR ''r'')), next_rand = 0,
     draws = map (\<lambda>n. replicate 10 n) [0..<20], audit = [], principals = None\<rparr>"

definition ann :: User where
  "ann = \<lparr>u_ID = ''u1'', u_Email = ''Ann@x.io'', u_EmailNormalized = ''ann@x.io'',
     u_EmailVerifiedAt = None, u_DisplayName = ''Ann'', u_ImageURL = [], u_CreatedAt = 1,
     u_UpdatedAt = 1, u_Role = [], u_DisabledAt = None, u_MustChangePassword = False\<rparr>"

lemma world_simps [simp]:
  "db (world t) = t" "faults (world t) = []" "in_tx (world t) = False" "clock (world t) = 100"
  by (simp_all add: world_def)

lemmas wf_eval = wfTables_def emptyTables_def okRows_def uniq_defs userIDs_def orgIDs_def teamIDs_def
  grantIDs_def refOpt_def

lemmas run_eval = world_def emptyTables_def oper_defs stmt_def faultNow_def tick_def

definition w_token :: Token where
  "w_token = \<lparr>tk_ID = ''t1'', tk_UserID = Some ''u1'', tk_Kind = ''mfa'', tk_Identifier = ''u1'',
     tk_TokenHash = ''h'', tk_CreatedAt = 50, tk_ExpiresAt = 500, tk_ConsumedAt = None\<rparr>"

definition w_tables :: tables where
  "w_tables = emptyTables\<lparr>users := [ann], tokens := [w_token],
     oauth_states := [\<lparr>os_ID = ''s1'', os_StateHash = ''h'', os_Provider = ''github'', os_Verifier = ''v'',
       os_Nonce = ''n'', os_RedirectTo = [], os_LinkUserID = None, os_CreatedAt = 50, os_ExpiresAt = 500,
       os_ConsumedAt = None\<rparr>],
     totps := [\<lparr>tp_UserID = ''u1'', tp_Secret = ''x'', tp_ConfirmedAt = Some 60, tp_LastStep = 3,
       tp_CreatedAt = 50, tp_UpdatedAt = 60\<rparr>],
     recovery := [\<lparr>rc_UserID = ''u1'', rc_CodeHash = ''c1''\<rparr>]\<rparr>"

lemma wf_w_tables: "wfTables w_tables"
  by (simp add: wf_eval w_tables_def w_token_def ann_def)

lemmas w_eval = w_tables_def w_token_def ann_def run_eval updateReturning_def updateRows_def deleteRows_def

end
