(* ===== verification/Store_Paging.thy ===== *)
theory Store_Paging
  imports Store_Sql
begin

text \<open>
  The cursors of \<open>internal/sqlstore/useradmin.go\<close> and \<open>organizations.go\<close> and the page of a keyset
  list. The theorems say that a cursor decodes to the key it was made from, and that following
  the cursors of a list returns every row exactly once, in key order.
\<close>

section \<open>Cursors\<close>

text \<open>\<open>encodeCursor\<close> and \<open>encodePairCursor\<close> are one function, and so are their decoders.\<close>

definition encodeCursor :: "string \<Rightarrow> string \<Rightarrow> string" where
  "encodeCursor email i = b64Encode (bytesOf (email @ [CHR 0x00] @ i))"

definition decodeCursor :: "string \<Rightarrow> (string \<times> string) res" where
  "decodeCursor v =
     (case b64Decode v of
        None \<Rightarrow> Inl ErrInvalidCursor
      | Some raw \<Rightarrow> (case Cut (stringOf raw) CHR 0x00 of
                      None \<Rightarrow> Inl ErrInvalidCursor
                    | Some p \<Rightarrow> Inr p))"

definition encodePairCursor :: "string \<Rightarrow> string \<Rightarrow> string" where
  "encodePairCursor first i = b64Encode (bytesOf (first @ [CHR 0x00] @ i))"

definition decodePairCursor :: "string \<Rightarrow> (string \<times> string) res" where
  "decodePairCursor v =
     (case b64Decode v of
        None \<Rightarrow> Inl ErrInvalidCursor
      | Some raw \<Rightarrow> (case Cut (stringOf raw) CHR 0x00 of
                      None \<Rightarrow> Inl ErrInvalidCursor
                    | Some p \<Rightarrow> Inr p))"

definition encodeSingleCursor :: "string \<Rightarrow> string" where
  "encodeSingleCursor i = b64Encode (bytesOf i)"

definition decodeSingleCursor :: "string \<Rightarrow> string res" where
  "decodeSingleCursor v =
     (case b64Decode v of None \<Rightarrow> Inl ErrInvalidCursor | Some raw \<Rightarrow> Inr (stringOf raw))"

lemma single_cursor_roundtrip: "decodeSingleCursor (encodeSingleCursor i) = Inr i"
  by (simp add: decodeSingleCursor_def encodeSingleCursor_def b64_roundtrip bytesOf_bound)

lemma pair_cursor_roundtrip:
  "CHR 0x00 \<notin> set a \<Longrightarrow> decodePairCursor (encodePairCursor a i) = Inr (a, i)"
  by (simp add: decodePairCursor_def encodePairCursor_def b64_roundtrip bytesOf_bound Cut_append)

lemma user_cursor_roundtrip:
  "CHR 0x00 \<notin> set a \<Longrightarrow> decodeCursor (encodeCursor a i) = Inr (a, i)"
  using pair_cursor_roundtrip [of a i]
  by (simp add: decodePairCursor_def encodePairCursor_def decodeCursor_def encodeCursor_def)

section \<open>Keyset pages\<close>

text \<open>The page of a keyset list: the rows after the key, in key order, and the cursor of the
  last one when a further row exists. The lists of \<open>organizations.go\<close> have the same shape.\<close>

definition pageRows :: "('r \<Rightarrow> 'k :: linorder) \<Rightarrow> nat \<Rightarrow> 'k option \<Rightarrow> 'r list \<Rightarrow> 'r list \<times> 'k option" where
  "pageRows k limit after rows =
     (let out = take (limit + 1)
                  (orderBy k (filter (\<lambda>r. case after of None \<Rightarrow> True | Some a \<Rightarrow> a < k r) rows))
      in if length out > limit then (take limit out, Some (k (out ! (limit - 1)))) else (out, None))"

text \<open>A client that follows the cursors until none is returned. The fuel bounds the number of
  pages.\<close>

fun walkPages :: "nat \<Rightarrow> ('r \<Rightarrow> 'k :: linorder) \<Rightarrow> nat \<Rightarrow> 'k option \<Rightarrow> 'r list \<Rightarrow> 'r list option" where
  "walkPages 0 k limit after rows = None"
| "walkPages (Suc n) k limit after rows =
     (case pageRows k limit after rows of
        (out, None) \<Rightarrow> Some out
      | (out, Some c) \<Rightarrow> map_option ((@) out) (walkPages n k limit (Some c) rows))"

definition afterKey :: "('r \<Rightarrow> 'k :: linorder) \<Rightarrow> 'k option \<Rightarrow> 'r list \<Rightarrow> 'r list" where
  "afterKey k after rows = orderBy k (filter (\<lambda>r. case after of None \<Rightarrow> True | Some a \<Rightarrow> a < k r) rows)"

lemma afterKey_sorted: "unique k rows \<Longrightarrow> sorted_wrt (\<lambda>a b. k a < k b) (afterKey k after rows)"
proof -
  assume u: "unique k rows"
  let ?l = "afterKey k after rows"
  have "sorted (map k ?l)" by (simp add: afterKey_def orderBy_def)
  moreover have "distinct (map k ?l)"
    using u by (simp add: afterKey_def orderBy_def distinct_map inj_on_def)
  ultimately have "sorted_wrt (<) (map k ?l)" by (simp add: strict_sorted_iff)
  then show ?thesis by (simp add: sorted_wrt_map)
qed

lemma afterKey_bound: "r \<in> set (afterKey k after rows) \<Longrightarrow> after = Some a \<Longrightarrow> a < k r"
  by (simp add: afterKey_def orderBy_def)

lemma afterKey_later:
  "(\<And>a. after = Some a \<Longrightarrow> a < d) \<Longrightarrow>
     set (afterKey k (Some d) rows) = {r \<in> set (afterKey k after rows). d < k r}"
  by (cases after) (auto simp: afterKey_def orderBy_def)

text \<open>The rows after the last key of a page are the rest of the list.\<close>

lemma afterKey_drop:
  assumes u: "unique k rows" and n: "0 < n" "n < length (afterKey k after rows)"
  shows "afterKey k (Some (k (afterKey k after rows ! (n - 1)))) rows = drop n (afterKey k after rows)"
proof -
  let ?l = "afterKey k after rows"
  let ?c = "k (?l ! (n - 1))"
  have s: "sorted_wrt (\<lambda>a b. k a < k b) ?l" by (rule afterKey_sorted [OF u])
  have lt: "k (?l ! i) < k (?l ! j) \<longleftrightarrow> i < j" if "i < length ?l" "j < length ?l" for i j
    using s that by (metis sorted_wrt_iff_nth_less linorder_neqE_nat less_asym less_irrefl)
  have s1: "set (drop n ?l) = {r \<in> set ?l. ?c < k r}"
  proof (intro set_eqI iffI)
    fix r assume "r \<in> set (drop n ?l)"
    then obtain i where "i < length (drop n ?l)" "r = drop n ?l ! i"
      by (metis in_set_conv_nth)
    then have "n + i < length ?l" "r = ?l ! (n + i)" using n by simp_all
    then show "r \<in> {r \<in> set ?l. ?c < k r}" using lt [of "n - 1" "n + i"] n by simp
  next
    fix r assume "r \<in> {r \<in> set ?l. ?c < k r}"
    then obtain i where i: "i < length ?l" "r = ?l ! i" "?c < k (?l ! i)"
      by (auto simp: in_set_conv_nth)
    have "n - 1 < length ?l" using n by simp
    then have "n - 1 < i" using lt [of "n - 1" i] i by simp
    then have "n \<le> i" by simp
    then show "r \<in> set (drop n ?l)" using i by (auto simp: in_set_conv_nth intro!: exI [of _ "i - n"])
  qed
  have s2: "set (afterKey k (Some ?c) rows) = {r \<in> set ?l. ?c < k r}"
  proof -
    have "?l ! (n - 1) \<in> set ?l" using n by simp
    then show ?thesis by (intro afterKey_later) (rule afterKey_bound)
  qed
  have "sorted_wrt (\<lambda>a b. k a < k b) (drop n ?l)" using s by (rule sorted_wrt_drop)
  then have d1: "sorted_wrt (<) (map k (drop n ?l))" by (simp only: sorted_wrt_map)
  have d2: "sorted_wrt (<) (map k (afterKey k (Some ?c) rows))"
    using afterKey_sorted [OF u] by (simp only: sorted_wrt_map)
  have "set (map k (drop n ?l)) = set (map k (afterKey k (Some ?c) rows))"
    by (simp only: set_map s1 s2)
  then have eq: "map k (afterKey k (Some ?c) rows) = map k (drop n ?l)"
    using strict_sorted_equal [OF d1 d2] by simp
  have "inj_on k (set rows)" using u by (simp add: distinct_map)
  moreover have "set (afterKey k (Some ?c) rows) \<union> set (drop n ?l) \<subseteq> set rows"
    by (auto simp: afterKey_def orderBy_def dest!: in_set_dropD)
  ultimately have "inj_on k (set (afterKey k (Some ?c) rows) \<union> set (drop n ?l))"
    by (rule inj_on_subset)
  then show ?thesis using eq by (rule inj_on_map_eq_map [THEN iffD1])
qed

lemma pageRows_eq:
  "0 < limit \<Longrightarrow> pageRows k limit after rows =
     (if length (afterKey k after rows) > limit
      then (take limit (afterKey k after rows), Some (k (afterKey k after rows ! (limit - 1))))
      else (afterKey k after rows, None))"
  by (auto simp: pageRows_def Let_def afterKey_def min_def)

lemma pageRows_cursor:
  assumes "pageRows k limit after rows = (out, Some c)" and l: "0 < limit"
  shows "\<exists>r \<in> set rows. c = k r"
proof -
  let ?l = "afterKey k after rows"
  have "limit < length ?l" and c: "c = k (?l ! (limit - 1))"
    using assms(1) unfolding pageRows_eq [OF l] by (auto split: if_splits)
  then have "?l ! (limit - 1) \<in> set ?l" by simp
  moreover have "set ?l \<subseteq> set rows" by (auto simp: afterKey_def orderBy_def)
  ultimately show ?thesis using c by blast
qed

lemma walkPages_complete:
  assumes u: "unique k rows" and l: "0 < limit" and n: "length (afterKey k after rows) < n"
  shows "walkPages n k limit after rows = Some (afterKey k after rows)"
  using n
proof (induction n arbitrary: after)
  case (Suc n)
  let ?l = "afterKey k after rows"
  note pg = pageRows_eq [OF l, of k after rows]
  show ?case
  proof (cases "length ?l > limit")
    case True
    let ?c = "k (?l ! (limit - 1))"
    have d: "afterKey k (Some ?c) rows = drop limit ?l" by (rule afterKey_drop [OF u l True])
    have "walkPages n k limit (Some ?c) rows = Some (drop limit ?l)"
      using Suc.IH [of "Some ?c"] Suc.prems l True unfolding d by simp
    then show ?thesis using pg True by simp
  qed (simp add: pg)
qed simp

end
