(* ===== verification/Store_Core.thy ===== *)
theory Store_Core
  imports Store_Paging
begin

text \<open>
  The core tables of the SQL adapter: \<open>internal/sqlstore/users.go\<close>, \<open>accounts.go\<close>, \<open>sessions.go\<close>,
  \<open>tokens.go\<close>, \<open>oauth.go\<close>, \<open>totp.go\<close>, \<open>ratelimit.go\<close>, \<open>useradmin.go\<close> and \<open>apikeys.go\<close>. One definition
  per method, one statement form per SQL statement. \<open>core_ops_preserve\<close> at the end says that
  every operation keeps the constraints of the schema.
\<close>

section \<open>Users and credentials\<close>

definition Users_Create :: "User \<Rightarrow> (sys, unit) oper" where
  "Users_Create m = insertRow users users_update uniqUsers (\<lambda>t. True) m"

definition Users_GetByID :: "string \<Rightarrow> (sys, User) oper" where
  "Users_GetByID i = selectOne users (\<lambda>u. u_ID u = i)"

definition Users_GetByNormalizedEmail :: "string \<Rightarrow> (sys, User) oper" where
  "Users_GetByNormalizedEmail n = selectOne users (\<lambda>u. u_EmailNormalized u = n)"

text \<open>\<open>Update\<close> writes every column of the value except the identifier and the creation time.\<close>

definition userUpdateOf :: "User \<Rightarrow> User \<Rightarrow> User" where
  "userUpdateOf m u =
     u\<lparr>u_Email := u_Email m, u_EmailNormalized := u_EmailNormalized m,
       u_EmailVerifiedAt := u_EmailVerifiedAt m, u_DisplayName := u_DisplayName m,
       u_ImageURL := u_ImageURL m, u_UpdatedAt := u_UpdatedAt m, u_Role := u_Role m,
       u_DisabledAt := u_DisabledAt m, u_MustChangePassword := u_MustChangePassword m\<rparr>"

definition Users_Update :: "User \<Rightarrow> (sys, unit) oper" where
  "Users_Update m =
     andThen (updateRows users users_update uniqUsers (\<lambda>u. u_ID u = u_ID m) (userUpdateOf m))
       requireAffected"

text \<open>DELETE of a user with the ON DELETE clauses of the schema.\<close>

definition goneOpt :: "(string \<Rightarrow> bool) \<Rightarrow> string option \<Rightarrow> bool" where
  "goneOpt gone x = (case x of None \<Rightarrow> False | Some u \<Rightarrow> gone u)"

definition grantGone :: "(string \<Rightarrow> bool) \<Rightarrow> tables \<Rightarrow> string \<Rightarrow> bool" where
  "grantGone gone t g \<longleftrightarrow>
     (\<exists>r \<in> set (op_grants t). gr_ID r = g \<and> goneOpt gone (gr_UserID r))"

definition cascadeUser :: "(string \<Rightarrow> bool) \<Rightarrow> tables \<Rightarrow> tables" where
  "cascadeUser gone t =
     t\<lparr>users := deleteWhere (\<lambda>u. gone (u_ID u)) (users t),
       credentials := deleteWhere (\<lambda>c. gone (cr_UserID c)) (credentials t),
       accounts := deleteWhere (\<lambda>a. gone (ac_UserID a)) (accounts t),
       sessions := deleteWhere (\<lambda>s. gone (se_UserID s)) (sessions t),
       tokens := deleteWhere (\<lambda>k. goneOpt gone (tk_UserID k)) (tokens t),
       totps := deleteWhere (\<lambda>p. gone (tp_UserID p)) (totps t),
       recovery := deleteWhere (\<lambda>r. gone (rc_UserID r)) (recovery t),
       api_keys := deleteWhere (\<lambda>k. gone (ak_UserID k)) (api_keys t),
       members := deleteWhere (\<lambda>m. gone (mb_UserID m)) (members t),
       team_members := deleteWhere (\<lambda>p. gone (snd p)) (team_members t),
       op_clients := updateWhere (\<lambda>c. goneOpt gone (oc_OwnerUserID c))
                       (\<lambda>c. c\<lparr>oc_OwnerUserID := None\<rparr>) (op_clients t),
       op_codes := deleteWhere (\<lambda>c. grantGone gone t (co_GrantID c)) (op_codes t),
       op_access := deleteWhere (\<lambda>a. grantGone gone t (at_GrantID a)) (op_access t),
       op_refresh := deleteWhere (\<lambda>r. grantGone gone t (rt_GrantID r)) (op_refresh t),
       op_grants := deleteWhere (\<lambda>g. goneOpt gone (gr_UserID g)) (op_grants t),
       op_consents := deleteWhere (\<lambda>c. gone (cs_UserID c)) (op_consents t)\<rparr>"

definition Users_Delete :: "string \<Rightarrow> (sys, unit) oper" where
  "Users_Delete i =
     andThen (stmt (\<lambda>t. (Inr (countWhere (\<lambda>u. u_ID u = i) (users t)), cascadeUser (\<lambda>x. x = i) t)))
       requireAffected"

definition Users_GetCredential :: "string \<Rightarrow> (sys, Credential) oper" where
  "Users_GetCredential u = selectOne credentials (\<lambda>c. cr_UserID c = u)"

definition Users_SetCredential :: "Credential \<Rightarrow> (sys, unit) oper" where
  "Users_SetCredential c =
     andThen (updateRows credentials credentials_update anyRows (\<lambda>r. cr_UserID r = cr_UserID c)
                (\<lambda>r. r\<lparr>cr_PasswordHash := cr_PasswordHash c, cr_UpdatedAt := cr_UpdatedAt c\<rparr>))
       (\<lambda>n. if n > 0 then ret ()
            else insertRow credentials credentials_update (unique cr_UserID)
                   (\<lambda>t. cr_UserID c \<in> userIDs (users t)) c)"

definition Users_DeleteCredential :: "string \<Rightarrow> (sys, unit) oper" where
  "Users_DeleteCredential u =
     andThen (deleteRows credentials credentials_update (\<lambda>c. cr_UserID c = u)) requireAffected"

section \<open>Accounts\<close>

definition Accounts_Create :: "Account \<Rightarrow> (sys, unit) oper" where
  "Accounts_Create m =
     insertRow accounts accounts_update uniqAccounts (\<lambda>t. ac_UserID m \<in> userIDs (users t)) m"

definition Accounts_GetByProviderAccount :: "string \<Rightarrow> string \<Rightarrow> (sys, Account) oper" where
  "Accounts_GetByProviderAccount p pid =
     selectOne accounts (\<lambda>a. ac_Provider a = p \<and> ac_ProviderAccountID a = pid)"

definition Accounts_ListByUser :: "string \<Rightarrow> (sys, Account list) oper" where
  "Accounts_ListByUser u =
     select (\<lambda>t. orderBy ac_Provider (filter (\<lambda>a. ac_UserID a = u) (accounts t)))"

definition Accounts_Delete :: "string \<Rightarrow> string \<Rightarrow> (sys, unit) oper" where
  "Accounts_Delete u p =
     andThen (deleteRows accounts accounts_update (\<lambda>a. ac_UserID a = u \<and> ac_Provider a = p))
       requireAffected"

section \<open>Sessions\<close>

text \<open>The insert names the core columns only, so the active organization starts as null.\<close>

definition Sessions_Create :: "Session \<Rightarrow> (sys, unit) oper" where
  "Sessions_Create m =
     insertRow sessions sessions_update uniqSessions (\<lambda>t. se_UserID m \<in> userIDs (users t))
       (m\<lparr>se_ActiveOrgID := None\<rparr>)"

definition Sessions_GetByTokenHash :: "string \<Rightarrow> (sys, Session) oper" where
  "Sessions_GetByTokenHash h = selectOne sessions (\<lambda>s. se_TokenHash s = h)"

definition Sessions_ListByUser :: "string \<Rightarrow> (sys, Session list) oper" where
  "Sessions_ListByUser u =
     select (\<lambda>t. orderByDesc (\<lambda>s. (se_CreatedAt s, se_ID s))
                   (filter (\<lambda>s. se_UserID s = u) (sessions t)))"

definition Sessions_Touch :: "string \<Rightarrow> time \<Rightarrow> (sys, unit) oper" where
  "Sessions_Touch i at =
     andThen (updateRows sessions sessions_update anyRows (\<lambda>s. se_ID s = i)
                (\<lambda>s. s\<lparr>se_LastSeenAt := at\<rparr>))
       requireAffected"

definition Sessions_Delete :: "string \<Rightarrow> (sys, unit) oper" where
  "Sessions_Delete i =
     andThen (deleteRows sessions sessions_update (\<lambda>s. se_ID s = i)) requireAffected"

definition Sessions_DeleteByUser :: "string \<Rightarrow> (sys, nat) oper" where
  "Sessions_DeleteByUser u = deleteRows sessions sessions_update (\<lambda>s. se_UserID s = u)"

definition Sessions_DeleteExpired :: "time \<Rightarrow> (sys, nat) oper" where
  "Sessions_DeleteExpired before =
     deleteRows sessions sessions_update (\<lambda>s. se_ExpiresAt s \<le> before)"

definition SessionWithUser :: "string \<Rightarrow> (sys, Session \<times> User) oper" where
  "SessionWithUser h =
     stmt (\<lambda>t. (case find (\<lambda>s. se_TokenHash s = h \<and> se_UserID s \<in> userIDs (users t)) (sessions t) of
                  None \<Rightarrow> Inl ErrNotFound
                | Some s \<Rightarrow>
                    (case find (\<lambda>u. u_ID u = se_UserID s) (users t) of
                       None \<Rightarrow> Inl ErrNotFound
                     | Some u \<Rightarrow> Inr (s, u)), t))"

definition DeleteSessionsExcept :: "string \<Rightarrow> (sys, nat) oper" where
  "DeleteSessionsExcept i =
     stmt (\<lambda>t. let other = (\<lambda>s. se_ID s \<noteq> i \<and>
                               (case find (\<lambda>x. se_ID x = i) (sessions t) of
                                  None \<Rightarrow> False | Some x \<Rightarrow> se_UserID s = se_UserID x))
               in (Inr (countWhere other (sessions t)), sessions_update (deleteWhere other) t))"

section \<open>One-time tokens and OAuth states\<close>

definition Tokens_Create :: "Token \<Rightarrow> (sys, unit) oper" where
  "Tokens_Create m =
     insertRow tokens tokens_update uniqTokens
       (\<lambda>t. refOpt (tk_UserID m) (userIDs (users t))) m"

definition Tokens_Consume :: "string \<Rightarrow> string \<Rightarrow> time \<Rightarrow> (sys, Token) oper" where
  "Tokens_Consume kind h at =
     updateReturning tokens tokens_update
       (\<lambda>k. tk_Kind k = kind \<and> tk_TokenHash k = h \<and> tk_ConsumedAt k = None \<and> tk_ExpiresAt k > at)
       (\<lambda>k. k\<lparr>tk_ConsumedAt := Some at\<rparr>)"

definition Tokens_Get :: "string \<Rightarrow> string \<Rightarrow> (sys, Token) oper" where
  "Tokens_Get kind h = selectOne tokens (\<lambda>k. tk_Kind k = kind \<and> tk_TokenHash k = h)"

definition Tokens_DeleteByIdentifier :: "string \<Rightarrow> string \<Rightarrow> (sys, unit) oper" where
  "Tokens_DeleteByIdentifier kind ident =
     andThen (deleteRows tokens tokens_update (\<lambda>k. tk_Kind k = kind \<and> tk_Identifier k = ident))
       (\<lambda>_. ret ())"

definition Tokens_DeleteExpired :: "time \<Rightarrow> (sys, nat) oper" where
  "Tokens_DeleteExpired before = deleteRows tokens tokens_update (\<lambda>k. tk_ExpiresAt k \<le> before)"

definition OAuthStates_Create :: "OAuthState \<Rightarrow> (sys, unit) oper" where
  "OAuthStates_Create m = insertRow oauth_states oauth_states_update uniqStates (\<lambda>t. True) m"

definition OAuthStates_Consume :: "string \<Rightarrow> time \<Rightarrow> (sys, OAuthState) oper" where
  "OAuthStates_Consume h at =
     updateReturning oauth_states oauth_states_update
       (\<lambda>k. os_StateHash k = h \<and> os_ConsumedAt k = None \<and> os_ExpiresAt k > at)
       (\<lambda>k. k\<lparr>os_ConsumedAt := Some at\<rparr>)"

definition OAuthStates_DeleteExpired :: "time \<Rightarrow> (sys, nat) oper" where
  "OAuthStates_DeleteExpired before =
     deleteRows oauth_states oauth_states_update (\<lambda>k. os_ExpiresAt k \<le> before)"

section \<open>TOTP and recovery codes\<close>

definition TOTP_Get :: "string \<Rightarrow> (sys, TOTP) oper" where
  "TOTP_Get u = selectOne totps (\<lambda>p. tp_UserID p = u)"

definition TOTP_Upsert :: "TOTP \<Rightarrow> (sys, unit) oper" where
  "TOTP_Upsert m =
     andThen (updateRows totps totps_update anyRows (\<lambda>p. tp_UserID p = tp_UserID m)
                (\<lambda>p. p\<lparr>tp_Secret := tp_Secret m, tp_ConfirmedAt := None, tp_LastStep := 0,
                       tp_UpdatedAt := tp_UpdatedAt m\<rparr>))
       (\<lambda>n. if n > 0 then ret ()
            else insertRow totps totps_update (unique tp_UserID) (\<lambda>t. tp_UserID m \<in> userIDs (users t))
                   (m\<lparr>tp_ConfirmedAt := None, tp_LastStep := 0\<rparr>))"

definition TOTP_Confirm :: "string \<Rightarrow> time \<Rightarrow> (sys, unit) oper" where
  "TOTP_Confirm u at =
     andThen (updateRows totps totps_update anyRows (\<lambda>p. tp_UserID p = u)
                (\<lambda>p. p\<lparr>tp_ConfirmedAt := Some at, tp_UpdatedAt := at\<rparr>))
       requireAffected"

definition TOTP_AdvanceStep :: "string \<Rightarrow> int \<Rightarrow> (sys, bool) oper" where
  "TOTP_AdvanceStep u step =
     andThen (updateRows totps totps_update anyRows (\<lambda>p. tp_UserID p = u \<and> tp_LastStep p < step)
                (\<lambda>p. p\<lparr>tp_LastStep := step\<rparr>))
       (\<lambda>n. if n > 0 then ret True else andThen (TOTP_Get u) (\<lambda>_. ret False))"

definition TOTP_Delete :: "string \<Rightarrow> (sys, unit) oper" where
  "TOTP_Delete u =
     andThen (deleteRows totps totps_update (\<lambda>p. tp_UserID p = u)) requireAffected"

fun insertCodes :: "string \<Rightarrow> string list \<Rightarrow> (sys, unit) oper" where
  "insertCodes u [] = ret ()"
| "insertCodes u (h # hs) =
     andThen (insertRow recovery recovery_update (unique rc_CodeHash) (\<lambda>t. u \<in> userIDs (users t))
                \<lparr>rc_UserID = u, rc_CodeHash = h\<rparr>)
       (\<lambda>_. insertCodes u hs)"

definition Recovery_ReplaceAll :: "string \<Rightarrow> string list \<Rightarrow> (sys, unit) oper" where
  "Recovery_ReplaceAll u hashes =
     transaction
       (andThen (deleteRows recovery recovery_update (\<lambda>r. rc_UserID r = u))
          (\<lambda>_. insertCodes u hashes))"

definition Recovery_Consume :: "string \<Rightarrow> string \<Rightarrow> (sys, bool) oper" where
  "Recovery_Consume u h =
     andThen (deleteRows recovery recovery_update (\<lambda>r. rc_UserID r = u \<and> rc_CodeHash r = h))
       (\<lambda>n. ret (n > 0))"

definition Recovery_CountByUser :: "string \<Rightarrow> (sys, nat) oper" where
  "Recovery_CountByUser u = select (\<lambda>t. countWhere (\<lambda>r. rc_UserID r = u) (recovery t))"

definition Recovery_DeleteByUser :: "string \<Rightarrow> (sys, nat) oper" where
  "Recovery_DeleteByUser u = deleteRows recovery recovery_update (\<lambda>r. rc_UserID r = u)"

section \<open>Rate limit counters\<close>

definition CountAttempt :: "string \<Rightarrow> duration \<Rightarrow> time \<Rightarrow> (sys, int \<times> time) oper" where
  "CountAttempt key window at =
     stmt (\<lambda>t. case find (\<lambda>r. rl_Key r = key) (rate_limits t) of
                 None \<Rightarrow> (Inr (1, at),
                          rate_limits_update (\<lambda>rows. rows @ [\<lparr>rl_Key = key, rl_WindowStart = at, rl_Count = 1\<rparr>]) t)
               | Some r \<Rightarrow>
                   let cutoff = at - window;
                       r' = r\<lparr>rl_Count := (if rl_WindowStart r \<le> cutoff then 1 else rl_Count r + 1),
                              rl_WindowStart := (if rl_WindowStart r \<le> cutoff then at else rl_WindowStart r)\<rparr>
                   in (Inr (rl_Count r', rl_WindowStart r'),
                       rate_limits_update (updateWhere (\<lambda>x. rl_Key x = key) (\<lambda>x. r')) t))"

definition CleanupRateLimits :: "time \<Rightarrow> (sys, nat) oper" where
  "CleanupRateLimits before =
     deleteRows rate_limits rate_limits_update (\<lambda>r. rl_WindowStart r \<le> before)"

section \<open>The administrative list\<close>

record UserListFilter =
  uf_EmailPrefix :: string
  uf_Role :: "string option"
  uf_Disabled :: "bool option"
  uf_Limit :: int
  uf_Cursor :: string

definition maxUserPage :: int where "maxUserPage = 200"

text \<open>\<open>escapeLike\<close>, and the LIKE of an engine that has the backslash as its escape character
  (PostgreSQL). The pattern that \<open>ListUsers\<close> builds is the escaped prefix and one percent sign.\<close>

definition escapeLike :: "string \<Rightarrow> string" where
  "escapeLike v =
     concat (map (\<lambda>c. if c = CHR 0x5C \<or> c = CHR ''%'' \<or> c = CHR ''_'' then [CHR 0x5C, c] else [c]) v)"

fun like :: "char option \<Rightarrow> string \<Rightarrow> string \<Rightarrow> bool" where
  "like esc [] s = (s = [])"
| "like esc (p # ps) s =
     (if Some p = esc then
        (case ps of
           [] \<Rightarrow> False
         | q # qs \<Rightarrow> (case s of [] \<Rightarrow> False | x # xs \<Rightarrow> x = q \<and> like esc qs xs))
      else if p = CHR ''%'' then
        like esc ps s \<or> (case s of [] \<Rightarrow> False | x # xs \<Rightarrow> like esc (p # ps) xs)
      else if p = CHR ''_'' then (case s of [] \<Rightarrow> False | x # xs \<Rightarrow> like esc ps xs)
      else (case s of [] \<Rightarrow> False | x # xs \<Rightarrow> x = p \<and> like esc ps xs))"

definition userFilter :: "char option \<Rightarrow> UserListFilter \<Rightarrow> User \<Rightarrow> bool" where
  "userFilter esc f u \<longleftrightarrow>
     (uf_EmailPrefix f \<noteq> [] \<longrightarrow>
        like esc (escapeLike (ToLower (uf_EmailPrefix f)) @ ''%'') (u_EmailNormalized u)) \<and>
     (case uf_Role f of None \<Rightarrow> True | Some r \<Rightarrow> u_Role u = r) \<and>
     (case uf_Disabled f of None \<Rightarrow> True | Some d \<Rightarrow> (u_DisabledAt u \<noteq> None) = d)"

definition userKey :: "User \<Rightarrow> string \<times> string" where
  "userKey u = (u_EmailNormalized u, u_ID u)"

definition userLimit :: "int \<Rightarrow> int" where
  "userLimit l =
     (let l1 = (if l < 1 then 50 else l) in if l1 > maxUserPage then maxUserPage else l1)"

definition ListUsers :: "char option \<Rightarrow> UserListFilter \<Rightarrow> (sys, User list \<times> string) oper" where
  "ListUsers esc f =
     (let limit = nat (userLimit (uf_Limit f));
          page = (\<lambda>after. select (\<lambda>t.
                    case pageRows userKey limit after (filter (userFilter esc f) (users t)) of
                      (out, None) \<Rightarrow> (out, [])
                    | (out, Some (e, i)) \<Rightarrow> (out, encodeCursor e i)))
      in if uf_Cursor f = [] then page None
         else case decodeCursor (uf_Cursor f) of
                Inl e \<Rightarrow> fail e
              | Inr key \<Rightarrow> page (Some key))"

definition LockEnabledUsersWithRole :: "string \<Rightarrow> (sys, string list) oper" where
  "LockEnabledUsersWithRole role =
     select (\<lambda>t. map u_ID (filter (\<lambda>u. u_Role u = role \<and> u_DisabledAt u = None) (users t)))"

section \<open>API keys\<close>

definition CreateAPIKey :: "APIKey \<Rightarrow> (sys, unit) oper" where
  "CreateAPIKey k = insertRow api_keys api_keys_update uniqKeys (\<lambda>t. ak_UserID k \<in> userIDs (users t)) k"

definition APIKeyByHash :: "string \<Rightarrow> (sys, APIKey \<times> User) oper" where
  "APIKeyByHash h =
     stmt (\<lambda>t. (case find (\<lambda>k. ak_KeyHash k = h \<and> ak_UserID k \<in> userIDs (users t)) (api_keys t) of
                  None \<Rightarrow> Inl ErrNotFound
                | Some k \<Rightarrow>
                    (case find (\<lambda>u. u_ID u = ak_UserID k) (users t) of
                       None \<Rightarrow> Inl ErrNotFound
                     | Some u \<Rightarrow> Inr (k, u)), t))"

definition APIKeyByID :: "string \<Rightarrow> (sys, APIKey) oper" where
  "APIKeyByID i = selectOne api_keys (\<lambda>k. ak_ID k = i)"

definition ListAPIKeys :: "string \<Rightarrow> (sys, APIKey list) oper" where
  "ListAPIKeys u =
     select (\<lambda>t. orderByDesc (\<lambda>k. (ak_CreatedAt k, ak_ID k))
                   (filter (\<lambda>k. ak_UserID k = u) (api_keys t)))"

definition RevokeAPIKey :: "string \<Rightarrow> string \<Rightarrow> time \<Rightarrow> (sys, unit) oper" where
  "RevokeAPIKey i byUser at =
     andThen (updateRows api_keys api_keys_update anyRows
                (\<lambda>k. ak_ID k = i \<and> ak_RevokedAt k = None)
                (\<lambda>k. k\<lparr>ak_RevokedAt := Some at, ak_RevokedBy := Some byUser\<rparr>))
       requireAffected"

definition TouchAPIKey :: "string \<Rightarrow> time \<Rightarrow> (sys, unit) oper" where
  "TouchAPIKey i at =
     andThen (updateRows api_keys api_keys_update anyRows (\<lambda>k. ak_ID k = i)
                (\<lambda>k. k\<lparr>ak_LastUsedAt := Some at\<rparr>))
       (\<lambda>_. ret ())"

section \<open>Every operation keeps the constraints of the schema\<close>

lemma userIDs_append: "userIDs (rows @ [r]) = insert (u_ID r) (userIDs rows)"
  by (auto simp: userIDs_def)

lemma refOpt_mono: "refOpt x S \<Longrightarrow> S \<subseteq> S' \<Longrightarrow> refOpt x S'"
  by (auto simp: refOpt_def split: option.splits)

lemma wf_insert_user:
  "wfTables t \<Longrightarrow> uniqUsers (users t @ [m]) \<Longrightarrow> wfTables (users_update (\<lambda>rows. rows @ [m]) t)"
  apply (simp add: wfTables_def userIDs_append)
  apply (elim conjE)
  apply (intro conjI; erule okRows_mono; auto simp: refOpt_def split: option.splits)
  done

lemma wf_Users_Create [db_intros]: "dbInv wfTables (Users_Create m)"
  unfolding Users_Create_def
  by (rule dbInv_insertRow) (rule wf_insert_user)

lemma userIDs_userUpdate [simp]: "userIDs (updateWhere p (userUpdateOf m) rows) = userIDs rows"
  by (simp add: userIDs_def image_updateWhere userUpdateOf_def)

lemma wf_Users_Update [db_intros]: "dbInv wfTables (Users_Update m)"
  unfolding Users_Update_def
  by (intro db_intros dbInv_updateRows) (simp add: wfTables_def)

lemma userIDs_delete: "userIDs (deleteWhere (\<lambda>u. gone (u_ID u)) rows) = userIDs rows - {x. gone x}"
  by (auto simp: userIDs_def)

lemma grantIDs_delete:
  assumes "okRows (unique gr_ID) f (op_grants t)"
  shows "grantIDs (deleteWhere (\<lambda>g. goneOpt gone (gr_UserID g)) (op_grants t))
     = grantIDs (op_grants t) - {g. grantGone gone t g}"
  using assms
  by (auto simp: okRows_def grantIDs_def grantGone_def distinct_map inj_on_def)

lemma clients_set_null:
  "okRows uniqClients (\<lambda>r. refOpt (oc_OwnerUserID r) S) rows \<Longrightarrow>
   okRows uniqClients (\<lambda>r. refOpt (oc_OwnerUserID r) (S - {x. gone x}))
     (updateWhere (\<lambda>c. goneOpt gone (oc_OwnerUserID c)) (\<lambda>c. c\<lparr>oc_OwnerUserID := None\<rparr>) rows)"
  by (auto simp: okRows_def uniqClients_def set_updateWhere refOpt_def goneOpt_def
      split: option.splits)

lemma refOpt_goneOpt: "refOpt x S \<Longrightarrow> \<not> goneOpt gone x \<Longrightarrow> refOpt x (S - {y. gone y})"
  by (auto simp: refOpt_def goneOpt_def split: option.splits)

lemma hereditary_distinct [simp]: "hereditary distinct"
  using hereditary_unique [of "\<lambda>r. r"] by simp

lemma wf_cascadeUser: "wfTables t \<Longrightarrow> wfTables (cascadeUser gone t)"
  apply (simp add: wfTables_def cascadeUser_def userIDs_delete hereditaryD clients_set_null
      grantIDs_delete [of "\<lambda>r. refOpt (gr_UserID r) (userIDs (users t))"])
  apply (elim conjE)
  apply (intro conjI; erule okRows_cascade [rotated]; simp add: refOpt_goneOpt)
  done

lemma wf_Users_Delete [db_intros]: "dbInv wfTables (Users_Delete i)"
  unfolding Users_Delete_def
  by (intro db_intros dbInv_stmt) (simp add: wf_cascadeUser)

text \<open>The statements on one table whose foreign keys point elsewhere.\<close>

lemma wf_core_simple [db_intros]:
  "dbInv wfTables (Users_GetByID i)" "dbInv wfTables (Users_GetByNormalizedEmail n)"
  "dbInv wfTables (Users_GetCredential u)" "dbInv wfTables (Accounts_GetByProviderAccount p pid)"
  "dbInv wfTables (Accounts_ListByUser u)" "dbInv wfTables (Sessions_GetByTokenHash h)"
  "dbInv wfTables (Sessions_ListByUser u)" "dbInv wfTables (Tokens_Get kd h)"
  "dbInv wfTables (TOTP_Get u)" "dbInv wfTables (Recovery_CountByUser u)"
  "dbInv wfTables (LockEnabledUsersWithRole role)" "dbInv wfTables (APIKeyByID i)"
  "dbInv wfTables (ListAPIKeys u)"
  unfolding Users_GetByID_def Users_GetByNormalizedEmail_def Users_GetCredential_def
    Accounts_GetByProviderAccount_def Accounts_ListByUser_def Sessions_GetByTokenHash_def
    Sessions_ListByUser_def Tokens_Get_def TOTP_Get_def Recovery_CountByUser_def
    LockEnabledUsersWithRole_def APIKeyByID_def ListAPIKeys_def
  by (rule db_intros)+

lemma wf_ListUsers [db_intros]: "dbInv wfTables (ListUsers esc f)"
  unfolding ListUsers_def by (intro db_intros)

lemma wf_SessionWithUser [db_intros]:
  "dbInv wfTables (SessionWithUser h)" "dbInv wfTables (APIKeyByHash h)"
  unfolding SessionWithUser_def APIKeyByHash_def by (rule dbInv_stmt, simp)+

lemma wf_core_deletes [db_intros]:
  "dbInv wfTables (Users_DeleteCredential u)" "dbInv wfTables (Accounts_Delete u p)"
  "dbInv wfTables (Sessions_Delete i)" "dbInv wfTables (Sessions_DeleteByUser u)"
  "dbInv wfTables (Sessions_DeleteExpired b)" "dbInv wfTables (Tokens_DeleteByIdentifier kd idt)"
  "dbInv wfTables (Tokens_DeleteExpired b)" "dbInv wfTables (OAuthStates_DeleteExpired b)"
  "dbInv wfTables (TOTP_Delete u)" "dbInv wfTables (Recovery_Consume u h)"
  "dbInv wfTables (Recovery_DeleteByUser u)" "dbInv wfTables (CleanupRateLimits b)"
  unfolding Users_DeleteCredential_def Accounts_Delete_def Sessions_Delete_def
    Sessions_DeleteByUser_def Sessions_DeleteExpired_def Tokens_DeleteByIdentifier_def
    Tokens_DeleteExpired_def OAuthStates_DeleteExpired_def TOTP_Delete_def Recovery_Consume_def
    Recovery_DeleteByUser_def CleanupRateLimits_def
  by (intro db_intros dbInv_deleteRows; simp add: wfTables_def okRows_delete hereditaryD
      unique_deleteWhere)+

lemma wf_DeleteSessionsExcept [db_intros]: "dbInv wfTables (DeleteSessionsExcept i)"
  unfolding DeleteSessionsExcept_def
  by (rule dbInv_stmt) (simp add: Let_def wfTables_def okRows_delete)

lemma wf_core_inserts [db_intros]:
  "dbInv wfTables (Accounts_Create a)" "dbInv wfTables (Sessions_Create s)"
  "dbInv wfTables (Tokens_Create k)" "dbInv wfTables (OAuthStates_Create st)"
  "dbInv wfTables (CreateAPIKey ak)"
  unfolding Accounts_Create_def Sessions_Create_def Tokens_Create_def OAuthStates_Create_def
    CreateAPIKey_def
  by (rule dbInv_insertRow; simp add: wfTables_def okRows_append)+

lemma wf_core_updates [db_intros]:
  "dbInv wfTables (Sessions_Touch i at)" "dbInv wfTables (TOTP_Confirm u at)"
  "dbInv wfTables (RevokeAPIKey i byu at)" "dbInv wfTables (TouchAPIKey i at)"
  unfolding Sessions_Touch_def TOTP_Confirm_def RevokeAPIKey_def TouchAPIKey_def
  by (intro db_intros dbInv_updateRows; simp add: wfTables_def okRows_update_keep uniq_defs)+

lemma wf_TOTP_AdvanceStep [db_intros]: "dbInv wfTables (TOTP_AdvanceStep u st)"
  unfolding TOTP_AdvanceStep_def
  by (intro db_intros dbInv_updateRows; simp add: wfTables_def okRows_update_keep)

lemma wf_SetCredential [db_intros]: "dbInv wfTables (Users_SetCredential c)"
  unfolding Users_SetCredential_def
  by (intro db_intros dbInv_updateRows dbInv_insertRow;
      simp add: wfTables_def okRows_update_keep okRows_append)

lemma wf_TOTP_Upsert [db_intros]: "dbInv wfTables (TOTP_Upsert p)"
  unfolding TOTP_Upsert_def
  by (intro db_intros dbInv_updateRows dbInv_insertRow;
      simp add: wfTables_def okRows_update_keep okRows_append)

lemma wf_consumes [db_intros]:
  "dbInv wfTables (Tokens_Consume kd h at)" "dbInv wfTables (OAuthStates_Consume h at)"
  unfolding Tokens_Consume_def OAuthStates_Consume_def
  by (rule dbInv_updateReturning; simp add: wfTables_def okRows_update_keep uniq_defs)+

lemma wf_insertCodes [db_intros]: "dbInv wfTables (insertCodes u hs)"
  by (induction hs)
     (auto intro!: db_intros dbInv_insertRow simp: wfTables_def okRows_append)

lemma wf_ReplaceAll [db_intros]: "dbInv wfTables (Recovery_ReplaceAll u hs)"
  unfolding Recovery_ReplaceAll_def
  by (intro db_intros dbInv_deleteRows) (simp add: wfTables_def okRows_delete)

lemma wf_rates:
  "wfTables t \<Longrightarrow> unique rl_Key (g (rate_limits t)) \<Longrightarrow> wfTables (rate_limits_update g t)"
  by (simp add: wfTables_def)

lemma rates_update:
  "rl_Key r' = key \<Longrightarrow> map rl_Key (updateWhere (\<lambda>x. rl_Key x = key) (\<lambda>x. r') rows) = map rl_Key rows"
  by (auto simp: updateWhere_def)

lemma wf_CountAttempt [db_intros]: "dbInv wfTables (CountAttempt key w at)"
  unfolding CountAttempt_def
proof (rule dbInv_stmt, goal_cases)
  case (1 t)
  then have "unique rl_Key (rate_limits t)" by (simp add: wfTables_def)
  then show ?case
    using 1
    by (auto simp: Let_def find_None_set rates_update dest: find_SomeD intro!: wf_rates
        split: option.split)
qed

section \<open>The list of users is complete\<close>

text \<open>A client of \<open>ListUsers\<close> that follows the returned cursors.\<close>

fun walkUsers :: "nat \<Rightarrow> char option \<Rightarrow> UserListFilter \<Rightarrow> (sys, User list) oper" where
  "walkUsers 0 esc f = fail (ErrOther ''too many pages'')"
| "walkUsers (Suc n) esc f =
     andThen (ListUsers esc f)
       (\<lambda>(out, next). if next = [] then ret out
                      else andThen (walkUsers n esc (f\<lparr>uf_Cursor := next\<rparr>)) (\<lambda>rest. ret (out @ rest)))"

lemma encodeCursor_nonempty: "encodeCursor a i \<noteq> []"
proof -
  have "b64Encode bs \<noteq> []" if "bs \<noteq> []" for bs
    using that by (cases bs rule: b64Encode.cases) simp_all
  then show ?thesis by (simp add: encodeCursor_def bytesOf_def)
qed

definition cursorKey :: "string \<Rightarrow> (string \<times> string) option" where
  "cursorKey c = (if c = [] then None else case decodeCursor c of Inl e \<Rightarrow> None | Inr k \<Rightarrow> Some k)"

definition userPage :: "char option \<Rightarrow> UserListFilter \<Rightarrow> (string \<times> string) option \<Rightarrow> tables
    \<Rightarrow> User list \<times> string" where
  "userPage esc f after t =
     (case pageRows userKey (nat (userLimit (uf_Limit f))) after (filter (userFilter esc f) (users t)) of
        (out, None) \<Rightarrow> (out, [])
      | (out, Some (e, i)) \<Rightarrow> (out, encodeCursor e i))"

lemma ListUsers_run:
  assumes "faults s = []" "uf_Cursor f = [] \<or> decodeCursor (uf_Cursor f) = Inr key"
  shows "ListUsers esc f s = (Inr (userPage esc f (cursorKey (uf_Cursor f)) (db s)), s)"
  using assms
  by (auto simp: ListUsers_def userPage_def cursorKey_def Let_def select_def stmt_def faultNow_def
      tick_def fail_def)

lemma userFilter_cursor [simp]: "userFilter esc (f\<lparr>uf_Cursor := c\<rparr>) = userFilter esc f"
  by (rule ext) (simp add: userFilter_def)

lemma userLimit_pos: "0 < nat (userLimit l)"
  by (simp add: userLimit_def maxUserPage_def Let_def)

lemma cursorKey_encode:
  "CHR 0x00 \<notin> set a \<Longrightarrow> cursorKey (encodeCursor a i) = Some (a, i)"
  by (simp add: cursorKey_def encodeCursor_nonempty user_cursor_roundtrip)

lemma walkUsers_pages:
  assumes "faults s = []" and nul: "\<forall>u \<in> set (users (db s)). CHR 0x00 \<notin> set (u_EmailNormalized u)"
    and "uf_Cursor f = [] \<or> (\<exists>key. decodeCursor (uf_Cursor f) = Inr key)"
    and "walkPages n userKey (nat (userLimit (uf_Limit f))) (cursorKey (uf_Cursor f))
           (filter (userFilter esc f) (users (db s))) = Some out"
  shows "walkUsers n esc f s = (Inr out, s)"
  using assms(3,4)
proof (induction n arbitrary: f out)
  case (Suc n)
  let ?rows = "filter (userFilter esc f) (users (db s))"
  let ?pg = "pageRows userKey (nat (userLimit (uf_Limit f))) (cursorKey (uf_Cursor f)) ?rows"
  have run: "ListUsers esc f s = (Inr (userPage esc f (cursorKey (uf_Cursor f)) (db s)), s)"
    using ListUsers_run [OF assms(1)] Suc.prems(1) by blast
  obtain o1 c where pg: "?pg = (o1, c)" by force
  show ?case
  proof (cases c)
    case None
    then show ?thesis using run pg Suc.prems(2) by (simp add: andThen_def userPage_def ret_def)
  next
    case (Some key)
    obtain e i where key: "key = (e, i)" by force
    obtain rest where rest: "out = o1 @ rest"
      "walkPages n userKey (nat (userLimit (uf_Limit f))) (Some key) ?rows = Some rest"
      using Suc.prems(2) pg Some by auto
    have "CHR 0x00 \<notin> set e"
      using pageRows_cursor [OF pg [unfolded Some] userLimit_pos] nul key by (auto simp: userKey_def)
    then have "walkUsers n esc (f\<lparr>uf_Cursor := encodeCursor e i\<rparr>) s = (Inr rest, s)"
      using rest(2) key by (intro Suc.IH) (auto simp: user_cursor_roundtrip cursorKey_encode)
    then show ?thesis
      using run pg Some key rest(1)
      by (simp add: andThen_def userPage_def ret_def encodeCursor_nonempty)
  qed
qed simp

text \<open>C23. The paged list of users loses no user and repeats none: a client that follows the
  cursors gets every user that the filter selects, in the order of the normalized address and
  the identifier, when the database answers and no address holds a NUL byte.\<close>

theorem list_users_complete:
  assumes "wfTables (db s)" and "faults s = []" and "uf_Cursor f = []"
    and "\<forall>u \<in> set (users (db s)). CHR 0x00 \<notin> set (u_EmailNormalized u)"
    and "length (users (db s)) < n"
  shows "walkUsers n esc f s =
    (Inr (orderBy userKey (filter (userFilter esc f) (users (db s)))), s)"
proof -
  let ?rows = "filter (userFilter esc f) (users (db s))"
  have "unique u_ID (users (db s))" using assms(1) by (simp add: wfTables_def uniqUsers_def)
  then have u: "unique userKey ?rows" by (auto simp: distinct_map userKey_def inj_on_def)
  have "length (afterKey userKey None ?rows) < n"
    using le_less_trans [OF length_filter_le assms(5), of "userFilter esc f"]
    by (simp add: afterKey_def orderBy_def)
  then have "walkPages n userKey (nat (userLimit (uf_Limit f))) None ?rows
      = Some (afterKey userKey None ?rows)"
    by (rule walkPages_complete [OF u userLimit_pos])
  then have "walkUsers n esc f s = (Inr (afterKey userKey None ?rows), s)"
    using assms by (intro walkUsers_pages) (simp_all add: cursorKey_def)
  then show ?thesis by (simp add: afterKey_def)
qed

section \<open>The prefix filter\<close>

text \<open>With the backslash as the escape character the pattern matches exactly the prefix.\<close>

lemma like_percent: "like esc ''%'' s" if "esc \<noteq> Some CHR ''%''"
  using that by (induction s) auto

lemma like_escaped:
  "like (Some CHR 0x5C) (escapeLike v @ ''%'') s \<longleftrightarrow> HasPrefix s v"
proof (induction v arbitrary: s)
  case Nil
  have "like (Some CHR 0x5C) ''%'' s" by (rule like_percent) simp
  then show ?case by (simp only: escapeLike_def list.map concat.simps append_Nil) (simp add: HasPrefix_def)
next
  case (Cons c v)
  then show ?case by (cases s) (auto simp: escapeLike_def HasPrefix_def)
qed

text \<open>On an engine whose LIKE has the backslash as its escape character (PostgreSQL) the
  prefix filter of the user list keeps exactly the addresses with the prefix, whatever
  characters the prefix holds. An engine with no escape character (SQLite as the adapter calls
  it) matches no address that starts with a percent sign or an underscore.\<close>

theorem email_prefix_filter:
  "like (Some CHR 0x5C) (escapeLike p @ ''%'') email = HasPrefix email p \<and>
   \<not> like None (escapeLike (CHR ''_'' # p) @ ''%'') (CHR ''_'' # rest) \<and>
   \<not> like None (escapeLike (CHR ''%'' # p) @ ''%'') (CHR ''%'' # rest)"
  by (simp add: like_escaped) (simp add: escapeLike_def)

theorem list_users_complete_witness:
  "walkUsers 2 (Some CHR 0x5C)
     \<lparr>uf_EmailPrefix = [], uf_Role = None, uf_Disabled = None, uf_Limit = 0, uf_Cursor = []\<rparr>
     (world w_tables) = (Inr [ann], world w_tables)"
proof -
  have "walkUsers 2 (Some CHR 0x5C)
     \<lparr>uf_EmailPrefix = [], uf_Role = None, uf_Disabled = None, uf_Limit = 0, uf_Cursor = []\<rparr>
     (world w_tables) = (Inr (orderBy userKey (filter (userFilter (Some CHR 0x5C)
       \<lparr>uf_EmailPrefix = [], uf_Role = None, uf_Disabled = None, uf_Limit = 0, uf_Cursor = []\<rparr>)
       (users w_tables))), world w_tables)"
    using list_users_complete [of "world w_tables"
      "\<lparr>uf_EmailPrefix = [], uf_Role = None, uf_Disabled = None, uf_Limit = 0, uf_Cursor = []\<rparr>" 2]
    by (simp add: wf_w_tables) (simp add: w_tables_def ann_def)
  then show ?thesis by (simp add: w_tables_def userFilter_def orderBy_def)
qed

end
