(* ===== verification/One_Time.thy ===== *)
theory One_Time
  imports Store_Core
begin

text \<open>
  The contract of a credential that works once: a one-time token, an OAuth state, a recovery
  code, a TOTP time step, an invitation and an authorization code are all claimed by one
  conditional statement. The locale \<open>one_time\<close> states what the statement promises, proves that
  no interleaving of requests makes one key succeed twice, and is interpreted on the store
  operations.
\<close>

datatype ('k, 'q) call = Claim 'k 'q | Other "sys \<Rightarrow> sys"

text \<open>The number of successful claims of one key in a sequence of calls. A claim carries the data
  of its request (the time, and for a rotation the successor). A concurrent run of the
  requests is such a sequence, because a claim is one statement.\<close>

fun wins ::
  "('k \<Rightarrow> 'q \<Rightarrow> (sys, 'a) oper) \<Rightarrow> ('a \<Rightarrow> bool) \<Rightarrow> 'k \<Rightarrow> ('k, 'q) call list \<Rightarrow> sys \<Rightarrow> nat" where
  "wins claim won k [] s = 0"
| "wins claim won k (Claim k' at # cs) s =
     (case claim k' at s of
        (Inl e, s') \<Rightarrow> wins claim won k cs s'
      | (Inr x, s') \<Rightarrow> (if k' = k \<and> won x then 1 else 0) + wins claim won k cs s')"
| "wins claim won k (Other m # cs) s = wins claim won k cs (m s)"

text \<open>The other calls keep the table valid and make no spent key usable again.\<close>

definition harmless :: "(tables \<Rightarrow> bool) \<Rightarrow> ('k \<Rightarrow> tables \<Rightarrow> bool) \<Rightarrow> 'k \<Rightarrow> ('k, 'q) call list \<Rightarrow> bool" where
  "harmless valid usable k cs \<longleftrightarrow>
     (\<forall>m. Other m \<in> set cs \<longrightarrow>
        (\<forall>s. valid (db s) \<longrightarrow> valid (db (m s)) \<and> (\<not> usable k (db s) \<longrightarrow> \<not> usable k (db (m s)))))"

locale one_time =
  fixes claim :: "'k \<Rightarrow> 'q \<Rightarrow> (sys, 'a) oper"
    and won :: "'a \<Rightarrow> bool"
    and valid :: "tables \<Rightarrow> bool"
    and usable :: "'k \<Rightarrow> tables \<Rightarrow> bool"
  assumes claim_valid: "valid (db s) \<Longrightarrow> claim k at s = (r, s') \<Longrightarrow> valid (db s')"
    and claim_needs: "valid (db s) \<Longrightarrow> claim k at s = (Inr x, s') \<Longrightarrow> won x \<Longrightarrow> usable k (db s)"
    and claim_spends: "valid (db s) \<Longrightarrow> claim k at s = (Inr x, s') \<Longrightarrow> won x \<Longrightarrow> \<not> usable k (db s')"
    and claim_revives_none:
      "valid (db s) \<Longrightarrow> claim k' at s = (r, s') \<Longrightarrow> \<not> usable k (db s) \<Longrightarrow> \<not> usable k (db s')"
begin

lemma no_win_when_spent:
  "valid (db s) \<Longrightarrow> \<not> usable k (db s) \<Longrightarrow> harmless valid usable k cs \<Longrightarrow> wins claim won k cs s = 0"
proof (induction cs arbitrary: s)
  case (Cons c cs)
  have h: "harmless valid usable k cs" using Cons.prems(3) by (simp add: harmless_def)
  show ?case
  proof (cases c)
    case (Claim k' at)
    obtain r s' where run: "claim k' at s = (r, s')" by force
    have v: "valid (db s')" by (rule claim_valid [OF Cons.prems(1) run])
    have u: "\<not> usable k (db s')" by (rule claim_revives_none [OF Cons.prems(1) run Cons.prems(2)])
    have "\<not> (k' = k \<and> won x)" if "r = Inr x" for x
      using claim_needs [OF Cons.prems(1)] run that Cons.prems(2) by blast
    then show ?thesis using Claim run Cons.IH [OF v u h] by (auto split: sum.split)
  next
    case (Other m)
    then have "valid (db (m s)) \<and> \<not> usable k (db (m s))"
      using Cons.prems by (simp add: harmless_def)
    then show ?thesis using Other Cons.IH h by simp
  qed
qed simp

theorem at_most_one_win:
  "valid (db s) \<Longrightarrow> harmless valid usable k cs \<Longrightarrow> wins claim won k cs s \<le> 1"
proof (induction cs arbitrary: s)
  case (Cons c cs)
  have h: "harmless valid usable k cs" using Cons.prems(2) by (simp add: harmless_def)
  show ?case
  proof (cases c)
    case (Claim k' at)
    obtain r s' where run: "claim k' at s = (r, s')" by force
    have v: "valid (db s')" by (rule claim_valid [OF Cons.prems(1) run])
    show ?thesis
    proof (cases "\<exists>x. r = Inr x \<and> k' = k \<and> won x")
      case True
      then have "\<not> usable k (db s')" using claim_spends [OF Cons.prems(1)] run by blast
      then have "wins claim won k cs s' = 0" by (rule no_win_when_spent [OF v _ h])
      then show ?thesis using Claim run True by auto
    next
      case False
      then show ?thesis using Claim run Cons.IH [OF v h] by (auto split: sum.split)
    qed
  next
    case (Other m)
    then have "valid (db (m s))" using Cons.prems by (simp add: harmless_def)
    then show ?thesis using Other Cons.IH h by simp
  qed
qed simp

end

section \<open>The interpretations on the store\<close>

definition tokenUsable :: "string \<times> string \<Rightarrow> tables \<Rightarrow> bool" where
  "tokenUsable kh t \<longleftrightarrow>
     (\<exists>k \<in> set (tokens t). tk_Kind k = fst kh \<and> tk_TokenHash k = snd kh \<and> tk_ConsumedAt k = None)"

definition claimToken :: "string \<times> string \<Rightarrow> time \<Rightarrow> (sys, Token) oper" where
  "claimToken kh at = Tokens_Consume (fst kh) (snd kh) at"

definition anyResult :: "'a \<Rightarrow> bool" where
  "anyResult x = True"

lemma wf_tokens_unique:
  "wfTables t \<Longrightarrow> a \<in> set (tokens t) \<Longrightarrow> b \<in> set (tokens t) \<Longrightarrow> tk_Kind a = tk_Kind b \<Longrightarrow>
     tk_TokenHash a = tk_TokenHash b \<Longrightarrow> a = b"
  by (auto simp: wfTables_def okRows_def uniqTokens_def dest: distinct_map_unique)

lemma dbInv_run: "dbInv Q m \<Longrightarrow> Q (db s) \<Longrightarrow> m s = (r, s') \<Longrightarrow> Q (db s')"
  unfolding dbInv_def by (rule keepsD')

interpretation tok: one_time claimToken anyResult wfTables tokenUsable
proof
  show "wfTables (db s')" if "wfTables (db s)" "claimToken k at s = (r, s')" for s s' k at r
    using that dbInv_run wf_consumes(1) unfolding claimToken_def by blast
next
  fix s s' k at x
  assume wf: "wfTables (db s)" and run: "claimToken k at s = (Inr x, s')"
  then obtain a where a: "find (\<lambda>y. tk_Kind y = fst k \<and> tk_TokenHash y = snd k \<and>
      tk_ConsumedAt y = None \<and> at < tk_ExpiresAt y) (tokens (db s)) = Some a"
    and s': "tokens (db s') = updateWhere (\<lambda>y. tk_Kind y = fst k \<and> tk_TokenHash y = snd k \<and>
      tk_ConsumedAt y = None \<and> at < tk_ExpiresAt y) (\<lambda>y. y\<lparr>tk_ConsumedAt := Some at\<rparr>) (tokens (db s))"
    by (auto simp: claimToken_def Tokens_Consume_def sql_success)
  show "tokenUsable k (db s)" using find_SomeD [OF a] by (auto simp: tokenUsable_def)
  show "\<not> tokenUsable k (db s')"
    using find_SomeD [OF a] wf_tokens_unique [OF wf, of a]
    by (auto simp: tokenUsable_def s' set_updateWhere)
next
  show "\<not> tokenUsable k (db s')"
    if "claimToken k' at s = (r, s')" "\<not> tokenUsable k (db s)" for s s' k k' at r
    using that
    by (auto simp: claimToken_def Tokens_Consume_def updateReturning_def stmt_def tokenUsable_def
        set_updateWhere split: if_splits option.splits)
qed

text \<open>OAuth states.\<close>

definition stateUsable :: "string \<Rightarrow> tables \<Rightarrow> bool" where
  "stateUsable h t \<longleftrightarrow> (\<exists>k \<in> set (oauth_states t). os_StateHash k = h \<and> os_ConsumedAt k = None)"

interpretation st: one_time OAuthStates_Consume anyResult wfTables stateUsable
proof
  show "wfTables (db s')" if "wfTables (db s)" "OAuthStates_Consume k at s = (r, s')" for s s' k at r
    using that dbInv_run wf_consumes(2) by blast
next
  fix s s' k at x
  assume wf: "wfTables (db s)" and run: "OAuthStates_Consume k at s = (Inr x, s')"
  then obtain a where a: "find (\<lambda>y. os_StateHash y = k \<and> os_ConsumedAt y = None \<and>
      at < os_ExpiresAt y) (oauth_states (db s)) = Some a"
    and s': "oauth_states (db s') = updateWhere (\<lambda>y. os_StateHash y = k \<and> os_ConsumedAt y = None \<and>
      at < os_ExpiresAt y) (\<lambda>y. y\<lparr>os_ConsumedAt := Some at\<rparr>) (oauth_states (db s))"
    by (auto simp: OAuthStates_Consume_def sql_success)
  have uniq: "unique os_StateHash (oauth_states (db s))"
    using wf by (simp add: wfTables_def uniqStates_def)
  show "stateUsable k (db s)" using find_SomeD [OF a] by (auto simp: stateUsable_def)
  show "\<not> stateUsable k (db s')"
    using find_SomeD [OF a] distinct_map_unique [OF uniq]
    by (auto simp: stateUsable_def s' set_updateWhere)
next
  show "\<not> stateUsable k (db s')"
    if "OAuthStates_Consume k' at s = (r, s')" "\<not> stateUsable k (db s)" for s s' k k' at r
    using that
    by (auto simp: OAuthStates_Consume_def updateReturning_def stmt_def stateUsable_def
        set_updateWhere split: if_splits option.splits)
qed

text \<open>Recovery codes: the claim deletes the row.\<close>

definition claimRecovery :: "string \<times> string \<Rightarrow> time \<Rightarrow> (sys, bool) oper" where
  "claimRecovery uh at = Recovery_Consume (fst uh) (snd uh)"

definition recoveryUsable :: "string \<times> string \<Rightarrow> tables \<Rightarrow> bool" where
  "recoveryUsable uh t \<longleftrightarrow> \<lparr>rc_UserID = fst uh, rc_CodeHash = snd uh\<rparr> \<in> set (recovery t)"

definition isTrue :: "bool \<Rightarrow> bool" where
  "isTrue b = b"

interpretation rec: one_time claimRecovery isTrue wfTables recoveryUsable
proof
  show "wfTables (db s')" if "wfTables (db s)" "claimRecovery k at s = (r, s')" for s s' k at r
    using that dbInv_run wf_core_deletes(10) unfolding claimRecovery_def by blast
next
  fix s s' k at x
  assume run: "claimRecovery k at s = (Inr x, s')" and x: "isTrue x"
  then have "0 < countWhere (\<lambda>r. rc_UserID r = fst k \<and> rc_CodeHash r = snd k) (recovery (db s))"
    by (auto simp: claimRecovery_def Recovery_Consume_def andThen_Inr sql_success ret_Inr isTrue_def)
  then obtain row where row: "row \<in> set (recovery (db s))" "rc_UserID row = fst k"
      "rc_CodeHash row = snd k"
    unfolding countWhere_pos by blast
  then have "row = \<lparr>rc_UserID = fst k, rc_CodeHash = snd k\<rparr>" by simp
  then show "recoveryUsable k (db s)" using row(1) by (simp add: recoveryUsable_def)
  show "\<not> recoveryUsable k (db s')"
    using run by (auto simp: claimRecovery_def Recovery_Consume_def andThen_Inr sql_success ret_Inr
        recoveryUsable_def)
next
  show "\<not> recoveryUsable k (db s')"
    if "claimRecovery k' at s = (r, s')" "\<not> recoveryUsable k (db s)" for s s' k k' at r
    using that
    by (auto simp: claimRecovery_def Recovery_Consume_def deleteRows_def stmt_def andThen_def ret_def
        recoveryUsable_def split: if_splits)
qed

text \<open>A TOTP time step: the claim of a step needs a stored step below it.\<close>

definition claimStep :: "string \<times> int \<Rightarrow> time \<Rightarrow> (sys, bool) oper" where
  "claimStep us at = TOTP_AdvanceStep (fst us) (snd us)"

definition stepUsable :: "string \<times> int \<Rightarrow> tables \<Rightarrow> bool" where
  "stepUsable us t \<longleftrightarrow> (\<exists>p \<in> set (totps t). tp_UserID p = fst us \<and> tp_LastStep p < snd us)"

lemma AdvanceStep_db:
  assumes "TOTP_AdvanceStep u n s = (r, s')"
  shows "totps (db s') = totps (db s) \<or>
    totps (db s') = updateWhere (\<lambda>p. tp_UserID p = u \<and> tp_LastStep p < n) (\<lambda>p. p\<lparr>tp_LastStep := n\<rparr>)
      (totps (db s))"
  using assms
  by (auto simp: TOTP_AdvanceStep_def updateRows_def TOTP_Get_def selectOne_def stmt_def andThen_def
      anyRows_def ret_def split: if_splits sum.splits prod.splits option.splits)

lemma AdvanceStep_True:
  "TOTP_AdvanceStep u n s = (Inr True, s') \<Longrightarrow>
     (\<exists>p \<in> set (totps (db s)). tp_UserID p = u \<and> tp_LastStep p < n) \<and>
     totps (db s') = updateWhere (\<lambda>p. tp_UserID p = u \<and> tp_LastStep p < n)
       (\<lambda>p. p\<lparr>tp_LastStep := n\<rparr>) (totps (db s))"
  by (auto simp: TOTP_AdvanceStep_def andThen_Inr sql_success ret_Inr countWhere_pos split: if_splits)

interpretation step: one_time claimStep isTrue wfTables stepUsable
proof
  show "wfTables (db s')" if "wfTables (db s)" "claimStep k at s = (r, s')" for s s' k at r
    using that dbInv_run wf_TOTP_AdvanceStep unfolding claimStep_def by blast
next
  fix s s' k at x
  assume "claimStep k at s = (Inr x, s')" and "isTrue x"
  then have run: "TOTP_AdvanceStep (fst k) (snd k) s = (Inr True, s')"
    by (simp add: claimStep_def isTrue_def)
  show "stepUsable k (db s)" using AdvanceStep_True [OF run] by (auto simp: stepUsable_def)
  show "\<not> stepUsable k (db s')"
    using AdvanceStep_True [OF run] by (auto simp: stepUsable_def set_updateWhere)
next
  fix s s' k k' at r
  assume run: "claimStep k' at s = (r, s')" and u: "\<not> stepUsable k (db s)"
  show "\<not> stepUsable k (db s')"
    using AdvanceStep_db [OF run [unfolded claimStep_def]] u
    by (force simp: stepUsable_def set_updateWhere)
qed

section \<open>Single use\<close>

text \<open>C4. A one-time token (magic link, password reset, email verification, MFA challenge) is
  consumed at most once, in every interleaving of requests and for every pattern of database
  failures.\<close>

theorem token_single_use:
  assumes "wfTables (db s)" and "harmless wfTables tokenUsable k cs"
  shows "wins claimToken anyResult k cs s \<le> 1"
  using assms by (rule tok.at_most_one_win)

text \<open>An OAuth state authorizes at most one callback.\<close>

theorem oauth_state_single_use:
  assumes "wfTables (db s)" and "harmless wfTables stateUsable h cs"
  shows "wins OAuthStates_Consume anyResult h cs s \<le> 1"
  using assms by (rule st.at_most_one_win)

text \<open>A recovery code signs in at most once.\<close>

theorem recovery_code_single_use:
  assumes "wfTables (db s)" and "harmless wfTables recoveryUsable uh cs"
  shows "wins claimRecovery isTrue uh cs s \<le> 1"
  using assms by (rule rec.at_most_one_win)

text \<open>A TOTP time step is accepted at most once per enrolment, so a code cannot be replayed
  inside its window.\<close>

theorem totp_step_single_use:
  assumes "wfTables (db s)" and "harmless wfTables stepUsable us cs"
  shows "wins claimStep isTrue us cs s \<le> 1"
  using assms by (rule step.at_most_one_win)

text \<open>On concrete rows one of two claims wins, so the bound is met.\<close>

theorem token_single_use_witness:
  "wins claimToken anyResult (''mfa'', ''h'') [Claim (''mfa'', ''h'') 100, Claim (''mfa'', ''h'') 101]
     (world w_tables) \<le> 1 \<and>
   0 < wins claimToken anyResult (''mfa'', ''h'') [Claim (''mfa'', ''h'') 100] (world w_tables)"
  proof (rule conjI, goal_cases)
  case 1
  show ?case by (rule token_single_use) (simp_all add: wf_w_tables harmless_def)
next
  case 2
  show ?case by (simp add: w_eval claimToken_def Tokens_Consume_def anyResult_def)
qed

theorem oauth_state_single_use_witness:
  "wins OAuthStates_Consume anyResult ''h'' [Claim ''h'' 100, Claim ''h'' 101] (world w_tables) \<le> 1 \<and>
   0 < wins OAuthStates_Consume anyResult ''h'' [Claim ''h'' 100] (world w_tables)"
  proof (rule conjI, goal_cases)
  case 1
  show ?case by (rule oauth_state_single_use) (simp_all add: wf_w_tables harmless_def)
next
  case 2
  show ?case by (simp add: w_eval OAuthStates_Consume_def anyResult_def)
qed

theorem recovery_code_single_use_witness:
  "wins claimRecovery isTrue (''u1'', ''c1'') [Claim (''u1'', ''c1'') 100, Claim (''u1'', ''c1'') 101]
     (world w_tables) \<le> 1 \<and>
   0 < wins claimRecovery isTrue (''u1'', ''c1'') [Claim (''u1'', ''c1'') 100] (world w_tables)"
  proof (rule conjI, goal_cases)
  case 1
  show ?case by (rule recovery_code_single_use) (simp_all add: wf_w_tables harmless_def)
next
  case 2
  show ?case by (simp add: w_eval claimRecovery_def Recovery_Consume_def isTrue_def
      countWhere_def)
qed

theorem totp_step_single_use_witness:
  "wins claimStep isTrue (''u1'', 4) [Claim (''u1'', 4) 100, Claim (''u1'', 4) 101] (world w_tables) \<le> 1 \<and>
   0 < wins claimStep isTrue (''u1'', 4) [Claim (''u1'', 4) 100] (world w_tables)"
  proof (rule conjI, goal_cases)
  case 1
  show ?case by (rule totp_step_single_use) (simp_all add: wf_w_tables harmless_def)
next
  case 2
  show ?case by (simp add: w_eval claimStep_def TOTP_AdvanceStep_def isTrue_def
      countWhere_def anyRows_def)
qed

end
