(* ===== verification/Store_Orgs.thy ===== *)
theory Store_Orgs
  imports One_Time
begin

text \<open>
  The tables of the organizations plugin in the SQL adapter:
  \<open>internal/sqlstore/organizations.go\<close>.
\<close>

section \<open>Organizations\<close>

definition CreateOrganization :: "Organization \<Rightarrow> (sys, unit) oper" where
  "CreateOrganization m = insertRow orgs orgs_update uniqOrgs (\<lambda>t. True) m"

definition OrganizationByID :: "string \<Rightarrow> (sys, Organization) oper" where
  "OrganizationByID i = selectOne orgs (\<lambda>m. og_ID m = i)"

definition OrganizationBySlug :: "string \<Rightarrow> (sys, Organization) oper" where
  "OrganizationBySlug slug = selectOne orgs (\<lambda>m. og_Slug m = slug)"

definition orgUpdateOf :: "Organization \<Rightarrow> Organization \<Rightarrow> Organization" where
  "orgUpdateOf m r =
     r\<lparr>og_Name := og_Name m, og_Slug := og_Slug m, og_UpdatedAt := og_UpdatedAt m\<rparr>"

definition UpdateOrganization :: "Organization \<Rightarrow> (sys, unit) oper" where
  "UpdateOrganization m =
     andThen (updateRows orgs orgs_update uniqOrgs (\<lambda>r. og_ID r = og_ID m) (orgUpdateOf m))
       requireAffected"

text \<open>Six statements in this order. The last one finds no dependent row, so its cascades do
  nothing.\<close>

definition DeleteOrganization :: "string \<Rightarrow> (sys, unit) oper" where
  "DeleteOrganization i =
     andThen (stmt (\<lambda>t. (Inr (), team_members_update
        (deleteWhere (\<lambda>p. \<exists>m \<in> set (teams t). te_OrgID m = i \<and> te_ID m = fst p)) t))) (\<lambda>_.
     andThen (stmt (\<lambda>t. (Inr (), t\<lparr>team_members :=
            deleteWhere (\<lambda>p. \<exists>m \<in> set (teams t). te_OrgID m = i \<and> te_ID m = fst p) (team_members t),
          teams := deleteWhere (\<lambda>m. te_OrgID m = i) (teams t)\<rparr>))) (\<lambda>_.
     andThen (deleteRows invitations invitations_update (\<lambda>r. iv_OrgID r = i)) (\<lambda>_.
     andThen (deleteRows org_roles org_roles_update (\<lambda>r. cu_OrgID r = i)) (\<lambda>_.
     andThen (deleteRows members members_update (\<lambda>r. mb_OrgID r = i)) (\<lambda>_.
     andThen (stmt (\<lambda>t. (Inr (countWhere (\<lambda>m. og_ID m = i) (orgs t)),
          t\<lparr>orgs := deleteWhere (\<lambda>m. og_ID m = i) (orgs t),
            members := deleteWhere (\<lambda>r. mb_OrgID r = i) (members t),
            invitations := deleteWhere (\<lambda>r. iv_OrgID r = i) (invitations t),
            org_roles := deleteWhere (\<lambda>r. cu_OrgID r = i) (org_roles t),
            team_members :=
              deleteWhere (\<lambda>p. \<exists>m \<in> set (teams t). te_OrgID m = i \<and> te_ID m = fst p) (team_members t),
            teams := deleteWhere (\<lambda>m. te_OrgID m = i) (teams t)\<rparr>)))
       requireAffected)))))"

definition pageSize :: "int \<Rightarrow> int" where
  "pageSize limit = (if limit < 1 then 50 else if limit > 200 then 200 else limit)"

record OrganizationFilter =
  gf_UserID :: string
  gf_Limit :: int
  gf_Cursor :: string

definition orgKey :: "Organization \<Rightarrow> string \<times> string" where
  "orgKey m = (og_Slug m, og_ID m)"

definition ListOrganizations :: "OrganizationFilter \<Rightarrow> (sys, Organization list \<times> string) oper" where
  "ListOrganizations f =
     (let page = (\<lambda>after. select (\<lambda>t.
            case pageRows orgKey (nat (pageSize (gf_Limit f))) after
                   (filter (\<lambda>m. gf_UserID f = [] \<or>
                        (\<exists>r \<in> set (members t). mb_OrgID r = og_ID m \<and> mb_UserID r = gf_UserID f)) (orgs t)) of
              (out, None) \<Rightarrow> (out, [])
            | (out, Some (a, i)) \<Rightarrow> (out, encodePairCursor a i)))
      in if gf_Cursor f = [] then page None
         else case decodePairCursor (gf_Cursor f) of Inl e \<Rightarrow> fail e | Inr key \<Rightarrow> page (Some key))"

section \<open>Memberships\<close>

text \<open>The computed fields of a membership are no columns.\<close>

definition memberRow :: "Membership \<Rightarrow> Membership" where
  "memberRow m = m\<lparr>mb_Permissions := [], mb_TeamRoles := []\<rparr>"

definition CreateMembership :: "Membership \<Rightarrow> (sys, unit) oper" where
  "CreateMembership m =
     insertRow members members_update uniqMembers
       (\<lambda>t. mb_OrgID m \<in> orgIDs (orgs t) \<and> mb_UserID m \<in> userIDs (users t)) (memberRow m)"

definition MembershipOf :: "string \<Rightarrow> string \<Rightarrow> (sys, Membership) oper" where
  "MembershipOf org u = selectOne members (\<lambda>m. mb_OrgID m = org \<and> mb_UserID m = u)"

definition UpdateMembership :: "Membership \<Rightarrow> (sys, unit) oper" where
  "UpdateMembership m =
     andThen (updateRows members members_update anyRows
                (\<lambda>r. mb_OrgID r = mb_OrgID m \<and> mb_UserID r = mb_UserID m)
                (\<lambda>r. r\<lparr>mb_Role := mb_Role m, mb_Status := mb_Status m\<rparr>))
       requireAffected"

definition DeleteMembership :: "string \<Rightarrow> string \<Rightarrow> (sys, unit) oper" where
  "DeleteMembership org u =
     andThen (deleteRows members members_update (\<lambda>m. mb_OrgID m = org \<and> mb_UserID m = u))
       requireAffected"

record MemberFilter =
  mf_OrgID :: string
  mf_Role :: "string option"
  mf_Status :: "string option"
  mf_Limit :: int
  mf_Cursor :: string

definition ListMembers :: "MemberFilter \<Rightarrow> (sys, Membership list \<times> string) oper" where
  "ListMembers f =
     (let page = (\<lambda>after. select (\<lambda>t.
            case pageRows mb_UserID (nat (pageSize (mf_Limit f))) after
                   (filter (\<lambda>m. mb_OrgID m = mf_OrgID f \<and>
                        (case mf_Role f of None \<Rightarrow> True | Some r \<Rightarrow> mb_Role m = r) \<and>
                        (case mf_Status f of None \<Rightarrow> True | Some r \<Rightarrow> mb_Status m = r)) (members t)) of
              (out, None) \<Rightarrow> (out, [])
            | (out, Some u) \<Rightarrow> (out, encodeSingleCursor u)))
      in if mf_Cursor f = [] then page None
         else case decodeSingleCursor (mf_Cursor f) of Inl e \<Rightarrow> fail e | Inr key \<Rightarrow> page (Some key))"

definition MembershipsOfUser :: "string \<Rightarrow> (sys, Membership list) oper" where
  "MembershipsOfUser u = select (\<lambda>t. orderBy mb_OrgID (filter (\<lambda>m. mb_UserID m = u) (members t)))"

definition LockActiveMembersWithRole :: "string \<Rightarrow> string \<Rightarrow> (sys, string list) oper" where
  "LockActiveMembersWithRole org role =
     select (\<lambda>t. map mb_UserID (filter (\<lambda>m. mb_OrgID m = org \<and> mb_Role m = role \<and>
                                            mb_Status m = MembershipActive) (members t)))"

definition CountMembers :: "string \<Rightarrow> (sys, nat) oper" where
  "CountMembers org =
     select (\<lambda>t. countWhere (\<lambda>m. mb_OrgID m = org \<and> mb_Status m = MembershipActive) (members t))"

section \<open>The active organization\<close>

definition SetActiveOrganization :: "string \<Rightarrow> string \<Rightarrow> (sys, unit) oper" where
  "SetActiveOrganization sid org =
     andThen (updateRows sessions sessions_update anyRows (\<lambda>s. se_ID s = sid)
                (\<lambda>s. s\<lparr>se_ActiveOrgID := (if org \<noteq> [] then Some org else None)\<rparr>))
       requireAffected"

definition ActiveOrganizationOf :: "string \<Rightarrow> (sys, string) oper" where
  "ActiveOrganizationOf sid =
     andThen (selectOne sessions (\<lambda>s. se_ID s = sid))
       (\<lambda>s. ret (case se_ActiveOrgID s of None \<Rightarrow> [] | Some org \<Rightarrow> org))"

definition ClearActiveOrganization :: "string \<Rightarrow> string \<Rightarrow> (sys, unit) oper" where
  "ClearActiveOrganization org u =
     andThen (updateRows sessions sessions_update anyRows
                (\<lambda>s. se_UserID s = u \<and> se_ActiveOrgID s = Some org)
                (\<lambda>s. s\<lparr>se_ActiveOrgID := None\<rparr>))
       (\<lambda>_. ret ())"

text \<open>\<open>SessionWithUserAndMembership\<close>: one statement with left joins. \<open>teamRoleExpression\<close> and
  \<open>teamPermissionExpression\<close> aggregate with a space, and an engine without the aggregate
  function (\<open>agg = False\<close>) selects NULL.\<close>

definition teamsOf :: "tables \<Rightarrow> string \<Rightarrow> string \<Rightarrow> Team list" where
  "teamsOf t org u = filter (\<lambda>m. te_OrgID m = org \<and> (te_ID m, u) \<in> set (team_members t)) (teams t)"

definition teamRoleExpression :: "bool \<Rightarrow> tables \<Rightarrow> string \<Rightarrow> string \<Rightarrow> string" where
  "teamRoleExpression agg t org u =
     (if agg then Join (map te_Role (filter (\<lambda>m. te_Role m \<noteq> []) (teamsOf t org u))) '' '' else [])"

definition teamPermissionExpression :: "bool \<Rightarrow> tables \<Rightarrow> string \<Rightarrow> string \<Rightarrow> string option" where
  "teamPermissionExpression agg t org u =
     (let ps = concat (map (\<lambda>m. map cu_Permissions
                 (filter (\<lambda>r. cu_OrgID r = org \<and> cu_Name r = te_Role m) (org_roles t))) (teamsOf t org u))
      in if agg \<and> ps \<noteq> [] then Some (Join ps '' '') else None)"

definition resolvedMember :: "bool \<Rightarrow> tables \<Rightarrow> Membership \<Rightarrow> Membership" where
  "resolvedMember agg t m =
     (let own = map_option cu_Permissions
                  (find (\<lambda>r. cu_OrgID r = mb_OrgID m \<and> cu_Name r = mb_Role m) (org_roles t));
          statements = (case own of None \<Rightarrow> [] | Some p \<Rightarrow> [p]) @
            (case teamPermissionExpression agg t (mb_OrgID m) (mb_UserID m) of None \<Rightarrow> [] | Some p \<Rightarrow> [p])
      in m\<lparr>mb_Permissions := TrimSpace (Join statements '' ''),
           mb_TeamRoles := teamRoleExpression agg t (mb_OrgID m) (mb_UserID m)\<rparr>)"

definition SessionWithUserAndMembership ::
  "bool \<Rightarrow> string \<Rightarrow> (sys, Session \<times> User \<times> Organization option \<times> Membership option) oper" where
  "SessionWithUserAndMembership agg h =
     stmt (\<lambda>t. (case find (\<lambda>s. se_TokenHash s = h \<and> se_UserID s \<in> userIDs (users t)) (sessions t) of
        None \<Rightarrow> Inl ErrNotFound
      | Some s \<Rightarrow>
          (case find (\<lambda>u. u_ID u = se_UserID s) (users t) of
             None \<Rightarrow> Inl ErrNotFound
           | Some u \<Rightarrow>
               let org = find (\<lambda>m. se_ActiveOrgID s = Some (og_ID m)) (orgs t);
                   mem = find (\<lambda>m. se_ActiveOrgID s = Some (mb_OrgID m) \<and> mb_UserID m = se_UserID s)
                           (members t)
               in Inr (s, u, org, map_option (resolvedMember agg t) mem)), t))"

section \<open>Invitations\<close>

definition CreateInvitation :: "Invitation \<Rightarrow> (sys, unit) oper" where
  "CreateInvitation i =
     insertRow invitations invitations_update uniqInvitations (\<lambda>t. iv_OrgID i \<in> orgIDs (orgs t)) i"

definition InvitationByTokenHash :: "string \<Rightarrow> (sys, Invitation) oper" where
  "InvitationByTokenHash h = selectOne invitations (\<lambda>i. iv_TokenHash i = h)"

definition InvitationByID :: "string \<Rightarrow> (sys, Invitation) oper" where
  "InvitationByID x = selectOne invitations (\<lambda>i. iv_ID i = x)"

text \<open>The conditional update, and the read of the row after it.\<close>

definition claimInvitation :: "string \<Rightarrow> time \<Rightarrow> (sys, unit) oper" where
  "claimInvitation h at =
     andThen (updateRows invitations invitations_update anyRows
                (\<lambda>i. iv_TokenHash i = h \<and> iv_Status i = InvitationPending \<and> iv_ExpiresAt i > at)
                (\<lambda>i. i\<lparr>iv_Status := InvitationAccepted\<rparr>))
       requireAffected"

definition ConsumeInvitation :: "string \<Rightarrow> time \<Rightarrow> (sys, Invitation) oper" where
  "ConsumeInvitation h at = andThen (claimInvitation h at) (\<lambda>_. InvitationByTokenHash h)"

definition SetInvitationStatus :: "string \<Rightarrow> string \<Rightarrow> string \<Rightarrow> (sys, unit) oper" where
  "SetInvitationStatus x fromS toS =
     andThen (updateRows invitations invitations_update anyRows
                (\<lambda>i. iv_ID i = x \<and> iv_Status i = fromS) (\<lambda>i. i\<lparr>iv_Status := toS\<rparr>))
       requireAffected"

record InvitationFilter =
  if_OrgID :: string
  if_Status :: "string option"
  if_Limit :: int
  if_Cursor :: string

definition ListInvitations :: "InvitationFilter \<Rightarrow> (sys, Invitation list \<times> string) oper" where
  "ListInvitations f =
     (let page = (\<lambda>after. select (\<lambda>t.
            case pageRows iv_ID (nat (pageSize (if_Limit f))) after
                   (filter (\<lambda>i. iv_OrgID i = if_OrgID f \<and>
                        (case if_Status f of None \<Rightarrow> True | Some r \<Rightarrow> iv_Status i = r)) (invitations t)) of
              (out, None) \<Rightarrow> (out, [])
            | (out, Some x) \<Rightarrow> (out, encodeSingleCursor x)))
      in if if_Cursor f = [] then page None
         else case decodeSingleCursor (if_Cursor f) of Inl e \<Rightarrow> fail e | Inr key \<Rightarrow> page (Some key))"

definition CountPendingInvitations :: "string \<Rightarrow> time \<Rightarrow> (sys, nat) oper" where
  "CountPendingInvitations org at =
     select (\<lambda>t. countWhere (\<lambda>i. iv_OrgID i = org \<and> iv_Status i = InvitationPending \<and>
                                iv_ExpiresAt i > at) (invitations t))"

section \<open>Custom roles and teams\<close>

definition CreateCustomRole :: "CustomRole \<Rightarrow> (sys, unit) oper" where
  "CreateCustomRole r =
     insertRow org_roles org_roles_update uniqRoles (\<lambda>t. cu_OrgID r \<in> orgIDs (orgs t)) r"

definition CustomRoleByName :: "string \<Rightarrow> string \<Rightarrow> (sys, CustomRole) oper" where
  "CustomRoleByName org name = selectOne org_roles (\<lambda>r. cu_OrgID r = org \<and> cu_Name r = name)"

definition ListCustomRoles :: "string \<Rightarrow> (sys, CustomRole list) oper" where
  "ListCustomRoles org = select (\<lambda>t. orderBy cu_Name (filter (\<lambda>r. cu_OrgID r = org) (org_roles t)))"

definition DeleteCustomRole :: "string \<Rightarrow> string \<Rightarrow> (sys, unit) oper" where
  "DeleteCustomRole org name =
     andThen (deleteRows org_roles org_roles_update (\<lambda>r. cu_OrgID r = org \<and> cu_Name r = name))
       requireAffected"

definition CreateTeam :: "Team \<Rightarrow> (sys, unit) oper" where
  "CreateTeam m = insertRow teams teams_update uniqTeams (\<lambda>t. te_OrgID m \<in> orgIDs (orgs t)) m"

definition TeamByID :: "string \<Rightarrow> (sys, Team) oper" where
  "TeamByID i = selectOne teams (\<lambda>m. te_ID m = i)"

definition ListTeams :: "string \<Rightarrow> (sys, Team list) oper" where
  "ListTeams org = select (\<lambda>t. orderBy te_Name (filter (\<lambda>m. te_OrgID m = org) (teams t)))"

definition DeleteTeam :: "string \<Rightarrow> (sys, unit) oper" where
  "DeleteTeam i =
     andThen (deleteRows team_members team_members_update (\<lambda>p. fst p = i)) (\<lambda>_.
     andThen (stmt (\<lambda>t. (Inr (countWhere (\<lambda>m. te_ID m = i) (teams t)),
                 t\<lparr>team_members := deleteWhere (\<lambda>p. fst p = i) (team_members t),
                   teams := deleteWhere (\<lambda>m. te_ID m = i) (teams t)\<rparr>)))
       requireAffected)"

definition AddTeamMember :: "string \<Rightarrow> string \<Rightarrow> (sys, unit) oper" where
  "AddTeamMember i u =
     insertRow team_members team_members_update (unique (\<lambda>r. r))
       (\<lambda>t. i \<in> teamIDs (teams t) \<and> u \<in> userIDs (users t)) (i, u)"

definition RemoveTeamMember :: "string \<Rightarrow> string \<Rightarrow> (sys, unit) oper" where
  "RemoveTeamMember i u =
     andThen (deleteRows team_members team_members_update (\<lambda>p. p = (i, u))) requireAffected"

definition ListTeamMembers :: "string \<Rightarrow> (sys, string list) oper" where
  "ListTeamMembers i =
     select (\<lambda>t. orderBy (\<lambda>u. u) (map snd (filter (\<lambda>p. fst p = i) (team_members t))))"

definition TeamsOfUser :: "string \<Rightarrow> string \<Rightarrow> (sys, Team list) oper" where
  "TeamsOfUser org u = select (\<lambda>t. orderBy te_Name (teamsOf t org u))"

section \<open>Every operation keeps the constraints of the schema\<close>

lemma orgIDs_append: "orgIDs (rows @ [r]) = insert (og_ID r) (orgIDs rows)"
  by (auto simp: orgIDs_def)

lemma orgIDs_update [simp]: "orgIDs (updateWhere p (orgUpdateOf m) rows) = orgIDs rows"
  by (simp add: orgIDs_def image_updateWhere orgUpdateOf_def)

lemma orgIDs_delete: "orgIDs (deleteWhere (\<lambda>m. og_ID m = i) rows) = orgIDs rows - {i}"
  by (auto simp: orgIDs_def)

lemma teamIDs_append: "teamIDs (rows @ [r]) = insert (te_ID r) (teamIDs rows)"
  by (auto simp: teamIDs_def)

lemma wf_CreateOrganization [db_intros]: "dbInv wfTables (CreateOrganization m)"
  unfolding CreateOrganization_def
proof (rule dbInv_insertRow, goal_cases)
  case (1 t)
  then show ?case
    apply (simp add: wfTables_def orgIDs_append)
    apply (elim conjE)
    apply (intro conjI; erule okRows_mono; simp)
    done
qed

lemma wf_UpdateOrganization [db_intros]: "dbInv wfTables (UpdateOrganization m)"
  unfolding UpdateOrganization_def
  by (intro db_intros dbInv_updateRows) (simp add: wfTables_def)

lemma teamIDs_delete_org:
  "uniqTeams rows \<Longrightarrow> teamIDs (deleteWhere (\<lambda>m. te_OrgID m = i) rows) =
     teamIDs rows - {x. \<exists>m \<in> set rows. te_OrgID m = i \<and> te_ID m = x}"
  by (auto simp: teamIDs_def uniqTeams_def distinct_map inj_on_def)

lemma wf_delete_teams:
  "wfTables t \<Longrightarrow> wfTables (t\<lparr>team_members :=
      deleteWhere (\<lambda>p. \<exists>m \<in> set (teams t). te_OrgID m = i \<and> te_ID m = fst p) (team_members t),
    teams := deleteWhere (\<lambda>m. te_OrgID m = i) (teams t)\<rparr>)"
  apply (simp add: wfTables_def okRows_delete)
  apply (elim conjE)
  apply (erule okRows_cascade [rotated])
   apply (auto simp: teamIDs_delete_org okRows_def)
  done

lemma wf_delete_org:
  assumes "wfTables t"
  shows "wfTables (t\<lparr>orgs := deleteWhere (\<lambda>m. og_ID m = i) (orgs t),
            members := deleteWhere (\<lambda>r. mb_OrgID r = i) (members t),
            invitations := deleteWhere (\<lambda>r. iv_OrgID r = i) (invitations t),
            org_roles := deleteWhere (\<lambda>r. cu_OrgID r = i) (org_roles t),
            team_members :=
              deleteWhere (\<lambda>p. \<exists>m \<in> set (teams t). te_OrgID m = i \<and> te_ID m = fst p) (team_members t),
            teams := deleteWhere (\<lambda>m. te_OrgID m = i) (teams t)\<rparr>)"
  using wf_delete_teams [OF assms, of i]
  apply (simp add: wfTables_def orgIDs_delete hereditaryD)
  apply (elim conjE)
  using assms unfolding wfTables_def
  apply (elim conjE)
  apply (intro conjI; erule okRows_cascade [rotated]; simp)
  done

lemma wf_DeleteOrganization [db_intros]: "dbInv wfTables (DeleteOrganization i)"
  unfolding DeleteOrganization_def
  by (intro db_intros dbInv_deleteRows dbInv_stmt)
     (simp_all add: wf_delete_teams wf_delete_org, simp_all add: wfTables_def okRows_delete)

lemma wf_org_reads [db_intros]:
  "dbInv wfTables (OrganizationByID i)" "dbInv wfTables (OrganizationBySlug slug)"
  "dbInv wfTables (ListOrganizations gf)" "dbInv wfTables (MembershipOf org u)"
  "dbInv wfTables (ListMembers mf)" "dbInv wfTables (MembershipsOfUser u)"
  "dbInv wfTables (LockActiveMembersWithRole org role)" "dbInv wfTables (CountMembers org)"
  "dbInv wfTables (ActiveOrganizationOf sid)" "dbInv wfTables (InvitationByTokenHash h)"
  "dbInv wfTables (InvitationByID i)" "dbInv wfTables (ListInvitations ivf)"
  "dbInv wfTables (CountPendingInvitations org at)" "dbInv wfTables (CustomRoleByName org nm)"
  "dbInv wfTables (ListCustomRoles org)" "dbInv wfTables (TeamByID i)"
  "dbInv wfTables (ListTeams org)" "dbInv wfTables (ListTeamMembers i)"
  "dbInv wfTables (TeamsOfUser org u)"
  unfolding OrganizationByID_def OrganizationBySlug_def ListOrganizations_def MembershipOf_def
    ListMembers_def MembershipsOfUser_def LockActiveMembersWithRole_def CountMembers_def
    ActiveOrganizationOf_def InvitationByTokenHash_def InvitationByID_def ListInvitations_def
    CountPendingInvitations_def CustomRoleByName_def ListCustomRoles_def TeamByID_def
    ListTeams_def ListTeamMembers_def TeamsOfUser_def
  by (intro db_intros)+

lemma wf_SessionWithUserAndMembership [db_intros]:
  "dbInv wfTables (SessionWithUserAndMembership agg h)"
  unfolding SessionWithUserAndMembership_def by (rule dbInv_stmt) simp

lemma wf_org_inserts [db_intros]:
  "dbInv wfTables (CreateMembership m)" "dbInv wfTables (CreateInvitation iv)"
  "dbInv wfTables (CreateCustomRole cu)" "dbInv wfTables (AddTeamMember i u)"
  unfolding CreateMembership_def CreateInvitation_def CreateCustomRole_def AddTeamMember_def
  by (rule dbInv_insertRow; simp add: wfTables_def okRows_append memberRow_def)+

lemma wf_CreateTeam [db_intros]: "dbInv wfTables (CreateTeam m)"
  unfolding CreateTeam_def
proof (rule dbInv_insertRow, goal_cases)
  case (1 t)
  then show ?case
    apply (simp add: wfTables_def teamIDs_append okRows_append)
    apply (elim conjE)
    apply (erule okRows_mono; simp)
    done
qed

lemma teamIDs_delete: "teamIDs (deleteWhere (\<lambda>m. te_ID m = i) rows) = teamIDs rows - {i}"
  by (auto simp: teamIDs_def)

lemma wf_DeleteTeam [db_intros]: "dbInv wfTables (DeleteTeam i)"
  unfolding DeleteTeam_def
proof (intro db_intros dbInv_deleteRows dbInv_stmt, goal_cases)
  case (1 t)
  then show ?case by (simp add: wfTables_def okRows_delete)
next
  case (2 x t)
  then show ?case
    apply (simp add: wfTables_def teamIDs_delete okRows_delete)
    apply (elim conjE)
    apply (erule okRows_cascade [rotated]; simp)
    done
qed

lemma wf_org_deletes [db_intros]:
  "dbInv wfTables (DeleteMembership org u)" "dbInv wfTables (DeleteCustomRole org nm)"
  "dbInv wfTables (RemoveTeamMember i u)"
  unfolding DeleteMembership_def DeleteCustomRole_def RemoveTeamMember_def
  by (intro db_intros dbInv_deleteRows; simp add: wfTables_def okRows_delete)+

lemma wf_org_updates [db_intros]:
  "dbInv wfTables (UpdateMembership m)" "dbInv wfTables (SetActiveOrganization sid org)"
  "dbInv wfTables (ClearActiveOrganization org u)" "dbInv wfTables (claimInvitation h at)"
  "dbInv wfTables (SetInvitationStatus i fr to)"
  unfolding UpdateMembership_def SetActiveOrganization_def ClearActiveOrganization_def
    claimInvitation_def SetInvitationStatus_def
  by (intro db_intros dbInv_updateRows; simp add: wfTables_def okRows_update_keep uniq_defs)+

lemma wf_ConsumeInvitation [db_intros]: "dbInv wfTables (ConsumeInvitation h at)"
  unfolding ConsumeInvitation_def by (intro db_intros)

section \<open>An invitation is accepted once\<close>

definition invitationUsable :: "string \<Rightarrow> tables \<Rightarrow> bool" where
  "invitationUsable h t \<longleftrightarrow>
     (\<exists>i \<in> set (invitations t). iv_TokenHash i = h \<and> iv_Status i = InvitationPending)"

lemma pending_not_accepted [simp]: "InvitationPending \<noteq> InvitationAccepted"
  "InvitationAccepted \<noteq> InvitationPending"
  by (simp_all add: InvitationPending_def InvitationAccepted_def)

lemma claimInvitation_Inr:
  assumes "claimInvitation h at s = (Inr x, s')"
  shows "\<exists>i \<in> set (invitations (db s)). iv_TokenHash i = h \<and> iv_Status i = InvitationPending \<and> iv_ExpiresAt i > at"
    and "invitations (db s') = updateWhere
      (\<lambda>i. iv_TokenHash i = h \<and> iv_Status i = InvitationPending \<and> iv_ExpiresAt i > at)
      (\<lambda>i. i\<lparr>iv_Status := InvitationAccepted\<rparr>) (invitations (db s))"
  using assms by (auto simp: claimInvitation_def andThen_Inr sql_success countWhere_pos)

interpretation inv: one_time claimInvitation anyResult wfTables invitationUsable
proof
  show "wfTables (db s')" if "wfTables (db s)" "claimInvitation k at s = (r, s')" for s s' k at r
    using that dbInv_run wf_org_updates(4) by blast
next
  fix s s' k at x
  assume wf: "wfTables (db s)" and run: "claimInvitation k at s = (Inr x, s')"
  have uniq: "unique iv_TokenHash (invitations (db s))"
    using wf by (simp add: wfTables_def okRows_def uniqInvitations_def)
  show "invitationUsable k (db s)"
    using claimInvitation_Inr(1) [OF run] by (auto simp: invitationUsable_def)
  show "\<not> invitationUsable k (db s')"
    using claimInvitation_Inr [OF run] distinct_map_unique [OF uniq]
    by (force simp: invitationUsable_def set_updateWhere)
next
  show "\<not> invitationUsable k (db s')"
    if "claimInvitation k' at s = (r, s')" "\<not> invitationUsable k (db s)" for s s' k k' at r
    using that
    by (auto simp: claimInvitation_def updateRows_def stmt_def andThen_def requireAffected_def
        ensure_def invitationUsable_def set_updateWhere split: if_splits)
qed

text \<open>An invitation is accepted at most once, so parallel acceptances of one invitation create
  one membership.\<close>

theorem invitation_single_use:
  assumes "wfTables (db s)" and "harmless wfTables invitationUsable h cs"
  shows "wins claimInvitation anyResult h cs s \<le> 1"
  using assms by (rule inv.at_most_one_win)

definition w_orgs :: tables where
  "w_orgs = w_tables\<lparr>orgs := [\<lparr>og_ID = ''o1'', og_Name = ''Org'', og_Slug = ''org'', og_CreatedAt = 1, og_UpdatedAt = 1\<rparr>],
     invitations := [\<lparr>iv_ID = ''i1'', iv_OrgID = ''o1'', iv_EmailNormalized = ''ann@x.io'', iv_Role = ''member'',
       iv_InvitedBy = ''u1'', iv_TokenHash = ''h'', iv_Status = ''pending'', iv_ExpiresAt = 500, iv_CreatedAt = 1\<rparr>]\<rparr>"

lemma wf_w_orgs: "wfTables w_orgs"
  by (simp add: wf_eval w_orgs_def w_eval)

theorem invitation_single_use_witness:
  "wins claimInvitation anyResult ''h'' [Claim ''h'' 100, Claim ''h'' 101] (world w_orgs) \<le> 1 \<and>
   0 < wins claimInvitation anyResult ''h'' [Claim ''h'' 100] (world w_orgs)"
proof (rule conjI, goal_cases)
  case 1
  show ?case by (rule invitation_single_use) (simp_all add: wf_w_orgs harmless_def)
next
  case 2
  show ?case
    by (simp add: w_eval w_orgs_def claimInvitation_def anyResult_def anyRows_def requireAffected_def
        countWhere_def InvitationPending_def)
qed

end
