(* ===== verification/Store_Provider.thy ===== *)
theory Store_Provider
  imports One_Time
begin

text \<open>
  The tables of the OAuth provider plugin in the SQL adapter:
  \<open>internal/sqlstore/oauthprovider.go\<close>. A list column holds a list as one string with spaces, so
  a stored list is \<open>colList\<close> of the written one.
\<close>

section \<open>List columns\<close>

definition joinList :: "string list \<Rightarrow> string" where
  "joinList v = Join v '' ''"

definition splitList :: "string \<Rightarrow> string list" where
  "splitList v = (if TrimSpace v = [] then [] else Fields v)"

definition colList :: "string list \<Rightarrow> string list" where
  "colList v = splitList (joinList v)"

lemma fieldsAux_nil: "\<forall>x \<in> set s. is_space x \<Longrightarrow> fieldsAux [] s = []"
  by (induction s) auto

lemma TrimSpace_Nil: "TrimSpace s = [] \<Longrightarrow> \<forall>x \<in> set s. is_space x"
proof -
  assume a: "TrimSpace s = []"
  have "dropWhile is_space s = [] \<or> \<not> is_space (hd (dropWhile is_space s))"
    by (metis hd_dropWhile)
  moreover from a have "\<forall>x \<in> set (dropWhile is_space s). is_space x"
    by (simp add: TrimSpace_def TrimRightF_def TrimLeftF_def dropWhile_eq_Nil_conv)
  ultimately have "dropWhile is_space s = []" by (metis hd_in_set)
  then show ?thesis by (simp add: dropWhile_eq_Nil_conv)
qed

lemma splitList_Fields: "splitList v = Fields v"
  using TrimSpace_Nil [of v] fieldsAux_nil [of v] by (simp add: splitList_def Fields_def)

text \<open>A list of names without space survives the storage.\<close>

lemma colList_words:
  "\<forall>w \<in> set ws. w \<noteq> [] \<and> (\<forall>x \<in> set w. \<not> is_space x) \<Longrightarrow> colList ws = ws"
  by (simp add: colList_def joinList_def splitList_Fields Fields_words)

lemma colList_idem [simp]: "colList (colList ws) = colList ws"
  by (rule colList_words) (auto simp: colList_def splitList_Fields dest: Fields_words_nonempty)

section \<open>Keys and clients\<close>

definition CreateOAuthKey :: "OAuthKey \<Rightarrow> (sys, unit) oper" where
  "CreateOAuthKey k = insertRow op_keys op_keys_update (unique ok_ID) (\<lambda>t. True) k"

definition ListOAuthKeys :: "(sys, OAuthKey list) oper" where
  "ListOAuthKeys = select (\<lambda>t. orderByDesc (\<lambda>k. (ok_CreatedAt k, ok_ID k)) (op_keys t))"

definition RetireOAuthKeys :: "string \<Rightarrow> time \<Rightarrow> (sys, unit) oper" where
  "RetireOAuthKeys i at =
     andThen (updateRows op_keys op_keys_update anyRows (\<lambda>k. ok_ID k \<noteq> i \<and> ok_RetiredAt k = None)
                (\<lambda>k. k\<lparr>ok_RetiredAt := Some at\<rparr>))
       (\<lambda>_. ret ())"

definition clientRow :: "OAuthClient \<Rightarrow> OAuthClient" where
  "clientRow c = c\<lparr>oc_RedirectURIs := colList (oc_RedirectURIs c),
                   oc_GrantTypes := colList (oc_GrantTypes c), oc_Scopes := colList (oc_Scopes c)\<rparr>"

definition CreateOAuthClient :: "OAuthClient \<Rightarrow> (sys, unit) oper" where
  "CreateOAuthClient c =
     insertRow op_clients op_clients_update uniqClients
       (\<lambda>t. refOpt (oc_OwnerUserID c) (userIDs (users t))) (clientRow c)"

definition OAuthClientByClientID :: "string \<Rightarrow> (sys, OAuthClient) oper" where
  "OAuthClientByClientID i = selectOne op_clients (\<lambda>c. oc_ClientID c = i)"

definition UpdateOAuthClient :: "OAuthClient \<Rightarrow> (sys, unit) oper" where
  "UpdateOAuthClient m =
     andThen (updateRows op_clients op_clients_update anyRows (\<lambda>c. oc_ClientID c = oc_ClientID m)
                (\<lambda>c. c\<lparr>oc_SecretHash := oc_SecretHash m, oc_Name := oc_Name m,
                       oc_LogoURI := oc_LogoURI m, oc_RedirectURIs := colList (oc_RedirectURIs m),
                       oc_GrantTypes := colList (oc_GrantTypes m), oc_Scopes := colList (oc_Scopes m),
                       oc_TokenEndpointAuthMethod := oc_TokenEndpointAuthMethod m,
                       oc_DPoPRequired := oc_DPoPRequired m,
                       oc_RegistrationTokenHash := oc_RegistrationTokenHash m,
                       oc_UpdatedAt := oc_UpdatedAt m\<rparr>))
       requireAffected"

definition DeleteOAuthClient :: "string \<Rightarrow> (sys, unit) oper" where
  "DeleteOAuthClient i =
     andThen (deleteRows op_clients op_clients_update (\<lambda>c. oc_ClientID c = i)) requireAffected"

definition ListOAuthClients :: "string \<Rightarrow> (sys, OAuthClient list) oper" where
  "ListOAuthClients owner =
     select (\<lambda>t. orderByDesc (\<lambda>c. (oc_CreatedAt c, oc_ID c))
       (if owner \<noteq> [] then filter (\<lambda>c. oc_OwnerUserID c = Some owner) (op_clients t) else op_clients t))"

section \<open>Requests, grants and codes\<close>

definition requestRow :: "OAuthAuthorizationRequest \<Rightarrow> OAuthAuthorizationRequest" where
  "requestRow a = a\<lparr>or_Scopes := colList (or_Scopes a), or_Resources := colList (or_Resources a),
                    or_Prompt := colList (or_Prompt a)\<rparr>"

definition CreateOAuthRequest :: "OAuthAuthorizationRequest \<Rightarrow> (sys, unit) oper" where
  "CreateOAuthRequest a =
     insertRow op_requests op_requests_update (unique or_ID) (\<lambda>t. True) (requestRow a)"

definition OAuthRequestByID :: "string \<Rightarrow> (sys, OAuthAuthorizationRequest) oper" where
  "OAuthRequestByID i = selectOne op_requests (\<lambda>a. or_ID a = i)"

definition claimRequest :: "string \<Rightarrow> time \<Rightarrow> (sys, unit) oper" where
  "claimRequest i at =
     andThen (updateRows op_requests op_requests_update anyRows
                (\<lambda>a. or_ID a = i \<and> or_ConsumedAt a = None \<and> or_ExpiresAt a > at)
                (\<lambda>a. a\<lparr>or_ConsumedAt := Some at\<rparr>))
       requireAffected"

definition ConsumeOAuthRequest :: "string \<Rightarrow> time \<Rightarrow> (sys, OAuthAuthorizationRequest) oper" where
  "ConsumeOAuthRequest i at = andThen (claimRequest i at) (\<lambda>_. OAuthRequestByID i)"

definition grantRow :: "OAuthGrant \<Rightarrow> OAuthGrant" where
  "grantRow g = g\<lparr>gr_Scopes := colList (gr_Scopes g), gr_Resources := colList (gr_Resources g)\<rparr>"

definition CreateOAuthGrant :: "OAuthGrant \<Rightarrow> (sys, unit) oper" where
  "CreateOAuthGrant g =
     insertRow op_grants op_grants_update (unique gr_ID)
       (\<lambda>t. refOpt (gr_UserID g) (userIDs (users t))) (grantRow g)"

definition OAuthGrantByID :: "string \<Rightarrow> (sys, OAuthGrant) oper" where
  "OAuthGrantByID i = selectOne op_grants (\<lambda>g. gr_ID g = i)"

text \<open>\<open>revokeGrantRows\<close>: access tokens, refresh tokens, then the grants. Three statements.\<close>

definition selectedGrant :: "(OAuthGrant \<Rightarrow> bool) \<Rightarrow> tables \<Rightarrow> string \<Rightarrow> bool" where
  "selectedGrant p t i \<longleftrightarrow> (\<exists>g \<in> set (op_grants t). p g \<and> gr_ID g = i)"

definition revokeGrantRows :: "(OAuthGrant \<Rightarrow> bool) \<Rightarrow> time \<Rightarrow> (sys, unit) oper" where
  "revokeGrantRows p at =
     andThen (stmt (\<lambda>t. (Inr (), op_access_update (updateWhere
          (\<lambda>a. at_RevokedAt a = None \<and> selectedGrant p t (at_GrantID a))
          (\<lambda>a. a\<lparr>at_RevokedAt := Some at\<rparr>)) t))) (\<lambda>_.
     andThen (stmt (\<lambda>t. (Inr (), op_refresh_update (updateWhere
          (\<lambda>r. rt_RevokedAt r = None \<and> selectedGrant p t (rt_GrantID r))
          (\<lambda>r. r\<lparr>rt_RevokedAt := Some at\<rparr>)) t))) (\<lambda>_.
     andThen (updateRows op_grants op_grants_update anyRows (\<lambda>g. gr_RevokedAt g = None \<and> p g)
                (\<lambda>g. g\<lparr>gr_RevokedAt := Some at\<rparr>))
       (\<lambda>_. ret ())))"

definition RevokeOAuthGrant :: "string \<Rightarrow> time \<Rightarrow> (sys, unit) oper" where
  "RevokeOAuthGrant i at = revokeGrantRows (\<lambda>g. gr_ID g = i) at"

definition RevokeOAuthGrantsOfUser :: "string \<Rightarrow> time \<Rightarrow> (sys, unit) oper" where
  "RevokeOAuthGrantsOfUser u at = revokeGrantRows (\<lambda>g. gr_UserID g = Some u) at"

definition RevokeOAuthGrantsOfConsent :: "string \<Rightarrow> string \<Rightarrow> time \<Rightarrow> (sys, unit) oper" where
  "RevokeOAuthGrantsOfConsent u c at =
     revokeGrantRows (\<lambda>g. gr_UserID g = Some u \<and> gr_ClientID g = c) at"

definition codeRow :: "OAuthCode \<Rightarrow> OAuthCode" where
  "codeRow c = c\<lparr>co_Scopes := colList (co_Scopes c), co_Resources := colList (co_Resources c)\<rparr>"

definition CreateOAuthCode :: "OAuthCode \<Rightarrow> (sys, unit) oper" where
  "CreateOAuthCode c =
     insertRow op_codes op_codes_update uniqCodes (\<lambda>t. co_GrantID c \<in> grantIDs (op_grants t)) (codeRow c)"

definition OAuthCodeByHash :: "string \<Rightarrow> (sys, OAuthCode) oper" where
  "OAuthCodeByHash h = selectOne op_codes (\<lambda>c. co_CodeHash c = h)"

definition claimCode :: "string \<Rightarrow> time \<Rightarrow> (sys, unit) oper" where
  "claimCode h at =
     andThen (updateRows op_codes op_codes_update anyRows
                (\<lambda>c. co_CodeHash c = h \<and> co_ConsumedAt c = None \<and> co_ExpiresAt c > at)
                (\<lambda>c. c\<lparr>co_ConsumedAt := Some at\<rparr>))
       requireAffected"

definition ConsumeOAuthCode :: "string \<Rightarrow> time \<Rightarrow> (sys, OAuthCode) oper" where
  "ConsumeOAuthCode h at = andThen (claimCode h at) (\<lambda>_. OAuthCodeByHash h)"

section \<open>Tokens\<close>

definition accessRow :: "OAuthAccessToken \<Rightarrow> OAuthAccessToken" where
  "accessRow a = a\<lparr>at_Scopes := colList (at_Scopes a)\<rparr>"

definition CreateOAuthAccessToken :: "OAuthAccessToken \<Rightarrow> (sys, unit) oper" where
  "CreateOAuthAccessToken a =
     insertRow op_access op_access_update (unique at_ID)
       (\<lambda>t. at_GrantID a \<in> grantIDs (op_grants t)) (accessRow a)"

definition OAuthAccessTokenByID :: "string \<Rightarrow> (sys, OAuthAccessToken) oper" where
  "OAuthAccessTokenByID i = selectOne op_access (\<lambda>a. at_ID a = i)"

definition RevokeOAuthAccessToken :: "string \<Rightarrow> time \<Rightarrow> (sys, unit) oper" where
  "RevokeOAuthAccessToken i at =
     andThen (updateRows op_access op_access_update anyRows
                (\<lambda>a. at_ID a = i \<and> at_RevokedAt a = None) (\<lambda>a. a\<lparr>at_RevokedAt := Some at\<rparr>))
       (\<lambda>_. ret ())"

definition refreshRow :: "OAuthRefreshToken \<Rightarrow> OAuthRefreshToken" where
  "refreshRow r = r\<lparr>rt_Scopes := colList (rt_Scopes r), rt_Resources := colList (rt_Resources r)\<rparr>"

definition CreateOAuthRefreshToken :: "OAuthRefreshToken \<Rightarrow> (sys, unit) oper" where
  "CreateOAuthRefreshToken r =
     insertRow op_refresh op_refresh_update uniqRefresh
       (\<lambda>t. rt_GrantID r \<in> grantIDs (op_grants t)) (refreshRow r)"

definition OAuthRefreshTokenByHash :: "string \<Rightarrow> (sys, OAuthRefreshToken) oper" where
  "OAuthRefreshTokenByHash h = selectOne op_refresh (\<lambda>r. rt_TokenHash r = h)"

definition OAuthRefreshTokenByID :: "string \<Rightarrow> (sys, OAuthRefreshToken) oper" where
  "OAuthRefreshTokenByID i = selectOne op_refresh (\<lambda>r. rt_ID r = i)"

definition RotateOAuthRefreshToken :: "string \<Rightarrow> string \<Rightarrow> time \<Rightarrow> (sys, unit) oper" where
  "RotateOAuthRefreshToken i successor at =
     andThen (updateRows op_refresh op_refresh_update anyRows
                (\<lambda>r. rt_ID r = i \<and> rt_RotatedAt r = None \<and> rt_RevokedAt r = None)
                (\<lambda>r. r\<lparr>rt_RotatedAt := Some at, rt_SuccessorID := Some successor\<rparr>))
       requireAffected"

section \<open>Consents, proofs and the cleanup\<close>

definition consentRow :: "OAuthConsent \<Rightarrow> OAuthConsent" where
  "consentRow c = c\<lparr>cs_Scopes := colList (cs_Scopes c), cs_Resources := colList (cs_Resources c)\<rparr>"

definition UpsertOAuthConsent :: "OAuthConsent \<Rightarrow> (sys, unit) oper" where
  "UpsertOAuthConsent c =
     andThen (updateRows op_consents op_consents_update anyRows
                (\<lambda>r. cs_UserID r = cs_UserID c \<and> cs_ClientID r = cs_ClientID c)
                (\<lambda>r. r\<lparr>cs_Scopes := colList (cs_Scopes c), cs_Resources := colList (cs_Resources c),
                       cs_UpdatedAt := cs_UpdatedAt c\<rparr>))
       (\<lambda>n. if n \<noteq> 0 then ret ()
            else insertRow op_consents op_consents_update uniqConsents
                   (\<lambda>t. cs_UserID c \<in> userIDs (users t)) (consentRow c))"

definition OAuthConsent_get :: "string \<Rightarrow> string \<Rightarrow> (sys, OAuthConsent) oper" where
  "OAuthConsent_get u c = selectOne op_consents (\<lambda>r. cs_UserID r = u \<and> cs_ClientID r = c)"

definition ListOAuthConsents :: "string \<Rightarrow> (sys, OAuthConsent list) oper" where
  "ListOAuthConsents u =
     select (\<lambda>t. orderByDesc (\<lambda>r. (cs_CreatedAt r, cs_ID r)) (filter (\<lambda>r. cs_UserID r = u) (op_consents t)))"

definition DeleteOAuthConsent :: "string \<Rightarrow> string \<Rightarrow> (sys, unit) oper" where
  "DeleteOAuthConsent u c =
     andThen (deleteRows op_consents op_consents_update (\<lambda>r. cs_UserID r = u \<and> cs_ClientID r = c))
       requireAffected"

definition ClaimOAuthProof :: "string \<Rightarrow> time \<Rightarrow> (sys, unit) oper" where
  "ClaimOAuthProof i expires = insertRow op_proofs op_proofs_update (unique fst) (\<lambda>t. True) (i, expires)"

definition DeleteExpiredOAuthRows :: "time \<Rightarrow> (sys, nat) oper" where
  "DeleteExpiredOAuthRows before =
     andThen (deleteRows op_requests op_requests_update (\<lambda>a. or_ExpiresAt a < before)) (\<lambda>n1.
     andThen (deleteRows op_codes op_codes_update (\<lambda>a. co_ExpiresAt a < before)) (\<lambda>n2.
     andThen (deleteRows op_access op_access_update (\<lambda>a. at_ExpiresAt a < before)) (\<lambda>n3.
     andThen (deleteRows op_refresh op_refresh_update (\<lambda>a. rt_ExpiresAt a < before)) (\<lambda>n4.
     andThen (deleteRows op_proofs op_proofs_update (\<lambda>a. snd a < before)) (\<lambda>n5.
     ret (n1 + n2 + n3 + n4 + n5))))))"

section \<open>Every operation keeps the constraints of the schema\<close>

lemma wf_op_reads [db_intros]:
  "dbInv wfTables ListOAuthKeys" "dbInv wfTables (OAuthClientByClientID i)"
  "dbInv wfTables (ListOAuthClients ow)" "dbInv wfTables (OAuthRequestByID i)"
  "dbInv wfTables (OAuthGrantByID i)" "dbInv wfTables (OAuthCodeByHash h)"
  "dbInv wfTables (OAuthAccessTokenByID i)" "dbInv wfTables (OAuthRefreshTokenByHash h)"
  "dbInv wfTables (OAuthRefreshTokenByID i)" "dbInv wfTables (OAuthConsent_get u c)"
  "dbInv wfTables (ListOAuthConsents u)"
  unfolding ListOAuthKeys_def OAuthClientByClientID_def ListOAuthClients_def OAuthRequestByID_def
    OAuthGrantByID_def OAuthCodeByHash_def OAuthAccessTokenByID_def OAuthRefreshTokenByHash_def
    OAuthRefreshTokenByID_def OAuthConsent_get_def ListOAuthConsents_def
  by (rule db_intros)+

lemma wf_op_inserts [db_intros]:
  "dbInv wfTables (CreateOAuthKey k)" "dbInv wfTables (CreateOAuthClient cl)"
  "dbInv wfTables (CreateOAuthRequest a)" "dbInv wfTables (CreateOAuthCode co)"
  "dbInv wfTables (CreateOAuthAccessToken ac)" "dbInv wfTables (CreateOAuthRefreshToken r)"
  "dbInv wfTables (ClaimOAuthProof i ex)"
  unfolding CreateOAuthKey_def CreateOAuthClient_def CreateOAuthRequest_def CreateOAuthCode_def
    CreateOAuthAccessToken_def CreateOAuthRefreshToken_def ClaimOAuthProof_def
  by (rule dbInv_insertRow; simp add: wfTables_def okRows_append clientRow_def codeRow_def
      accessRow_def refreshRow_def)+

lemma grantIDs_append: "grantIDs (rows @ [r]) = insert (gr_ID r) (grantIDs rows)"
  by (auto simp: grantIDs_def)

lemma wf_CreateOAuthGrant [db_intros]: "dbInv wfTables (CreateOAuthGrant g)"
  unfolding CreateOAuthGrant_def
proof (rule dbInv_insertRow, goal_cases)
  case (1 t)
  then show ?case
    apply (simp add: wfTables_def grantIDs_append okRows_append grantRow_def)
    apply (elim conjE)
    apply (intro conjI; erule okRows_mono; simp)
    done
qed

lemma wf_op_updates [db_intros]:
  "dbInv wfTables (RetireOAuthKeys i at)" "dbInv wfTables (UpdateOAuthClient m)"
  "dbInv wfTables (claimRequest i at)" "dbInv wfTables (claimCode h at)"
  "dbInv wfTables (RevokeOAuthAccessToken i at)" "dbInv wfTables (RotateOAuthRefreshToken i su at)"
  unfolding RetireOAuthKeys_def UpdateOAuthClient_def claimRequest_def claimCode_def
    RevokeOAuthAccessToken_def RotateOAuthRefreshToken_def
  by (intro db_intros dbInv_updateRows; simp add: wfTables_def okRows_update_keep uniq_defs)+

lemma grantIDs_update: "(\<And>g. gr_ID (h g) = gr_ID g) \<Longrightarrow> grantIDs (updateWhere p h rows) = grantIDs rows"
  by (simp add: grantIDs_def image_updateWhere)

lemma wf_revokeGrantRows [db_intros]: "dbInv wfTables (revokeGrantRows p at)"
  unfolding revokeGrantRows_def
  by (intro db_intros dbInv_updateRows dbInv_stmt;
      simp add: wfTables_def okRows_update_keep uniq_defs grantIDs_update)

lemma wf_op_revokes [db_intros]:
  "dbInv wfTables (RevokeOAuthGrant i at)" "dbInv wfTables (RevokeOAuthGrantsOfUser u at)"
  "dbInv wfTables (RevokeOAuthGrantsOfConsent u c at)"
  unfolding RevokeOAuthGrant_def RevokeOAuthGrantsOfUser_def RevokeOAuthGrantsOfConsent_def
  by (rule db_intros)+

lemma wf_op_consumes [db_intros]:
  "dbInv wfTables (ConsumeOAuthRequest i at)" "dbInv wfTables (ConsumeOAuthCode h at)"
  unfolding ConsumeOAuthRequest_def ConsumeOAuthCode_def by (intro db_intros)+

lemma wf_op_deletes [db_intros]:
  "dbInv wfTables (DeleteOAuthClient i)" "dbInv wfTables (DeleteOAuthConsent u c)"
  "dbInv wfTables (DeleteExpiredOAuthRows b)"
  unfolding DeleteOAuthClient_def DeleteOAuthConsent_def DeleteExpiredOAuthRows_def
  by (intro db_intros dbInv_deleteRows; simp add: wfTables_def okRows_delete unique_deleteWhere)+

lemma wf_UpsertOAuthConsent [db_intros]: "dbInv wfTables (UpsertOAuthConsent c)"
  unfolding UpsertOAuthConsent_def
  by (intro db_intros dbInv_updateRows dbInv_insertRow;
      simp add: wfTables_def okRows_update_keep okRows_append uniq_defs consentRow_def)

section \<open>Single use and revocation\<close>

definition codeUsable :: "string \<Rightarrow> tables \<Rightarrow> bool" where
  "codeUsable h t \<longleftrightarrow> (\<exists>c \<in> set (op_codes t). co_CodeHash c = h \<and> co_ConsumedAt c = None)"

lemma claimCode_Inr:
  assumes "claimCode h at s = (Inr x, s')"
  shows "\<exists>c \<in> set (op_codes (db s)). co_CodeHash c = h \<and> co_ConsumedAt c = None \<and> co_ExpiresAt c > at"
    and "op_codes (db s') = updateWhere
      (\<lambda>c. co_CodeHash c = h \<and> co_ConsumedAt c = None \<and> co_ExpiresAt c > at)
      (\<lambda>c. c\<lparr>co_ConsumedAt := Some at\<rparr>) (op_codes (db s))"
  using assms by (auto simp: claimCode_def andThen_Inr sql_success countWhere_pos)

interpretation code: one_time claimCode anyResult wfTables codeUsable
proof
  show "wfTables (db s')" if "wfTables (db s)" "claimCode k at s = (r, s')" for s s' k at r
    using that dbInv_run wf_op_updates(4) by blast
next
  fix s s' k at x
  assume wf: "wfTables (db s)" and run: "claimCode k at s = (Inr x, s')"
  have uniq: "unique co_CodeHash (op_codes (db s))"
    using wf by (simp add: wfTables_def okRows_def uniqCodes_def)
  show "codeUsable k (db s)" using claimCode_Inr(1) [OF run] by (auto simp: codeUsable_def)
  show "\<not> codeUsable k (db s')"
    using claimCode_Inr [OF run] distinct_map_unique [OF uniq]
    by (force simp: codeUsable_def set_updateWhere)
next
  show "\<not> codeUsable k (db s')"
    if "claimCode k' at s = (r, s')" "\<not> codeUsable k (db s)" for s s' k k' at r
    using that
    by (auto simp: claimCode_def updateRows_def stmt_def andThen_def requireAffected_def
        ensure_def codeUsable_def set_updateWhere split: if_splits)
qed

text \<open>A refresh token is rotated once, and never after its revocation.\<close>

definition claimRotation :: "string \<Rightarrow> string \<times> time \<Rightarrow> (sys, unit) oper" where
  "claimRotation i q = RotateOAuthRefreshToken i (fst q) (snd q)"

definition rotationUsable :: "string \<Rightarrow> tables \<Rightarrow> bool" where
  "rotationUsable i t \<longleftrightarrow>
     (\<exists>r \<in> set (op_refresh t). rt_ID r = i \<and> rt_RotatedAt r = None \<and> rt_RevokedAt r = None)"

lemma claimRotation_db:
  assumes "claimRotation i q s = (r, s')"
  shows "op_refresh (db s') = op_refresh (db s) \<or>
    op_refresh (db s') = updateWhere
      (\<lambda>r. rt_ID r = i \<and> rt_RotatedAt r = None \<and> rt_RevokedAt r = None)
      (\<lambda>r. r\<lparr>rt_RotatedAt := Some (snd q), rt_SuccessorID := Some (fst q)\<rparr>) (op_refresh (db s))"
  using assms
  by (auto simp: claimRotation_def RotateOAuthRefreshToken_def updateRows_def stmt_def andThen_def
      requireAffected_def ensure_def anyRows_def split: if_splits)

lemma claimRotation_Inr:
  assumes "claimRotation i q s = (Inr x, s')"
  shows "rotationUsable i (db s)"
    and "op_refresh (db s') = updateWhere
      (\<lambda>r. rt_ID r = i \<and> rt_RotatedAt r = None \<and> rt_RevokedAt r = None)
      (\<lambda>r. r\<lparr>rt_RotatedAt := Some (snd q), rt_SuccessorID := Some (fst q)\<rparr>) (op_refresh (db s))"
  using assms
  by (auto simp: claimRotation_def RotateOAuthRefreshToken_def andThen_Inr sql_success
      countWhere_pos rotationUsable_def)

interpretation rot: one_time claimRotation anyResult wfTables rotationUsable
proof
  show "wfTables (db s')" if "wfTables (db s)" "claimRotation k at s = (r, s')" for s s' k at r
    by (rule dbInv_run [OF wf_op_updates(6) that(1) that(2) [unfolded claimRotation_def]])
next
  fix s s' k at x
  assume run: "claimRotation k at s = (Inr x, s')"
  show "rotationUsable k (db s)" by (rule claimRotation_Inr(1) [OF run])
  show "\<not> rotationUsable k (db s')"
    unfolding rotationUsable_def claimRotation_Inr(2) [OF run]
    by (intro notI, elim bexE conjE in_updateWhereE) simp_all
next
  fix s s' k k' at r
  assume run: "claimRotation k' at s = (r, s')" and u: "\<not> rotationUsable k (db s)"
  show "\<not> rotationUsable k (db s')"
    using claimRotation_db [OF run]
  proof
    assume "op_refresh (db s') = op_refresh (db s)"
    then show ?thesis using u by (simp add: rotationUsable_def)
  next
    assume eq: "op_refresh (db s') = updateWhere
      (\<lambda>r. rt_ID r = k' \<and> rt_RotatedAt r = None \<and> rt_RevokedAt r = None)
      (\<lambda>r. r\<lparr>rt_RotatedAt := Some (snd at), rt_SuccessorID := Some (fst at)\<rparr>) (op_refresh (db s))"
    show ?thesis
      using u unfolding rotationUsable_def eq
      by (intro notI, elim bexE conjE in_updateWhereE) auto
  qed
qed

text \<open>An authorization code is exchanged at most once.\<close>

theorem code_single_use:
  assumes "wfTables (db s)" and "harmless wfTables codeUsable h cs"
  shows "wins claimCode anyResult h cs s \<le> 1"
  using assms by (rule code.at_most_one_win)

text \<open>Two rotations of one refresh token never both succeed, so one presented token has at
  most one successor.\<close>

theorem refresh_rotation_single_use:
  assumes "wfTables (db s)" and "harmless wfTables rotationUsable p cs"
  shows "wins claimRotation anyResult p cs s \<le> 1"
  using assms by (rule rot.at_most_one_win)

text \<open>A live token of a grant, and the reading that a revocation wants to exclude.\<close>

definition grantDead :: "(OAuthGrant \<Rightarrow> bool) \<Rightarrow> tables \<Rightarrow> bool" where
  "grantDead p t \<longleftrightarrow>
     (\<forall>g \<in> set (op_grants t). p g \<longrightarrow> gr_RevokedAt g \<noteq> None \<and>
        (\<forall>a \<in> set (op_access t). at_GrantID a = gr_ID g \<longrightarrow> at_RevokedAt a \<noteq> None) \<and>
        (\<forall>r \<in> set (op_refresh t). rt_GrantID r = gr_ID g \<longrightarrow> rt_RevokedAt r \<noteq> None))"

text \<open>A successful revocation of grants leaves no live grant of the selection and no live
  access or refresh token of such a grant.\<close>

theorem revoke_grants_complete:
  assumes "(\<And>g at. p (g\<lparr>gr_RevokedAt := at\<rparr>) = p g)" and "revokeGrantRows p at s = (Inr x, s')"
  shows "grantDead p (db s')"
  using assms(2)
  by (auto simp: revokeGrantRows_def andThen_Inr stmt_Inr sql_success ret_Inr grantDead_def
      set_updateWhere selectedGrant_def assms(1))

definition w_grant :: OAuthGrant where
  "w_grant = \<lparr>gr_ID = ''g1'', gr_ClientID = ''c1'', gr_UserID = Some ''u1'', gr_Scopes = [''openid''],
     gr_Resources = [], gr_AuthTime = None, gr_SessionID = None, gr_CreatedAt = 1, gr_RevokedAt = None\<rparr>"

definition w_provider :: tables where
  "w_provider = w_tables\<lparr>op_grants := [w_grant],
     op_codes := [\<lparr>co_ID = ''x1'', co_CodeHash = ''h'', co_GrantID = ''g1'', co_ClientID = ''c1'',
       co_RedirectURI = ''r'', co_CodeChallenge = [], co_Nonce = [], co_Scopes = [], co_Resources = [],
       co_DPoPJKT = [], co_CreatedAt = 1, co_ExpiresAt = 500, co_ConsumedAt = None\<rparr>],
     op_access := [\<lparr>at_ID = ''a1'', at_GrantID = ''g1'', at_ClientID = ''c1'', at_UserID = Some ''u1'',
       at_Scopes = [], at_Audience = [], at_JKT = [], at_CreatedAt = 1, at_ExpiresAt = 500, at_RevokedAt = None\<rparr>],
     op_refresh := [\<lparr>rt_ID = ''r1'', rt_TokenHash = ''rh'', rt_GrantID = ''g1'', rt_ClientID = ''c1'',
       rt_UserID = Some ''u1'', rt_Scopes = [], rt_Resources = [], rt_JKT = [], rt_CreatedAt = 1,
       rt_ExpiresAt = 500, rt_RotatedAt = None, rt_SuccessorID = None, rt_RevokedAt = None\<rparr>]\<rparr>"

lemma wf_w_provider: "wfTables w_provider"
  by (simp add: wf_eval w_provider_def w_grant_def w_eval)

theorem code_single_use_witness:
  "wins claimCode anyResult ''h'' [Claim ''h'' 100, Claim ''h'' 101] (world w_provider) \<le> 1 \<and>
   0 < wins claimCode anyResult ''h'' [Claim ''h'' 100] (world w_provider)"
proof (rule conjI, goal_cases)
  case 1
  show ?case by (rule code_single_use) (simp_all add: wf_w_provider harmless_def)
next
  case 2
  show ?case
    by (simp add: w_eval w_provider_def claimCode_def anyResult_def anyRows_def requireAffected_def
        countWhere_def)
qed

theorem refresh_rotation_single_use_witness:
  "wins claimRotation anyResult ''r1'' [Claim ''r1'' (''r2'', 100), Claim ''r1'' (''r3'', 100)]
     (world w_provider) \<le> 1 \<and>
   0 < wins claimRotation anyResult ''r1'' [Claim ''r1'' (''r2'', 100)] (world w_provider)"
proof (rule conjI, goal_cases)
  case 1
  show ?case by (rule refresh_rotation_single_use) (simp_all add: wf_w_provider harmless_def)
next
  case 2
  show ?case
    by (simp add: w_eval w_provider_def claimRotation_def RotateOAuthRefreshToken_def anyResult_def
        anyRows_def requireAffected_def countWhere_def)
qed

theorem revoke_grants_complete_witness:
  "grantDead (\<lambda>g. gr_ID g = ''g1'')
     (db (snd (revokeGrantRows (\<lambda>g. gr_ID g = ''g1'') 100 (world w_provider))))"
proof -
  obtain s' where "revokeGrantRows (\<lambda>g. gr_ID g = ''g1'') 100 (world w_provider) = (Inr (), s')"
    by (simp add: revokeGrantRows_def w_eval w_provider_def anyRows_def)
  then show ?thesis using revoke_grants_complete [of "\<lambda>g. gr_ID g = ''g1''" 100 "world w_provider" "()" s']
    by simp
qed

end
