(* ===== verification/Rate_Limit.thy ===== *)
theory Rate_Limit
  imports Store_Core "HOL-Library.AList"
begin

text \<open>
  The two rate limiters: the in-process limiter of \<open>ratelimit/ratelimit.go\<close> and the limiter over
  the database counters of \<open>ratelimit/storelimit/storelimit.go\<close>. The SHA-256 digest and
  \<open>netip.ParseAddr\<close> with the text form of an IPv6 prefix are parameters.
\<close>

section \<open>Keys and rules\<close>

definition OpSignIn :: string where "OpSignIn = ''sign-in''"
definition OpSignUp :: string where "OpSignUp = ''sign-up''"
definition OpPasswordForgot :: string where "OpPasswordForgot = ''password-forgot''"
definition OpEmailVerify :: string where "OpEmailVerify = ''email-verification-send''"
definition OpMagicLinkRequest :: string where "OpMagicLinkRequest = ''magic-link-request''"
definition OpPasswordChange :: string where "OpPasswordChange = ''password-change''"
definition OpEmailChange :: string where "OpEmailChange = ''email-change''"
definition OpUserDelete :: string where "OpUserDelete = ''user-delete''"
definition OpTOTP :: string where "OpTOTP = ''totp''"

record Key =
  rk_Operation :: string
  rk_IP :: string
  rk_Email :: string
  rk_UserID :: string
  rk_Provider :: string

definition keyOf :: "string \<Rightarrow> string \<Rightarrow> string \<Rightarrow> string \<Rightarrow> Key" where
  "keyOf operation ip email uid =
     \<lparr>rk_Operation = operation, rk_IP = ip, rk_Email = email, rk_UserID = uid, rk_Provider = []\<rparr>"

section \<open>The in-process limiter\<close>

record bucket =
  bk_count :: int
  bk_start :: time

type_synonym buckets = "(string \<times> bucket) list"

definition bucketID :: "Key \<Rightarrow> string" where
  "bucketID k = rk_Operation k @ ''|'' @ rk_IP k @ ''|'' @ rk_Email k @ ''|'' @ rk_UserID k @ ''|'' @
     rk_Provider k"

text \<open>\<open>Memory.Allow\<close> on the map of buckets. The mutex makes one call one step.\<close>

definition Memory_Allow :: "int \<Rightarrow> duration \<Rightarrow> Key \<Rightarrow> time \<Rightarrow> buckets \<Rightarrow> bool \<times> buckets" where
  "Memory_Allow limit window k at bs =
     (let i = bucketID k in
      case map_of bs i of
        None \<Rightarrow> (True, AList.update i \<lparr>bk_count = 1, bk_start = at\<rparr> bs)
      | Some b \<Rightarrow>
          if at - bk_start b \<ge> window then (True, AList.update i \<lparr>bk_count = 1, bk_start = at\<rparr> bs)
          else if bk_count b \<ge> limit then (False, bs)
          else (True, AList.update i (b\<lparr>bk_count := bk_count b + 1\<rparr>) bs))"

text \<open>The number of allowed attempts of one key in a run of attempts.\<close>

fun allowedCount :: "int \<Rightarrow> duration \<Rightarrow> string \<Rightarrow> (Key \<times> time) list \<Rightarrow> buckets \<Rightarrow> int" where
  "allowedCount limit window i [] bs = 0"
| "allowedCount limit window i ((k, at) # rest) bs =
     (case Memory_Allow limit window k at bs of
        (ok, bs') \<Rightarrow> (if bucketID k = i \<and> ok then 1 else 0) + allowedCount limit window i rest bs')"

lemma Memory_other:
  "bucketID k \<noteq> i \<Longrightarrow> Memory_Allow limit window k at bs = (ok, bs') \<Longrightarrow> map_of bs' i = map_of bs i"
  by (auto simp: Memory_Allow_def Let_def update_conv' split: option.splits if_splits)

lemma allowed_in_bucket:
  assumes "map_of bs i = Some b" and "\<forall>(k, at) \<in> set run. at < bk_start b + window"
    and "0 \<le> limit"
  shows "allowedCount limit window i run bs \<le> max 0 (limit - bk_count b)"
  using assms
proof (induction run arbitrary: bs b)
  case (Cons p run)
  obtain k at where p: "p = (k, at)" by force
  have rest: "\<forall>(k, at) \<in> set run. at < bk_start b + window" using Cons.prems(2) by auto
  obtain ok bs' where run: "Memory_Allow limit window k at bs = (ok, bs')" by force
  show ?case
  proof (cases "bucketID k = i")
    case False
    then have "map_of bs' i = Some b" using Memory_other [OF False run] Cons.prems(1) by simp
    then show ?thesis using Cons.IH rest Cons.prems(3) p run False by simp
  next
    case True
    have at: "\<not> at - bk_start b \<ge> window" using Cons.prems(2) p by auto
    show ?thesis
    proof (cases "bk_count b \<ge> limit")
      case full: True
      then have "ok = False" "bs' = bs"
        using run True Cons.prems(1) at by (auto simp: Memory_Allow_def Let_def)
      then show ?thesis using Cons.IH [OF Cons.prems(1) rest Cons.prems(3)] p run by simp
    next
      case room: False
      let ?b = "b\<lparr>bk_count := bk_count b + 1\<rparr>"
      have "ok = True" "map_of bs' i = Some ?b"
        using run True Cons.prems(1) at room by (auto simp: Memory_Allow_def Let_def update_conv')
      moreover from this have "allowedCount limit window i run bs' \<le> max 0 (limit - bk_count ?b)"
        using rest Cons.prems(3) by (intro Cons.IH) simp_all
      ultimately show ?thesis using p run True room by simp
    qed
  qed
qed simp

definition budget :: "int \<Rightarrow> string \<Rightarrow> buckets \<Rightarrow> int" where
  "budget limit i bs =
     (case map_of bs i of None \<Rightarrow> limit | Some b \<Rightarrow> max 0 (limit - bk_count b) + limit)"

lemma allowed_budget:
  assumes "1 \<le> limit" and "\<forall>(k, at) \<in> set run. T \<le> at \<and> at < T + window"
  shows "allowedCount limit window i run bs \<le> budget limit i bs"
  using assms(2)
proof (induction run arbitrary: bs)
  case Nil
  then show ?case using assms(1) by (simp add: budget_def split: option.split)
next
  case (Cons p run)
  obtain k at where p: "p = (k, at)" by force
  have rest: "\<forall>(k, at) \<in> set run. T \<le> at \<and> at < T + window" and T: "T \<le> at"
    using Cons.prems p by auto
  obtain ok bs' where run: "Memory_Allow limit window k at bs = (ok, bs')" by force
  note IH = Cons.IH [OF rest, of bs']
  show ?case
  proof (cases "bucketID k = i")
    case False
    then have "budget limit i bs' = budget limit i bs" using Memory_other [OF False run]
      by (simp add: budget_def)
    then show ?thesis using IH p run False by simp
  next
    case True
    consider (new) "map_of bs' i = Some \<lparr>bk_count = 1, bk_start = at\<rparr>" "limit \<le> budget limit i bs"
      | (full) "\<not> ok" "bs' = bs"
      | (room) b where "map_of bs i = Some b" "bk_count b < limit"
          "map_of bs' i = Some (b\<lparr>bk_count := bk_count b + 1\<rparr>)"
      using run True
      by (auto simp: Memory_Allow_def Let_def budget_def update_conv' split: option.splits if_splits)
    then show ?thesis
    proof cases
      case new
      have "\<forall>(k, a) \<in> set run. a < bk_start \<lparr>bk_count = 1, bk_start = at\<rparr> + window"
        using rest T by fastforce
      then have "allowedCount limit window i run bs' \<le> max 0 (limit - 1)"
        using allowed_in_bucket [OF new(1), of run window limit] assms(1) by simp
      then show ?thesis using p run True new(2) assms(1) by simp
    next
      case full
      then show ?thesis using IH p run True by simp
    next
      case room
      then have "budget limit i bs' + 1 = budget limit i bs" by (simp add: budget_def)
      then show ?thesis using IH p run True by simp
    qed
  qed
qed

text \<open>The in-process limiter bounds a burst: over any span as long as one window, one key gets
  at most twice the limit minus one attempts through, whatever the state of its bucket is.\<close>

theorem memory_burst_bound:
  assumes "1 \<le> limit"
    and "\<forall>(k, at) \<in> set run. T \<le> at \<and> at < T + window"
    and "\<forall>b. map_of bs i = Some b \<longrightarrow> 1 \<le> bk_count b"
  shows "allowedCount limit window i run bs \<le> 2 * limit - 1"
proof -
  have "budget limit i bs \<le> 2 * limit - 1"
    using assms(1,3) by (auto simp: budget_def split: option.splits)
  then show ?thesis using allowed_budget [OF assms(1,2), of i bs] by simp
qed

section \<open>The limiter over the store\<close>

datatype scope = ScopeIP | ScopeEmail | ScopeOther string

record Rule =
  ru_Operation :: string
  ru_Scope :: scope
  ru_Limit :: int
  ru_Window :: duration

record Decision =
  dc_Allowed :: bool
  dc_RetryAfter :: duration

definition DefaultSignInRules :: "Rule list" where
  "DefaultSignInRules =
     [\<lparr>ru_Operation = OpSignIn, ru_Scope = ScopeEmail, ru_Limit = 5, ru_Window = 900000000000\<rparr>,
      \<lparr>ru_Operation = OpSignIn, ru_Scope = ScopeIP, ru_Limit = 20, ru_Window = 60000000000\<rparr>]"

text \<open>The validation of \<open>New\<close>.\<close>

fun checkRules :: "Rule list \<Rightarrow> unit res" where
  "checkRules [] = Inr ()"
| "checkRules (r # rs) =
     (if ru_Operation r = [] then Inl (ErrOther ''a rule names no operation'')
      else if ru_Scope r \<noteq> ScopeIP \<and> ru_Scope r \<noteq> ScopeEmail then Inl (ErrOther ''unsupported scope'')
      else if ru_Limit r < 1 then Inl (ErrOther ''limit'')
      else if ru_Window r \<le> 0 then Inl (ErrOther ''no window'')
      else checkRules rs)"

definition storelimit_New :: "Rule list \<Rightarrow> Rule list res" where
  "storelimit_New rules =
     (if length rules = 0 then Inl (ErrOther ''at least one rule is required'')
      else case checkRules rules of Inl e \<Rightarrow> Inl e | Inr _ \<Rightarrow> Inr rules)"

text \<open>\<open>netip.Addr\<close>: the bytes of an address. A parsed address with a zone has the zone in the
  text parameter only.\<close>

datatype ipaddr = IPv4 "nat list" | IPv6 "nat list"

definition Is4In6 :: "ipaddr \<Rightarrow> bool" where
  "Is4In6 a = (case a of IPv4 _ \<Rightarrow> False
                | IPv6 bs \<Rightarrow> take 12 bs = replicate 10 0 @ [255, 255])"

definition Unmap :: "ipaddr \<Rightarrow> ipaddr" where
  "Unmap a = (case a of IPv6 bs \<Rightarrow> (if Is4In6 a then IPv4 (drop 12 bs) else a) | IPv4 _ \<Rightarrow> a)"

definition Prefix64 :: "nat list \<Rightarrow> nat list" where
  "Prefix64 bs = take 8 bs @ replicate 8 0"

definition IPKey ::
  "(string \<Rightarrow> ipaddr option) \<Rightarrow> (nat list \<Rightarrow> string) \<Rightarrow> (string \<Rightarrow> string) \<Rightarrow> string \<Rightarrow> string" where
  "IPKey parseAddr blockString digest raw =
     (let value = TrimSpace raw in
      if value = [] then []
      else case parseAddr value of
             None \<Rightarrow> digest value
           | Some addr \<Rightarrow>
               (case Unmap addr of
                  IPv4 bs \<Rightarrow> Join (map Itoa bs) ''.''
                | IPv6 bs \<Rightarrow> blockString (Prefix64 bs)))"

definition Subject ::
  "(string \<Rightarrow> string) \<Rightarrow> (string \<Rightarrow> string) \<Rightarrow> scope \<Rightarrow> Key \<Rightarrow> string" where
  "Subject ipkey digest sc k =
     (case sc of
        ScopeEmail \<Rightarrow> (let address = ToLower (TrimSpace (rk_Email k))
                       in if address = [] then [] else digest address)
      | ScopeIP \<Rightarrow> ipkey (rk_IP k)
      | ScopeOther _ \<Rightarrow> [])"

definition scopeName :: "scope \<Rightarrow> string" where
  "scopeName sc = (case sc of ScopeIP \<Rightarrow> ''ip'' | ScopeEmail \<Rightarrow> ''email'' | ScopeOther n \<Rightarrow> n)"

definition counterKey :: "Rule \<Rightarrow> string \<Rightarrow> string" where
  "counterKey r subject = ru_Operation r @ ''|'' @ scopeName (ru_Scope r) @ ''|'' @ subject"

text \<open>The loop of \<open>Decide\<close> over the rules.\<close>

fun decideRules ::
  "(scope \<Rightarrow> Key \<Rightarrow> string) \<Rightarrow> Key \<Rightarrow> time \<Rightarrow> Rule list \<Rightarrow> Decision \<Rightarrow> (sys, Decision) oper" where
  "decideRules subj k at [] d = ret d"
| "decideRules subj k at (r # rs) d =
     (if ru_Operation r \<noteq> rk_Operation k then decideRules subj k at rs d
      else let subject = subj (ru_Scope r) k in
        if subject = [] then decideRules subj k at rs d
        else andThen (CountAttempt (counterKey r subject) (ru_Window r) at) (\<lambda>(count, start).
          if count \<le> ru_Limit r then decideRules subj k at rs d
          else let retry = max 0 (start + ru_Window r - at)
               in decideRules subj k at rs
                    \<lparr>dc_Allowed = False, dc_RetryAfter = max retry (dc_RetryAfter d)\<rparr>))"

definition Decide :: "(scope \<Rightarrow> Key \<Rightarrow> string) \<Rightarrow> Rule list \<Rightarrow> Key \<Rightarrow> (sys, Decision) oper" where
  "Decide subj rules k =
     andThen now (\<lambda>at. decideRules subj k at rules \<lparr>dc_Allowed = True, dc_RetryAfter = 0\<rparr>)"

definition storelimit_Cleanup :: "time \<Rightarrow> (sys, nat) oper" where
  "storelimit_Cleanup before = CleanupRateLimits before"

text \<open>The counter after one attempt.\<close>

definition counted :: "duration \<Rightarrow> time \<Rightarrow> RateRow option \<Rightarrow> int \<times> time" where
  "counted window at row =
     (case row of None \<Rightarrow> (1, at)
      | Some r \<Rightarrow> if rl_WindowStart r \<le> at - window then (1, at) else (rl_Count r + 1, rl_WindowStart r))"

definition rateRow :: "string \<Rightarrow> tables \<Rightarrow> RateRow option" where
  "rateRow key t = find (\<lambda>r. rl_Key r = key) (rate_limits t)"

lemma find_append_new: "find p xs = None \<Longrightarrow> p x \<Longrightarrow> find p (xs @ [x]) = Some x"
  by (induction xs) (auto split: if_splits)

lemma find_update_key:
  "find (\<lambda>r. rl_Key r = key) rows = Some a \<Longrightarrow> rl_Key r' = key \<Longrightarrow>
   find (\<lambda>r. rl_Key r = key) (updateWhere (\<lambda>r. rl_Key r = key) (\<lambda>r. r') rows) = Some r'"
  by (induction rows) (auto split: if_splits)

lemma CountAttempt_Inr:
  assumes "CountAttempt key window at s = (Inr (c, start), s')"
  shows "(c, start) = counted window at (rateRow key (db s)) \<and>
    rateRow key (db s') = Some \<lparr>rl_Key = key, rl_WindowStart = start, rl_Count = c\<rparr>"
proof (cases "rateRow key (db s)")
  case None
  then show ?thesis
    using assms by (auto simp: CountAttempt_def stmt_Inr rateRow_def counted_def find_append_new)
next
  case (Some r)
  then have k: "rl_Key r = key" by (auto simp: rateRow_def dest: find_SomeD)
  have row: "find (\<lambda>r. rl_Key r = key) (rate_limits (db s)) = Some r"
    using Some by (simp add: rateRow_def)
  show ?thesis
    using assms k
    by (auto simp: CountAttempt_def stmt_Inr row Let_def rateRow_def counted_def
        find_update_key [OF row])
qed

lemma CountAttempt_total:
  "faults s = [] \<Longrightarrow> \<exists>c start s'. CountAttempt key window at s = (Inr (c, start), s') \<and> faults s' = []"
  by (auto simp: CountAttempt_def stmt_def faultNow_def tick_def Let_def split: option.split)


text \<open>The IPv6 addresses of one /64 block share one counter, so a client cannot evade the
  limit by rotating the lower half of its address; an IPv4 address inside IPv6 counts as the
  IPv4 address.\<close>

theorem ipv6_block_shares_counter:
  assumes "parse (TrimSpace a) = Some (IPv6 (p @ x))" and "parse (TrimSpace b) = Some (IPv6 (p @ y))"
    and "length p = 8" and "take 2 p \<noteq> [0, 0]" and "TrimSpace a \<noteq> []" and "TrimSpace b \<noteq> []"
  shows "IPKey parse block digest a = IPKey parse block digest b"
proof -
  have "\<not> Is4In6 (IPv6 (p @ z))" for z
    using assms(3,4) by (cases p rule: list.exhaust; cases "tl p" rule: list.exhaust)
      (auto simp: Is4In6_def numeral_eq_Suc)
  then have "Unmap (IPv6 (p @ z)) = IPv6 (p @ z)" for z by (simp add: Unmap_def)
  then show ?thesis using assms by (simp add: IPKey_def Let_def Prefix64_def)
qed

lemma dbInv_decideRules: "dbInv wfTables (decideRules subj k at rs d)"
  by (induction rs arbitrary: d) (auto simp: Let_def intro!: db_intros)

lemma wf_Decide [db_intros]: "dbInv wfTables (Decide subj rules k)"
  unfolding Decide_def by (intro db_intros dbInv_decideRules)

theorem memory_burst_bound_witness:
  "allowedCount 3 60 (bucketID (keyOf OpSignIn ''ip'' [] []))
     (map (\<lambda>i. (keyOf OpSignIn ''ip'' [] [], int i)) [0..<10]) [] \<le> 2 * 3 - 1"
  by (rule memory_burst_bound [where T = 0]) auto


theorem ipv6_block_shares_counter_witness:
  "IPKey (\<lambda>v. Some (IPv6 ([32, 1, 0, 0, 0, 0, 0, 1] @ (if v = ''a'' then [0, 0, 0, 0, 0, 0, 0, 1] else [9, 9, 9, 9, 9, 9, 9, 9]))))
     (\<lambda>bs. concat (map Itoa bs)) (\<lambda>v. v) ''a'' =
   IPKey (\<lambda>v. Some (IPv6 ([32, 1, 0, 0, 0, 0, 0, 1] @ (if v = ''a'' then [0, 0, 0, 0, 0, 0, 0, 1] else [9, 9, 9, 9, 9, 9, 9, 9]))))
     (\<lambda>bs. concat (map Itoa bs)) (\<lambda>v. v) ''b''"
proof -
  have "TrimSpace ''a'' = ''a''" "TrimSpace ''b'' = ''b''" by code_simp+
  then show ?thesis
    by (intro ipv6_block_shares_counter [where p = "[32, 1, 0, 0, 0, 0, 0, 1]"]) simp_all
qed

end
