(* ===== verification/Totp.thy ===== *)
theory Totp
  imports Go_Strings "HOL-Library.Word"
begin

unbundle bit_operations_syntax

text \<open>
  The one-time passwords of \<open>internal/totp/totp.go\<close> and the recovery code form of
  \<open>internal/crypto/recovery.go\<close>. HMAC-SHA-1 is a parameter with an output of 20 bytes. Times are
  nanoseconds, so \<open>t.Unix()\<close> is a division by \<open>10 ^ 9\<close> that rounds down.
\<close>

section \<open>Parameters\<close>

record Params =
  pa_Digits :: int
  pa_Period :: int
  pa_Skew :: int

definition Default :: Params where
  "Default = \<lparr>pa_Digits = 6, pa_Period = 30000000000, pa_Skew = 1\<rparr>"

definition normalize :: "Params \<Rightarrow> Params" where
  "normalize p =
     \<lparr>pa_Digits = (if pa_Digits p \<le> 0 then 6 else pa_Digits p),
      pa_Period = (if pa_Period p \<le> 0 then 30000000000 else pa_Period p),
      pa_Skew = (if pa_Skew p < 0 then 0 else pa_Skew p)\<rparr>"

text \<open>The step counter. Go truncates the quotient towards zero; \<open>periodSeconds\<close> is
  \<open>int64(p.Period.Seconds())\<close>.\<close>

definition periodSeconds :: "Params \<Rightarrow> int" where
  "periodSeconds p = pa_Period (normalize p) div 1000000000"

definition quotTrunc :: "int \<Rightarrow> int \<Rightarrow> int" where
  "quotTrunc a b = (if a < 0 then - ((- a) div b) else a div b)"

definition Step :: "int \<Rightarrow> Params \<Rightarrow> int" where
  "Step t p = quotTrunc (t div 1000000000) (periodSeconds p)"

section \<open>Codes\<close>

text \<open>\<open>binary.BigEndian.PutUint64\<close> and \<open>Uint32\<close>.\<close>

definition bigEndian64 :: "64 word \<Rightarrow> 8 word list" where
  "bigEndian64 w = map (\<lambda>i. ucast (drop_bit (56 - 8 * i) w)) [0..<8]"

definition bigEndian32 :: "8 word list \<Rightarrow> 32 word" where
  "bigEndian32 bs = foldl (\<lambda>acc b. push_bit 8 acc OR ucast b) 0 bs"

definition truncated :: "8 word list \<Rightarrow> int" where
  "truncated mac =
     (let offset = unat (last mac AND 0x0f)
      in uint (bigEndian32 (take 4 (drop offset mac)) AND 0x7fffffff))"

text \<open>\<open>fmt.Sprintf("%0*d", n, v)\<close> for a natural number.\<close>

definition zeroPad :: "nat \<Rightarrow> nat \<Rightarrow> string" where
  "zeroPad n v = (let s = Itoa v in replicate (n - length s) CHR ''0'' @ s)"

fun pow10 :: "nat \<Rightarrow> int" where
  "pow10 0 = 1"
| "pow10 (Suc n) = 10 * pow10 n"

definition code :: "('k \<Rightarrow> 8 word list \<Rightarrow> 8 word list) \<Rightarrow> 'k \<Rightarrow> int \<Rightarrow> Params \<Rightarrow> string" where
  "code hmac secret counter p =
     (let mac = hmac secret (bigEndian64 (word_of_int counter));
          n = nat (pa_Digits p)
      in zeroPad n (nat (truncated mac mod pow10 n)))"

definition Generate :: "('k \<Rightarrow> 8 word list \<Rightarrow> 8 word list) \<Rightarrow> 'k \<Rightarrow> int \<Rightarrow> Params \<Rightarrow> string" where
  "Generate hmac secret t p = code hmac secret (Step t p) (normalize p)"

definition wellFormed :: "string \<Rightarrow> int \<Rightarrow> bool" where
  "wellFormed input n \<longleftrightarrow> int (length input) = n \<and> list_all is_digit input"

text \<open>The loop over the offsets keeps the last match.\<close>

definition offsets :: "int \<Rightarrow> int list" where
  "offsets skew = [-skew..skew]"

definition Validate ::
  "('k \<Rightarrow> 8 word list \<Rightarrow> 8 word list) \<Rightarrow> ('k \<Rightarrow> nat) \<Rightarrow> 'k \<Rightarrow> string \<Rightarrow> int \<Rightarrow> Params \<Rightarrow> int \<times> bool" where
  "Validate hmac len secret input t p0 =
     (let p = normalize p0 in
      if len secret = 0 then (0, False)
      else if \<not> wellFormed input (pa_Digits p) then (0, False)
      else let current = Step t p
           in foldl (\<lambda>found offset.
                let step = current + offset
                in if code hmac secret step p = input then (step, True) else found)
              (0, False) (offsets (pa_Skew p)))"

section \<open>Properties of the codes\<close>

lemma pow10_eq: "pow10 n = 10 ^ n"
  by (induction n) simp_all

lemma Itoa_digits: "\<forall>c \<in> set (Itoa n). is_digit c"
proof (induction n rule: Itoa.induct)
  case (1 n)
  have d: "is_digit (char_of (48 + m))" if "m < 10" for m :: nat
    using that by (simp add: is_digit_def)
  show ?case using 1 d [of n] d [of "n mod 10"] by (subst Itoa.simps) auto
qed

lemma Itoa_length: "v < 10 ^ k \<Longrightarrow> 0 < k \<Longrightarrow> length (Itoa v) \<le> k"
proof (induction k arbitrary: v)
  case (Suc k)
  show ?case
  proof (cases "v < 10")
    case True
    then show ?thesis by (subst Itoa.simps) simp
  next
    case False
    then have "0 < k" using Suc.prems(1) by (cases k) auto
    moreover have "v div 10 < 10 ^ k" using Suc.prems(1) by (simp add: less_mult_imp_div_less mult.commute)
    ultimately have "length (Itoa (v div 10)) \<le> k" by (intro Suc.IH) simp_all
    then show ?thesis using False by (subst Itoa.simps) simp
  qed
qed simp

lemma code_shape:
  assumes "0 < pa_Digits p"
  shows "wellFormed (code hmac secret counter p) (pa_Digits p)"
proof -
  let ?n = "nat (pa_Digits p)"
  let ?v = "nat (truncated (hmac secret (bigEndian64 (word_of_int counter))) mod pow10 ?n)"
  have "?v < 10 ^ ?n"
    by (simp add: pow10_eq nat_less_iff)
  then have "length (Itoa ?v) \<le> ?n" using assms by (intro Itoa_length) simp_all
  then show ?thesis
    using assms Itoa_digits [of ?v]
    by (auto simp: code_def Let_def zeroPad_def wellFormed_def list_all_iff is_digit_def)
qed

lemma last_match_value:
  "foldl (\<lambda>r x. if P x then (f x, True) else r) (m0, ok0) xs = (m, ok) \<Longrightarrow>
     m = m0 \<or> (\<exists>y \<in> set xs. P y \<and> m = f y)"
proof (induction xs arbitrary: m0 ok0)
  case (Cons x xs)
  then show ?case
    using Cons.IH [of "if P x then f x else m0" "P x \<or> ok0"] by (cases "P x") auto
qed simp

lemma last_match:
  "foldl (\<lambda>r x. if P x then (f x, True) else r) (m0, ok0) xs = (m, ok) \<Longrightarrow>
     (ok \<longleftrightarrow> ok0 \<or> (\<exists>x \<in> set xs. P x)) \<and> (ok \<longrightarrow> \<not> ok0 \<longrightarrow> (\<exists>x \<in> set xs. P x \<and> m = f x))"
proof (induction xs arbitrary: m0 ok0)
  case (Cons x xs)
  show ?case
  proof (cases "P x")
    case True
    then have "foldl (\<lambda>r x. if P x then (f x, True) else r) (f x, True) xs = (m, ok)"
      using Cons.prems by simp
    from Cons.IH [OF this] have ok: "ok" by simp
    have "m = f x \<or> (\<exists>y \<in> set xs. P y \<and> m = f y)"
      using Cons.prems True by (intro last_match_value) simp
    then show ?thesis using ok True by auto
  next
    case False
    then have "foldl (\<lambda>r x. if P x then (f x, True) else r) (m0, ok0) xs = (m, ok)"
      using Cons.prems by simp
    from Cons.IH [OF this] show ?thesis using False by auto
  qed
qed simp

lemma Validate_iff:
  assumes "len secret \<noteq> 0" and "Validate hmac len secret input t p = (step, ok)"
  shows "(ok \<longleftrightarrow> (\<exists>d. \<bar>d\<bar> \<le> pa_Skew (normalize p) \<and>
             code hmac secret (Step t (normalize p) + d) (normalize p) = input)) \<and>
    (ok \<longrightarrow> code hmac secret step (normalize p) = input \<and>
             \<bar>step - Step t (normalize p)\<bar> \<le> pa_Skew (normalize p))"
proof (cases "wellFormed input (pa_Digits (normalize p))")
  case True
  let ?P = "\<lambda>d. code hmac secret (Step t (normalize p) + d) (normalize p) = input"
  have skew: "0 \<le> pa_Skew (normalize p)" by (simp add: normalize_def)
  have "foldl (\<lambda>r d. if ?P d then (Step t (normalize p) + d, True) else r) (0, False)
      (offsets (pa_Skew (normalize p))) = (step, ok)"
    using assms True unfolding Validate_def Let_def by (simp only: if_False simp_thms)
  from last_match [OF this] have m:
    "(ok \<longleftrightarrow> (\<exists>x \<in> set (offsets (pa_Skew (normalize p))). ?P x)) \<and>
     (ok \<longrightarrow> (\<exists>x \<in> set (offsets (pa_Skew (normalize p))). ?P x \<and> step = Step t (normalize p) + x))"
    by simp
  have offs: "x \<in> set (offsets (pa_Skew (normalize p))) \<longleftrightarrow> \<bar>x\<bar> \<le> pa_Skew (normalize p)" for x
    by (auto simp: offsets_def)
  show ?thesis
  proof (intro conjI impI)
    show "ok \<longleftrightarrow> (\<exists>d. \<bar>d\<bar> \<le> pa_Skew (normalize p) \<and> ?P d)" using m offs by blast
  next
    assume ok
    then obtain x where x: "x \<in> set (offsets (pa_Skew (normalize p)))" "?P x"
        "step = Step t (normalize p) + x"
      using m by blast
    then show "code hmac secret step (normalize p) = input" by (simp only:)
    show "\<bar>step - Step t (normalize p)\<bar> \<le> pa_Skew (normalize p)" using x(1,3) offs by simp
  qed
next
  case False
  have "0 < pa_Digits (normalize p)" by (simp add: normalize_def)
  then have "code hmac secret c (normalize p) \<noteq> input" for c
    using code_shape [of "normalize p" hmac secret c] False by auto
  then show ?thesis using assms False by (auto simp: Validate_def Let_def)
qed

text \<open>C21. A code is accepted exactly when it is the code of a step within the skew of the current
  step, and the reported step is one whose code was presented: the caller can therefore store
  it to refuse a replay.\<close>

theorem validate_correct:
  assumes "len secret \<noteq> 0" and "Validate hmac len secret input t p = (step, ok)"
  shows "(ok \<longleftrightarrow> (\<exists>d. \<bar>d\<bar> \<le> pa_Skew (normalize p) \<and>
             code hmac secret (Step t (normalize p) + d) (normalize p) = input)) \<and>
    (ok \<longrightarrow> code hmac secret step (normalize p) = input \<and>
             \<bar>step - Step t (normalize p)\<bar> \<le> pa_Skew (normalize p))"
  using assms by (rule Validate_iff)

text \<open>The code of an authenticator is accepted: a code generated at any instant is a string of
  exactly the configured number of digits, and it validates at that instant.\<close>

theorem generate_validates:
  assumes "len secret \<noteq> 0"
  shows "snd (Validate hmac len secret (Generate hmac secret t p) t p) \<and>
    wellFormed (Generate hmac secret t p) (pa_Digits (normalize p))"
proof -
  obtain step ok where v: "Validate hmac len secret (Generate hmac secret t p) t p = (step, ok)"
    by force
  have n: "Step t (normalize p) = Step t p"
    by (simp add: Step_def periodSeconds_def normalize_def)
  have "\<bar>0 :: int\<bar> \<le> pa_Skew (normalize p)" by (simp add: normalize_def)
  moreover have "code hmac secret (Step t (normalize p) + 0) (normalize p) = Generate hmac secret t p"
    using n by (simp add: Generate_def)
  ultimately have "ok" using Validate_iff [OF assms v] by blast
  moreover have "0 < pa_Digits (normalize p)" by (simp add: normalize_def)
  ultimately show ?thesis using v code_shape by (simp add: Generate_def)
qed

section \<open>Recovery codes\<close>

definition recoveryAlphabet :: string where
  "recoveryAlphabet = ''23456789abcdefghjkmnpqrstuvwxyz''"

text \<open>\<open>newRecoveryCode\<close> over the ten drawn indices.\<close>

definition newRecoveryCode :: "nat list \<Rightarrow> string" where
  "newRecoveryCode draws =
     map (\<lambda>n. recoveryAlphabet ! n) (take 5 draws) @ ''-'' @
     map (\<lambda>n. recoveryAlphabet ! n) (take 5 (drop 5 draws))"

definition NormalizeRecoveryCode :: "string \<Rightarrow> string" where
  "NormalizeRecoveryCode s =
     filter (\<lambda>r. \<not> (r = CHR ''-'' \<or> r = CHR '' '' \<or> r = CHR 0x09)) (ToLower s)"

text \<open>\<open>NewRecoveryCodes\<close>: codes are drawn until \<open>n\<close> distinct ones are there. The source of draws is
  a list, and running out of it stands for a failing random source. The result has the unread draws.\<close>

fun NewRecoveryCodes :: "nat \<Rightarrow> nat list list \<Rightarrow> string list \<Rightarrow> string list res \<times> nat list list" where
  "NewRecoveryCodes n draws out =
     (if length out \<ge> n then (Inr out, draws)
      else case draws of
             [] \<Rightarrow> (Inl (ErrOther ''read random bytes''), [])
           | d # ds \<Rightarrow>
               let c = newRecoveryCode d
               in if c \<in> set out then NewRecoveryCodes n ds out else NewRecoveryCodes n ds (out @ [c]))"

declare NewRecoveryCodes.simps [simp del]

lemma NewRecoveryCodes_distinct:
  "NewRecoveryCodes n draws out = (Inr cs, rest) \<Longrightarrow> distinct out \<Longrightarrow> length out \<le> n \<Longrightarrow>
     distinct cs \<and> length cs = n"
proof (induction n draws out rule: NewRecoveryCodes.induct)
  case (1 n draws out)
  show ?case
    using 1 by (subst (asm) NewRecoveryCodes.simps)
      (auto simp: Let_def split: if_splits list.splits)
qed

lemma alphabet_chars:
  "list_all (\<lambda>c. lower_char (upper_char c) = c \<and> c \<noteq> CHR ''-'' \<and> c \<noteq> CHR '' '' \<and> c \<noteq> CHR 0x09)
     recoveryAlphabet"
  by (simp add: recoveryAlphabet_def lower_char_def upper_char_def is_lower_def is_upper_def
      char_of_def bit_iff_odd)

lemma alphabet_distinct: "distinct recoveryAlphabet \<and> length recoveryAlphabet = 31"
  by (simp add: recoveryAlphabet_def)

lemma alphabet_plain:
  "n < 31 \<Longrightarrow> lower_char (upper_char (recoveryAlphabet ! n)) = recoveryAlphabet ! n \<and>
     recoveryAlphabet ! n \<noteq> CHR ''-'' \<and> recoveryAlphabet ! n \<noteq> CHR '' '' \<and> recoveryAlphabet ! n \<noteq> CHR 0x09"
  using alphabet_chars alphabet_distinct by (simp add: list_all_length)

lemma normalize_upper_chars:
  "\<forall>n \<in> set ns. n < 31 \<Longrightarrow>
     filter (\<lambda>r. \<not> (r = CHR ''-'' \<or> r = CHR '' '' \<or> r = CHR 0x09))
       (map (\<lambda>n. lower_char (upper_char (recoveryAlphabet ! n))) ns) = map (\<lambda>n. recoveryAlphabet ! n) ns"
  using alphabet_plain by (induction ns) auto

lemma normalize_newRecoveryCode:
  assumes "length d = 10" and "\<forall>n \<in> set d. n < 31"
  shows "NormalizeRecoveryCode (ToUpper (newRecoveryCode d)) = map (\<lambda>n. recoveryAlphabet ! n) d"
proof -
  have t: "\<forall>n \<in> set (take 5 d). n < 31" "\<forall>n \<in> set (take 5 (drop 5 d)). n < 31"
    using assms(2) by (auto dest!: in_set_takeD in_set_dropD)
  have dash: "lower_char (upper_char CHR ''-'') = CHR ''-''"
    by (simp add: lower_char_def upper_char_def is_lower_def is_upper_def)
  have d: "take 5 d @ take 5 (drop 5 d) = d" using assms(1) by simp
  have "NormalizeRecoveryCode (ToUpper (newRecoveryCode d)) =
      map (\<lambda>n. recoveryAlphabet ! n) (take 5 d) @ map (\<lambda>n. recoveryAlphabet ! n) (take 5 (drop 5 d))"
    unfolding NormalizeRecoveryCode_def newRecoveryCode_def ToLower_def ToUpper_def map_append
      map_map comp_def filter_append normalize_upper_chars [OF t(1)] normalize_upper_chars [OF t(2)]
    using dash by simp
  then show ?thesis by (simp only: map_append [symmetric] d)
qed

text \<open>A recovery code that a person retypes in upper case has the comparable form of the issued
  one, two codes of different draws never share a form, and a generated set holds the asked
  number of distinct codes.\<close>

theorem recovery_codes:
  assumes "length d = 10" and "\<forall>n \<in> set d. n < 31" and "length d' = 10" and "\<forall>n \<in> set d'. n < 31"
    and "NewRecoveryCodes n draws [] = (Inr cs, rest)"
  shows "(NormalizeRecoveryCode (ToUpper (newRecoveryCode d)) = NormalizeRecoveryCode (ToUpper (newRecoveryCode d'))
      \<longleftrightarrow> d = d') \<and> distinct cs \<and> length cs = n"
proof -
  have inj: "inj_on (\<lambda>n. recoveryAlphabet ! n) {n. n < 31}"
    using alphabet_distinct by (intro inj_onI) (auto simp: nth_eq_iff_index_eq)
  have "map (\<lambda>n. recoveryAlphabet ! n) d = map (\<lambda>n. recoveryAlphabet ! n) d' \<longleftrightarrow> d = d'"
    using assms(2,4) by (intro inj_on_map_eq_map inj_on_subset [OF inj]) auto
  then show ?thesis
    using assms NewRecoveryCodes_distinct [OF assms(5)] by (simp add: normalize_newRecoveryCode)
qed

text \<open>A keyed function in the place of HMAC-SHA-1, for the evaluation.\<close>

definition w_hmac :: "string \<Rightarrow> 8 word list \<Rightarrow> 8 word list" where
  "w_hmac secret msg = replicate 12 0 @ rev msg"

theorem validate_correct_witness:
  "snd (Validate w_hmac length ''k'' ''000003'' 90000000000 Default) \<longleftrightarrow>
     (\<exists>d. \<bar>d\<bar> \<le> pa_Skew (normalize Default) \<and>
        code w_hmac ''k'' (Step 90000000000 (normalize Default) + d) (normalize Default) = ''000003'')"
  using validate_correct [of length "''k''" w_hmac "''000003''" 90000000000 Default] by (simp add: prod_eq_iff)

theorem generate_validates_witness:
  "snd (Validate w_hmac length ''k'' (Generate w_hmac ''k'' 90000000000 Default) 90000000000 Default) \<and>
   wellFormed (Generate w_hmac ''k'' 90000000000 Default) (pa_Digits (normalize Default))"
  by (rule generate_validates) simp

theorem recovery_codes_witness:
  "NormalizeRecoveryCode (ToUpper (newRecoveryCode [0..<10])) \<noteq>
     NormalizeRecoveryCode (ToUpper (newRecoveryCode (replicate 10 0)))"
proof -
  have "NewRecoveryCodes 1 [[0..<10]] [] = (Inr [newRecoveryCode [0..<10]], [])"
    by (simp add: NewRecoveryCodes.simps)
  moreover have "[0..<10] \<noteq> replicate 10 (0 :: nat)" by code_simp
  ultimately show ?thesis
    using recovery_codes [of "[0..<10]" "replicate 10 0" 1 "[[0..<10]]"] by auto
qed

end
