(* ===== verification/Core_Auth.thy ===== *)
theory Core_Auth
  imports Rate_Limit Totp Store_Orgs
begin

text \<open>
  The core of the authentication library: \<open>tokens.go\<close> (one-time tokens), \<open>sessions.go\<close> (session
  lookup and creation), \<open>users.go\<close> (creation of users and proof of an address),
  \<open>operations.go\<close> (sign-in, sign-out, password change, the rate limit) and the challenge of
  the second factor from \<open>handlers_totp.go\<close>.

  The configuration is a record. Its function fields stand for the cryptographic primitives
  (SHA-256, Argon2id), for the address parser of the standard library and for the hooks of the
  application, whose Before hooks accept or reject.
\<close>

section \<open>Configuration\<close>

record Argon2Params =
  ag_Memory :: int
  ag_Iterations :: int
  ag_Parallelism :: int
  ag_SaltLength :: int
  ag_KeyLength :: int

definition NeedsRehash :: "Argon2Params \<Rightarrow> Argon2Params \<Rightarrow> bool" where
  "NeedsRehash stored want \<longleftrightarrow>
     ag_Memory stored \<noteq> ag_Memory want \<or> ag_Iterations stored \<noteq> ag_Iterations want \<or>
     ag_Parallelism stored \<noteq> ag_Parallelism want \<or> ag_KeyLength stored \<noteq> ag_KeyLength want"

text \<open>A limiter names a retry time (\<open>Decider\<close>), or it only answers yes or no.\<close>

datatype limiter =
    Decider "Key \<Rightarrow> (sys, Decision) oper"
  | AllowOnly "Key \<Rightarrow> (sys, bool) oper"

record config =
  cf_hash :: "string \<Rightarrow> string"
  cf_verifyPassword :: "string \<Rightarrow> string \<Rightarrow> (bool \<times> Argon2Params) res"
  cf_hashPassword :: "string \<Rightarrow> string res"
  cf_argon :: Argon2Params
  cf_parseAddress :: "string \<Rightarrow> string option"
  cf_limiter :: limiter
  cf_sessionTTL :: duration
  cf_idleTimeout :: duration
  cf_touchInterval :: duration
  cf_orgReader :: bool
  cf_userReader :: bool
  cf_sessionRevoker :: bool
  cf_organizations :: bool
  cf_stringAgg :: bool
  cf_requireVerification :: bool
  cf_minLength :: int
  cf_maxLength :: int
  cf_totpEnabled :: bool
  cf_hmac :: "nat list \<Rightarrow> 8 word list \<Rightarrow> 8 word list"
  cf_totpIssuer :: string
  cf_sender :: "(Message \<Rightarrow> err option) option"
  cf_verifyTTL :: duration
  cf_resetTTL :: duration
  cf_stateTTL :: duration
  cf_baseURL :: string
  cf_basePath :: string
  cf_sendOnSignUp :: bool
  cf_verifyURL :: string
  cf_resetURL :: string
  cf_changeURL :: string
  cf_deleteURL :: string
  cf_autoLink :: bool
  cf_beforeSessionCreate :: "Session \<Rightarrow> User \<Rightarrow> err option"
  cf_beforeUserCreate :: "User \<Rightarrow> err option"
  cf_afterUserInsert :: "User \<Rightarrow> err option"

text \<open>The idiom that maps an absent row to nothing and any other failure to INTERNAL.\<close>

definition optional :: "(sys, 'a) oper \<Rightarrow> (sys, 'a option) oper" where
  "optional m = caught m (\<lambda>r. case r of
      Inr x \<Rightarrow> ret (Some x)
    | Inl e \<Rightarrow> if isNotFound e then ret None else fail (with_cause CodeInternal e))"

lemma optional_Inr:
  "optional m s = (Inr x, s') \<longleftrightarrow>
     (\<exists>y. m s = (Inr y, s') \<and> x = Some y) \<or> (\<exists>e. m s = (Inl e, s') \<and> isNotFound e \<and> x = None)"
  by (cases "m s") (auto simp: optional_def caught_def ret_def fail_def split: sum.splits if_splits)

lemma dbInv_optional [db_intros]: "dbInv Q m \<Longrightarrow> dbInv Q (optional m)"
  unfolding optional_def by (intro db_intros)

section \<open>Addresses and passwords\<close>

text \<open>\<open>email.Normalize\<close> and \<open>email.Valid\<close>; \<open>mail.ParseAddress\<close> is a parameter.\<close>

definition Normalize :: "string \<Rightarrow> string" where
  "Normalize address = ToLower (TrimSpace address)"

definition lastIndexAt :: "string \<Rightarrow> int" where
  "lastIndexAt s = (if CHR ''@'' \<in> set s
     then int (length s) - 1 - int (length (takeWhile (\<lambda>c. c \<noteq> CHR ''@'') (rev s))) else -1)"

definition Valid :: "(string \<Rightarrow> string option) \<Rightarrow> string \<Rightarrow> bool" where
  "Valid parse address0 =
     (let address = TrimSpace address0 in
      if address = [] \<or> length address > 320 then False
      else if list_ex (\<lambda>c. c \<in> set '' ,;<>'' \<or> of_char c \<in> {9, 10, 13, 34 :: nat}) address then False
      else case parse address of
             None \<Rightarrow> False
           | Some a \<Rightarrow>
               if a \<noteq> address then False
               else let at = lastIndexAt address in
                 if at \<le> 0 \<or> at = int (length address) - 1 then False
                 else CHR ''.'' \<in> set (drop (nat (at + 1)) address))"

lemma Normalize_idem [simp]: "Normalize (Normalize a) = Normalize a"
  by (simp add: Normalize_def TrimSpace_ToLower)

text \<open>\<open>utf8.RuneCountInString\<close> on valid UTF-8: the bytes that start a rune.\<close>

definition RuneCount :: "string \<Rightarrow> int" where
  "RuneCount s = int (length (filter (\<lambda>c. \<not> ((128 :: nat) \<le> of_char c \<and> of_char c < (192 :: nat))) s))"

definition checkPassword :: "config \<Rightarrow> string \<Rightarrow> (sys, unit) oper" where
  "checkPassword cfg password =
     (let n = RuneCount password
      in ensure (\<not> (n < cf_minLength cfg \<or> n > cf_maxLength cfg)) (api CodeWeakPassword))"

section \<open>The rate limit\<close>

definition checkLimit :: "config \<Rightarrow> Key \<Rightarrow> (sys, unit) oper" where
  "checkLimit cfg key =
     (case cf_limiter cfg of
        Decider decide \<Rightarrow>
          caught (decide key) (\<lambda>r. case r of
              Inl e \<Rightarrow> fail (with_cause CodeInternal e)
            | Inr d \<Rightarrow> if dc_Allowed d then ret () else fail (RateLimitError (dc_RetryAfter d)))
      | AllowOnly allow \<Rightarrow>
          caught (allow key) (\<lambda>r. case r of
              Inl e \<Rightarrow> ret ()
            | Inr ok \<Rightarrow> if ok then ret () else fail (RateLimitError 60000000000)))"

section \<open>One-time tokens\<close>

record IssueTokenInput =
  it_Kind :: string
  it_UserID :: "string option"
  it_Identifier :: string
  it_ReplaceExisting :: bool
  it_TTL :: duration

definition issueToken :: "config \<Rightarrow> IssueTokenInput \<Rightarrow> (sys, string \<times> Token) oper" where
  "issueToken cfg i =
     (if it_Kind i = [] then fail (api CodeInternal)
      else let ttl = (if it_TTL i \<le> 0 then 3600000000000 else it_TTL i) in
        andThen (mapFail (with_cause CodeInternal) NewToken) (\<lambda>plaintext.
        andThen now (\<lambda>at.
        andThen newUUID (\<lambda>uuid.
        let tok = \<lparr>tk_ID = uuid, tk_UserID = it_UserID i, tk_Kind = it_Kind i,
                   tk_Identifier = it_Identifier i, tk_TokenHash = cf_hash cfg plaintext,
                   tk_CreatedAt = at, tk_ExpiresAt = at + ttl, tk_ConsumedAt = None\<rparr>
        in andThen (mapFail publicError (transaction
             (andThen (if it_ReplaceExisting i \<and> it_Identifier i \<noteq> []
                       then Tokens_DeleteByIdentifier (it_Kind i) (it_Identifier i) else ret ())
                (\<lambda>_. Tokens_Create tok))))
           (\<lambda>_. ret (plaintext, tok))))))"

definition peekToken :: "config \<Rightarrow> string \<Rightarrow> string \<Rightarrow> (sys, Token) oper" where
  "peekToken cfg kind plaintext =
     (if plaintext = [] then fail (api CodeInvalidToken)
      else andThen (optional (Tokens_Get kind (cf_hash cfg plaintext))) (\<lambda>r.
           case r of
             None \<Rightarrow> fail (api CodeInvalidToken)
           | Some tok \<Rightarrow>
               andThen now (\<lambda>at.
                 if tk_ConsumedAt tok \<noteq> None \<or> \<not> at < tk_ExpiresAt tok
                 then fail (api CodeInvalidToken) else ret tok)))"

definition consumeToken :: "config \<Rightarrow> string \<Rightarrow> string \<Rightarrow> (sys, Token) oper" where
  "consumeToken cfg kind plaintext =
     (if plaintext = [] then fail (api CodeInvalidToken)
      else andThen now (\<lambda>at.
           andThen (optional (Tokens_Consume kind (cf_hash cfg plaintext) at)) (\<lambda>r.
           case r of None \<Rightarrow> fail (api CodeInvalidToken) | Some tok \<Rightarrow> ret tok)))"

section \<open>Sessions\<close>

type_synonym lookup = "(Session \<times> User \<times> Organization option \<times> Membership option) option"

definition readSessionAndUser :: "config \<Rightarrow> string \<Rightarrow> (sys, lookup) oper" where
  "readSessionAndUser cfg h =
     (if cf_orgReader cfg \<and> cf_organizations cfg
      then optional (SessionWithUserAndMembership (cf_stringAgg cfg) h)
      else if cf_userReader cfg
      then andThen (optional (SessionWithUser h))
             (\<lambda>r. ret (map_option (\<lambda>(s, u). (s, u, None, None)) r))
      else andThen (optional (Sessions_GetByTokenHash h)) (\<lambda>r.
           case r of
             None \<Rightarrow> ret None
           | Some s \<Rightarrow>
               andThen (optional (Users_GetByID (se_UserID s)))
                 (\<lambda>r. ret (map_option (\<lambda>u. (s, u, None, None)) r))))"

text \<open>The three deadlines of a session.\<close>

definition expired :: "config \<Rightarrow> time \<Rightarrow> Session \<Rightarrow> bool" where
  "expired cfg at s \<longleftrightarrow>
     \<not> at < se_ExpiresAt s \<or> \<not> at < se_CreatedAt s + cf_sessionTTL cfg \<or>
     \<not> at < se_LastSeenAt s + cf_idleTimeout cfg"

text \<open>The checks of \<open>lookupSession\<close> after the read: the disabled user, the deadlines and the touch.\<close>

definition admitSession ::
  "config \<Rightarrow> Session \<Rightarrow> User \<Rightarrow> Organization option \<Rightarrow> Membership option \<Rightarrow> (sys, lookup) oper" where
  "admitSession cfg s u org mem =
     (if u_DisabledAt u \<noteq> None then ret None
      else andThen now (\<lambda>at.
        if expired cfg at s
        then andThen (ignoring (Sessions_Delete (se_ID s))) (\<lambda>_. ret None)
        else if at - se_LastSeenAt s \<ge> cf_touchInterval cfg
        then caught (Sessions_Touch (se_ID s) at) (\<lambda>r. case r of
               Inr _ \<Rightarrow> ret (Some (s\<lparr>se_LastSeenAt := at\<rparr>, u, org, mem))
             | Inl _ \<Rightarrow> ret (Some (s, u, org, mem)))
        else ret (Some (s, u, org, mem))))"

definition lookupSession :: "config \<Rightarrow> string \<Rightarrow> (sys, lookup) oper" where
  "lookupSession cfg h =
     andThen (optional (readSessionAndUser cfg h)) (\<lambda>r.
     case r of
       Some (Some (s, u, org, mem)) \<Rightarrow> admitSession cfg s u org mem
     | _ \<Rightarrow> ret None)"

text \<open>\<open>createSession\<close>: the session of the previous token goes first, so no fixed token survives.\<close>

definition createSession :: "config \<Rightarrow> User \<Rightarrow> string \<Rightarrow> string \<Rightarrow> (sys, Session \<times> string) oper" where
  "createSession cfg user method previousToken =
     andThen (if previousToken \<noteq> []
              then caught (Sessions_GetByTokenHash (cf_hash cfg previousToken)) (\<lambda>r. case r of
                     Inr prev \<Rightarrow> ignoring (Sessions_Delete (se_ID prev))
                   | Inl _ \<Rightarrow> ret ())
              else ret ()) (\<lambda>_.
     andThen (mapFail (with_cause CodeInternal) NewToken) (\<lambda>token.
     andThen now (\<lambda>at.
     andThen newUUID (\<lambda>uuid.
     let sess = \<lparr>se_ID = uuid, se_UserID = u_ID user, se_TokenHash = cf_hash cfg token,
                 se_CreatedAt = at, se_ExpiresAt = at + cf_sessionTTL cfg, se_LastSeenAt = at,
                 se_ActiveOrgID = None\<rparr>
     in andThen (mapFail publicError (transaction
          (andThen (veto (cf_beforeSessionCreate cfg sess user)) (\<lambda>_. Sessions_Create sess)))) (\<lambda>_.
        andThen (runAfter ''SessionCreate'' uuid) (\<lambda>_.
        andThen (runAfter ''SignIn'' uuid) (\<lambda>_.
        andThen (emit ''auth.sign_in'' (u_ID user) [(''method'', method), (''session_id'', uuid)]) (\<lambda>_.
        ret (sess, token)))))))))"

section \<open>The second factor challenge\<close>

definition MFATokenKind :: string where "MFATokenKind = ''mfa''"

definition mfaChallengeTTL :: duration where "mfaChallengeTTL = 300000000000"

definition totpConfirmed :: "config \<Rightarrow> string \<Rightarrow> (sys, bool) oper" where
  "totpConfirmed cfg uid =
     (if \<not> cf_totpEnabled cfg then ret False
      else andThen (optional (TOTP_Get uid))
             (\<lambda>r. ret (case r of None \<Rightarrow> False | Some p \<Rightarrow> tp_ConfirmedAt p \<noteq> None)))"

definition mfaChallenge :: "config \<Rightarrow> User \<Rightarrow> (sys, string option) oper" where
  "mfaChallenge cfg user =
     andThen (totpConfirmed cfg (u_ID user)) (\<lambda>confirmed.
       if \<not> confirmed then ret None
       else andThen (issueToken cfg \<lparr>it_Kind = MFATokenKind, it_UserID = Some (u_ID user),
                it_Identifier = u_ID user, it_ReplaceExisting = True, it_TTL = mfaChallengeTTL\<rparr>)
              (\<lambda>(plaintext, tok). ret (Some plaintext)))"

section \<open>Sign-in and sign-out\<close>

record SignInInput =
  si_Email :: string
  si_Password :: string
  si_ClientIP :: string
  si_PreviousSessionToken :: string

record SignInResult =
  sr_User :: User
  sr_Session :: "Session option"
  sr_Token :: string
  sr_MFARequired :: bool
  sr_MFAToken :: string

definition signInFailed :: "config \<Rightarrow> string \<Rightarrow> string \<Rightarrow> string \<Rightarrow> (sys, unit) oper" where
  "signInFailed cfg uid reason normalized =
     emit ''auth.sign_in_failed'' uid [(''reason'', reason), (''email_digest'', cf_hash cfg normalized)]"

text \<open>The rehash of an accepted password with outdated parameters. Its failure is logged.\<close>

definition rehash :: "config \<Rightarrow> string \<Rightarrow> Credential \<Rightarrow> Argon2Params \<Rightarrow> (sys, unit) oper" where
  "rehash cfg password cred params =
     (if NeedsRehash params (cf_argon cfg)
      then case cf_hashPassword cfg password of
             Inl e \<Rightarrow> ret ()
           | Inr fresh \<Rightarrow>
               andThen now (\<lambda>at. ignoring (Users_SetCredential
                 (cred\<lparr>cr_PasswordHash := fresh, cr_UpdatedAt := at\<rparr>)))
      else ret ())"

text \<open>The steps after a proven password: challenge or session.\<close>

definition finishSignIn :: "config \<Rightarrow> SignInInput \<Rightarrow> User \<Rightarrow> (sys, SignInResult) oper" where
  "finishSignIn cfg i user =
     andThen (mfaChallenge cfg user) (\<lambda>challenge.
       case challenge of
         Some tok \<Rightarrow> ret \<lparr>sr_User = user, sr_Session = None, sr_Token = [], sr_MFARequired = True,
                          sr_MFAToken = tok\<rparr>
       | None \<Rightarrow>
           andThen (createSession cfg user ''email'' (si_PreviousSessionToken i)) (\<lambda>(sess, token).
           ret \<lparr>sr_User = user, sr_Session = Some sess, sr_Token = token, sr_MFARequired = False,
                sr_MFAToken = []\<rparr>))"

text \<open>The part of \<open>SignIn\<close> after the reads, for a user with a password.\<close>

definition proveSignIn ::
  "config \<Rightarrow> SignInInput \<Rightarrow> string \<Rightarrow> User \<Rightarrow> Credential \<Rightarrow> (sys, SignInResult) oper" where
  "proveSignIn cfg i normalized u c =
     (case cf_verifyPassword cfg (si_Password i) (cr_PasswordHash c) of
        Inl e \<Rightarrow> fail (with_cause CodeInternal e)
      | Inr (ok, params) \<Rightarrow>
          if \<not> ok then
            andThen (signInFailed cfg (u_ID u) ''invalid_password'' normalized)
              (\<lambda>_. fail (api CodeInvalidCredentials))
          else if u_DisabledAt u \<noteq> None then
            andThen (signInFailed cfg (u_ID u) ''user_disabled'' normalized)
              (\<lambda>_. fail (api CodeUserDisabled))
          else if cf_requireVerification cfg \<and> u_EmailVerifiedAt u = None then
            andThen (signInFailed cfg (u_ID u) ''email_not_verified'' normalized)
              (\<lambda>_. fail (api CodeEmailNotVerified))
          else
            andThen (rehash cfg (si_Password i) c params) (\<lambda>_. finishSignIn cfg i u))"

definition SignIn :: "config \<Rightarrow> SignInInput \<Rightarrow> (sys, SignInResult) oper" where
  "SignIn cfg i =
     (let normalized = Normalize (si_Email i) in
      andThen (checkLimit cfg (keyOf OpSignIn (si_ClientIP i) normalized [])) (\<lambda>_.
      andThen (optional (Users_GetByNormalizedEmail normalized)) (\<lambda>user.
      andThen (case user of None \<Rightarrow> ret None | Some u \<Rightarrow> optional (Users_GetCredential (u_ID u))) (\<lambda>cred.
      case (user, cred) of
        (Some u, Some c) \<Rightarrow> proveSignIn cfg i normalized u c
      | _ \<Rightarrow>
          andThen (signInFailed cfg [] ''unknown_credential'' normalized)
            (\<lambda>_. fail (api CodeInvalidCredentials))))))"

definition SignOut :: "Session option \<Rightarrow> (sys, unit) oper" where
  "SignOut session =
     (case session of
        None \<Rightarrow> ret ()
      | Some s \<Rightarrow>
          andThen (optional (Sessions_Delete (se_ID s))) (\<lambda>_.
          andThen (runAfter ''SignOut'' (se_ID s)) (\<lambda>_.
          emit ''auth.sign_out'' (se_UserID s) [(''session_id'', se_ID s)])))"

definition SignOutToken :: "config \<Rightarrow> string \<Rightarrow> (sys, unit) oper" where
  "SignOutToken cfg token =
     (if token = [] then ret ()
      else andThen (optional (Sessions_GetByTokenHash (cf_hash cfg token))) SignOut)"

section \<open>Account operations\<close>

definition GetUser :: "string \<Rightarrow> (sys, User) oper" where
  "GetUser i = mapFail mapStoreError (Users_GetByID i)"

definition GetUserByEmail :: "string \<Rightarrow> (sys, User) oper" where
  "GetUserByEmail address = mapFail mapStoreError (Users_GetByNormalizedEmail (Normalize address))"

definition RevokeSession :: "string \<Rightarrow> (sys, unit) oper" where
  "RevokeSession i = mapFail mapStoreError (Sessions_Delete i)"

definition RevokeUserSessions :: "string \<Rightarrow> (sys, nat) oper" where
  "RevokeUserSessions u = mapFail mapStoreError (Sessions_DeleteByUser u)"

text \<open>\<open>revokeOtherSessions\<close> of \<open>handlers_account.go\<close>: each session in turn. A session that is
  already gone counts, and any other failure is logged and skipped.\<close>

fun revokeEach :: "string \<Rightarrow> Session list \<Rightarrow> nat \<Rightarrow> (sys, nat) oper" where
  "revokeEach keepID [] n = ret n"
| "revokeEach keepID (s # ss) n =
     (if se_ID s = keepID then revokeEach keepID ss n
      else caught (Sessions_Delete (se_ID s)) (\<lambda>r.
           if (case r of Inl e \<Rightarrow> \<not> isNotFound e | Inr _ \<Rightarrow> False) then revokeEach keepID ss n
           else andThen (runAfter ''SignOut'' (se_ID s)) (\<lambda>_. revokeEach keepID ss (n + 1))))"

definition revokeOtherSessions :: "string \<Rightarrow> string \<Rightarrow> (sys, nat) oper" where
  "revokeOtherSessions uid keepID =
     caught (Sessions_ListByUser uid) (\<lambda>r. case r of
         Inl e \<Rightarrow> ret 0
       | Inr ss \<Rightarrow> revokeEach keepID ss 0)"

definition RevokeOtherSessions :: "config \<Rightarrow> string \<Rightarrow> (sys, nat) oper" where
  "RevokeOtherSessions cfg sid =
     (if sid = [] then fail (api CodeInvalidRequest)
      else if cf_sessionRevoker cfg
      then mapFail (with_cause CodeInternal) (DeleteSessionsExcept sid)
      else fail (with_cause CodeInternal (ErrOther ''the store cannot revoke other sessions'')))"

definition Accounts_of :: "string \<Rightarrow> (sys, Account list) oper" where
  "Accounts_of u = mapFail mapStoreError (Accounts_ListByUser u)"

definition Cleanup :: "(sys, unit) oper" where
  "Cleanup =
     andThen now (\<lambda>at.
     andThen (Sessions_DeleteExpired at) (\<lambda>_.
     andThen (Tokens_DeleteExpired at) (\<lambda>_.
     andThen (OAuthStates_DeleteExpired at) (\<lambda>_. ret ()))))"

record ChangePasswordInput =
  cp_UserID :: string
  cp_CurrentPassword :: string
  cp_NewPassword :: string
  cp_KeepSessionID :: string
  cp_KeepOtherSessions :: bool
  cp_ClientIP :: string

text \<open>The transaction of the change: the credential, and the flag of a temporary password.\<close>

definition storePassword :: "User \<Rightarrow> string \<Rightarrow> time \<Rightarrow> (sys, User) oper" where
  "storePassword user hash at =
     transaction
       (andThen (Users_SetCredential \<lparr>cr_UserID = u_ID user, cr_PasswordHash = hash,
                   cr_CreatedAt = at, cr_UpdatedAt = at\<rparr>) (\<lambda>_.
        if \<not> u_MustChangePassword user then ret user
        else let u = user\<lparr>u_MustChangePassword := False, u_UpdatedAt := at\<rparr>
             in andThen (Users_Update u) (\<lambda>_. ret u)))"

text \<open>The part of \<open>ChangePassword\<close> after the checks.\<close>

definition applyPassword :: "ChangePasswordInput \<Rightarrow> User \<Rightarrow> string \<Rightarrow> (sys, unit) oper" where
  "applyPassword i user hash =
     andThen now (\<lambda>at.
     andThen (mapFail publicError (storePassword user hash at)) (\<lambda>u.
     andThen (if cp_KeepOtherSessions i then ret 0
              else revokeOtherSessions (u_ID u) (cp_KeepSessionID i)) (\<lambda>_.
     andThen (runAfter ''PasswordChange'' (u_ID u)) (\<lambda>_.
     emit ''auth.password_changed'' (u_ID u) []))))"

definition ChangePassword :: "config \<Rightarrow> ChangePasswordInput \<Rightarrow> (sys, unit) oper" where
  "ChangePassword cfg i =
     andThen (GetUser (cp_UserID i)) (\<lambda>user.
     andThen (checkLimit cfg (keyOf OpPasswordChange (cp_ClientIP i) [] (u_ID user))) (\<lambda>_.
     andThen (checkPassword cfg (cp_NewPassword i)) (\<lambda>_.
     andThen (optional (Users_GetCredential (u_ID user))) (\<lambda>cred.
     case cred of
       None \<Rightarrow> fail (api CodeNoPasswordCredential)
     | Some c \<Rightarrow>
         (case cf_verifyPassword cfg (cp_CurrentPassword i) (cr_PasswordHash c) of
            Inl e \<Rightarrow> fail (with_cause CodeInternal e)
          | Inr (ok, _) \<Rightarrow>
              if \<not> ok then
                andThen (emit ''auth.sign_in_failed'' (u_ID user) [(''reason'', ''password_change_denied'')])
                  (\<lambda>_. fail (api CodeInvalidCredentials))
              else case cf_hashPassword cfg (cp_NewPassword i) of
                     Inl e \<Rightarrow> fail (with_cause CodeInternal e)
                   | Inr hash \<Rightarrow> applyPassword i user hash)))))"

record CreateUserInput =
  ci_Email :: string
  ci_Password :: string
  ci_DisplayName :: string
  ci_ImageURL :: string
  ci_EmailVerified :: bool

text \<open>The transaction of \<open>createUser\<close>.\<close>

definition insertUser :: "config \<Rightarrow> User \<Rightarrow> string \<Rightarrow> time \<Rightarrow> (sys, unit) oper" where
  "insertUser cfg user passwordHash at =
     transaction
       (andThen (veto (cf_beforeUserCreate cfg user)) (\<lambda>_.
        andThen (Users_Create user) (\<lambda>_.
        andThen (if passwordHash \<noteq> []
                 then Users_SetCredential \<lparr>cr_UserID = u_ID user, cr_PasswordHash = passwordHash,
                        cr_CreatedAt = at, cr_UpdatedAt = at\<rparr>
                 else ret ()) (\<lambda>_.
        veto (cf_afterUserInsert cfg user)))))"

definition newUser :: "CreateUserInput \<Rightarrow> string \<Rightarrow> time \<Rightarrow> User" where
  "newUser i uuid at =
     \<lparr>u_ID = uuid, u_Email = ci_Email i, u_EmailNormalized = Normalize (ci_Email i),
      u_EmailVerifiedAt = (if ci_EmailVerified i then Some at else None),
      u_DisplayName = ci_DisplayName i, u_ImageURL = ci_ImageURL i, u_CreatedAt = at,
      u_UpdatedAt = at, u_Role = [], u_DisabledAt = None, u_MustChangePassword = False\<rparr>"

definition createUser :: "config \<Rightarrow> CreateUserInput \<Rightarrow> string \<Rightarrow> (sys, User) oper" where
  "createUser cfg i passwordHash =
     (let normalized = Normalize (ci_Email i) in
      if normalized = [] \<or> \<not> Valid (cf_parseAddress cfg) normalized then fail (api CodeInvalidRequest)
      else andThen now (\<lambda>at.
        andThen newUUID (\<lambda>uuid.
        andThen (mapFail (\<lambda>e. if isConflict e then api CodeEmailAlreadyExists else publicError e)
                   (insertUser cfg (newUser i uuid at) passwordHash at)) (\<lambda>_.
        andThen (runAfter ''UserCreate'' uuid) (\<lambda>_.
        andThen (emit ''auth.sign_up'' uuid [(''email_verified'', if ci_EmailVerified i then ''true'' else ''false'')]) (\<lambda>_.
        ret (newUser i uuid at)))))))"

definition CreateUser :: "config \<Rightarrow> CreateUserInput \<Rightarrow> (sys, User) oper" where
  "CreateUser cfg i =
     andThen (ensure (Valid (cf_parseAddress cfg) (ci_Email i)) (api CodeInvalidRequest)) (\<lambda>_.
     if ci_Password i \<noteq> [] then
       andThen (checkPassword cfg (ci_Password i)) (\<lambda>_.
       case cf_hashPassword cfg (ci_Password i) of
         Inl e \<Rightarrow> fail (with_cause CodeInternal e)
       | Inr hash \<Rightarrow> createUser cfg i hash)
     else createUser cfg i [])"

text \<open>\<open>proveEmailOwnership\<close>: an address that was not verified loses the password that somebody
  could have planted and every session, in one transaction with the verification.\<close>

definition dropCredential :: "string \<Rightarrow> (sys, unit) oper" where
  "dropCredential uid =
     caught (Users_DeleteCredential uid) (\<lambda>r. case r of
         Inl e \<Rightarrow> if isNotFound e then ret () else fail e
       | Inr _ \<Rightarrow> ret ())"

definition takeOver :: "User \<Rightarrow> bool \<Rightarrow> time \<Rightarrow> (sys, unit) oper" where
  "takeOver user keepCredential at =
     transaction
       (andThen (if \<not> keepCredential then dropCredential (u_ID user) else ret ()) (\<lambda>_.
        andThen (Sessions_DeleteByUser (u_ID user)) (\<lambda>_.
        Users_Update (user\<lparr>u_EmailVerifiedAt := Some at, u_UpdatedAt := at\<rparr>))))"

definition proveEmailOwnership :: "string \<Rightarrow> bool \<Rightarrow> (sys, unit) oper" where
  "proveEmailOwnership uid keepCredential =
     andThen (mapFail publicError (Users_GetByID uid)) (\<lambda>user.
     if u_EmailVerifiedAt user \<noteq> None then ret ()
     else andThen now (\<lambda>at.
       andThen (mapFail publicError (takeOver user keepCredential at)) (\<lambda>_.
       emit ''auth.email_verified'' (u_ID user) [])))"

definition markEmailVerified :: "string \<Rightarrow> (sys, unit) oper" where
  "markEmailVerified uid =
     andThen (mapFail publicError (Users_GetByID uid)) (\<lambda>user.
     if u_EmailVerifiedAt user \<noteq> None then ret ()
     else andThen now (\<lambda>at.
       andThen (mapFail publicError (Users_Update (user\<lparr>u_EmailVerifiedAt := Some at, u_UpdatedAt := at\<rparr>)))
         (\<lambda>_. emit ''auth.email_verified'' (u_ID user) [])))"

definition tokenKindVerifyEmail :: string where "tokenKindVerifyEmail = ''verify-email''"

definition VerifyEmailToken :: "config \<Rightarrow> string \<Rightarrow> (sys, User) oper" where
  "VerifyEmailToken cfg token =
     andThen (consumeToken cfg tokenKindVerifyEmail token) (\<lambda>tok.
     case tk_UserID tok of
       None \<Rightarrow> fail (api CodeInvalidToken)
     | Some uid \<Rightarrow> andThen (proveEmailOwnership uid True) (\<lambda>_. GetUser uid))"

section \<open>The operations keep the schema\<close>

definition limiterKeeps :: "config \<Rightarrow> (tables \<Rightarrow> bool) \<Rightarrow> bool" where
  "limiterKeeps cfg Q \<longleftrightarrow>
     (case cf_limiter cfg of
        Decider d \<Rightarrow> \<forall>k. dbInv Q (d k)
      | AllowOnly a \<Rightarrow> \<forall>k. dbInv Q (a k))"

lemma dbInv_checkLimit [db_intros]: "limiterKeeps cfg Q \<Longrightarrow> dbInv Q (checkLimit cfg key)"
  unfolding checkLimit_def limiterKeeps_def
  by (cases "cf_limiter cfg") (auto intro!: db_intros)

lemma dbInv_checkPassword [db_intros]: "dbInv Q (checkPassword cfg p)"
  unfolding checkPassword_def by (intro db_intros)

lemma wf_issueToken [db_intros]: "dbInv wfTables (issueToken cfg i)"
  unfolding issueToken_def by (intro db_intros)

lemma wf_consumeToken [db_intros]: "dbInv wfTables (consumeToken cfg kd p)"
  unfolding consumeToken_def by (intro db_intros)

lemma wf_readSession [db_intros]: "dbInv wfTables (readSessionAndUser cfg h)"
  unfolding readSessionAndUser_def by (intro db_intros)

lemma wf_lookupSession [db_intros]: "dbInv wfTables (lookupSession cfg h)"
  unfolding lookupSession_def admitSession_def by (intro db_intros)

lemma wf_createSession [db_intros]: "dbInv wfTables (createSession cfg u m p)"
  unfolding createSession_def by (intro db_intros)

lemma wf_mfaChallenge [db_intros]: "dbInv wfTables (mfaChallenge cfg u)"
  unfolding mfaChallenge_def totpConfirmed_def by (intro db_intros)

lemma wf_rehash [db_intros]: "dbInv wfTables (rehash cfg p c ps)"
  unfolding rehash_def by (intro db_intros)

lemma wf_finishSignIn [db_intros]: "dbInv wfTables (finishSignIn cfg i u)"
  unfolding finishSignIn_def by (intro db_intros)

lemma wf_signInFailed [db_intros]: "dbInv Q (signInFailed cfg a b c)"
  unfolding signInFailed_def by (intro db_intros)

lemma wf_SignIn: "limiterKeeps cfg wfTables \<Longrightarrow> dbInv wfTables (SignIn cfg i)"
  unfolding SignIn_def proveSignIn_def by (intro db_intros)

lemma wf_revokeOther [db_intros]: "dbInv wfTables (revokeOtherSessions u k)"
proof -
  have "dbInv wfTables (revokeEach k ss n)" for ss n
    by (induction ss arbitrary: n) (auto intro!: db_intros)
  then show ?thesis unfolding revokeOtherSessions_def by (intro db_intros)
qed

lemma wf_storePassword [db_intros]: "dbInv wfTables (storePassword u h at)"
  unfolding storePassword_def by (intro db_intros)

lemma wf_ChangePassword: "limiterKeeps cfg wfTables \<Longrightarrow> dbInv wfTables (ChangePassword cfg i)"
  unfolding ChangePassword_def applyPassword_def GetUser_def by (intro db_intros)

lemma wf_createUser [db_intros]: "dbInv wfTables (createUser cfg i h)"
  unfolding createUser_def insertUser_def by (intro db_intros)

lemma wf_proveEmailOwnership [db_intros]: "dbInv wfTables (proveEmailOwnership u k)"
  unfolding proveEmailOwnership_def takeOver_def dropCredential_def by (intro db_intros)

end
