(* ===== verification/Core_Properties.thy ===== *)
theory Core_Properties
  imports Core_Auth
begin

text \<open>
  What the core promises: the session lookup, sign-in with and without a second factor, one-time
  tokens, the creation of a user, the proof of an address and the password change. The theorems
  hold for every schedule of database faults unless a hypothesis says otherwise.
\<close>

section \<open>Frames\<close>

lemma env_core_store [env_intros]:
  "envKept (Users_Create u)" "envKept (Users_GetByID i)" "envKept (Users_GetByNormalizedEmail n)"
  "envKept (Users_Update u)" "envKept (Users_Delete i)" "envKept (Users_GetCredential i)"
  "envKept (Users_SetCredential c)" "envKept (Users_DeleteCredential i)"
  "envKept (Sessions_Create se)" "envKept (Sessions_GetByTokenHash h)"
  "envKept (Sessions_ListByUser i)" "envKept (Sessions_Touch i at)" "envKept (Sessions_Delete i)"
  "envKept (Sessions_DeleteByUser i)" "envKept (SessionWithUser h)"
  "envKept (SessionWithUserAndMembership agg h)" "envKept (DeleteSessionsExcept i)"
  "envKept (Tokens_Create k)" "envKept (Tokens_Consume kd h at)" "envKept (Tokens_Get kd h)"
  "envKept (Tokens_DeleteByIdentifier kd i)" "envKept (TOTP_Get i)" "envKept (TOTP_Upsert p)"
  "envKept (TOTP_Confirm i at)" "envKept (TOTP_AdvanceStep i st)" "envKept (TOTP_Delete i)"
  "envKept (Recovery_Consume i h)"
  unfolding Users_Create_def Users_GetByID_def Users_GetByNormalizedEmail_def Users_Update_def
    Users_Delete_def Users_GetCredential_def Users_SetCredential_def Users_DeleteCredential_def
    Sessions_Create_def Sessions_GetByTokenHash_def Sessions_ListByUser_def Sessions_Touch_def
    Sessions_Delete_def Sessions_DeleteByUser_def SessionWithUser_def
    SessionWithUserAndMembership_def DeleteSessionsExcept_def Tokens_Create_def Tokens_Consume_def
    Tokens_Get_def Tokens_DeleteByIdentifier_def TOTP_Get_def TOTP_Upsert_def TOTP_Confirm_def
    TOTP_AdvanceStep_def TOTP_Delete_def Recovery_Consume_def
  by (intro env_intros)+

lemma env_optional [env_intros]: "envKept m \<Longrightarrow> envKept (optional m)"
  unfolding optional_def by (intro env_intros)

lemma env_readSession [env_intros]: "envKept (readSessionAndUser cfg h)"
  unfolding readSessionAndUser_def by (intro env_intros)

text \<open>The three ways to read a session agree: each finds the row of the hash and its user.\<close>

lemma readSession_Inr:
  assumes "readSessionAndUser cfg h s = (Inr (Some (se, u, org, mem)), s')"
  shows "se \<in> set (sessions (db s)) \<and> se_TokenHash se = h \<and> u \<in> set (users (db s)) \<and>
    u_ID u = se_UserID se \<and> db s' = db s \<and> clock s' = clock s"
  using assms
  by (auto simp: readSessionAndUser_def success_simps sql_success optional_Inr stmt_Inr
        SessionWithUserAndMembership_def SessionWithUser_def Sessions_GetByTokenHash_def
        Users_GetByID_def Let_def dest!: find_SomeD split: if_splits option.splits)

lemma admitSession_Inr:
  assumes "admitSession cfg row u0 org0 mem0 s = (Inr (Some (se, u, org, mem)), s')"
  shows "u = u0 \<and> org = org0 \<and> mem = mem0 \<and> u_DisabledAt u = None \<and> \<not> expired cfg (clock s) row \<and>
     (se = row \<or> se = row\<lparr>se_LastSeenAt := clock s\<rparr>)"
  using assms unfolding admitSession_def
  by (auto simp: success_simps now_Inr caught_eq split: if_splits sum.splits)

lemma lookupSession_Inr:
  assumes "lookupSession cfg h s = (Inr (Some (se, u, org, mem)), s')"
  shows "\<exists>row \<in> set (sessions (db s)). se_TokenHash row = h \<and> u \<in> set (users (db s)) \<and>
     u_ID u = se_UserID row \<and> u_DisabledAt u = None \<and> \<not> expired cfg (clock s) row \<and>
     (se = row \<or> se = row\<lparr>se_LastSeenAt := clock s\<rparr>)"
proof -
  obtain r t where r: "optional (readSessionAndUser cfg h) s = (Inr r, t)"
    and k: "(case r of Some (Some (s, u, org, mem)) \<Rightarrow> admitSession cfg s u org mem | _ \<Rightarrow> ret None) t =
              (Inr (Some (se, u, org, mem)), s')"
    using assms unfolding lookupSession_def andThen_Inr by blast
  obtain row u0 org0 mem0 where "r = Some (Some (row, u0, org0, mem0))"
    using k by (auto simp: ret_def split: option.splits)
  then show ?thesis
    using r k by (auto simp: optional_Inr dest!: readSession_Inr admitSession_Inr)
qed

section \<open>The limiter as a guest of the database\<close>

text \<open>The contract of a limiter: it writes no table but the counters, keeps the schema, and leaves the clock and
  the transaction alone. The database limiter of \<open>storelimit\<close> satisfies it.\<close>

definition isolated :: "(sys, 'a) oper \<Rightarrow> bool" where
  "isolated m \<longleftrightarrow>
     envKept m \<and> dbInv wfTables m \<and> (\<forall>D. dbInv (\<lambda>t. t\<lparr>rate_limits := []\<rparr> = D) m)"

definition soundLimiter :: "config \<Rightarrow> bool" where
  "soundLimiter cfg \<longleftrightarrow>
     (case cf_limiter cfg of
        Decider d \<Rightarrow> \<forall>k. isolated (d k)
      | AllowOnly a \<Rightarrow> \<forall>k. isolated (a k))"

lemma isolated_CountAttempt:
  "envKept (CountAttempt key w at)"
  "dbInv (\<lambda>t. t\<lparr>rate_limits := []\<rparr> = D) (CountAttempt key w at)"
  unfolding CountAttempt_def
  by (rule env_stmt, rule dbInv_stmt) (auto simp: Let_def split: option.split)

lemma isolated_decideRules:
  "envKept (decideRules subj k at rs d)"
  "dbInv (\<lambda>t. t\<lparr>rate_limits := []\<rparr> = D) (decideRules subj k at rs d)"
  by (induction rs arbitrary: d)
    (auto intro!: db_intros env_intros isolated_CountAttempt)

lemma isolated_Decide: "isolated (Decide subj rules k)"
  using wf_Decide unfolding isolated_def Decide_def
  by (auto intro!: db_intros env_intros isolated_decideRules)

lemma sound_storelimit: "cf_limiter cfg = Decider (Decide subj rules) \<Longrightarrow> soundLimiter cfg"
  by (simp add: soundLimiter_def isolated_Decide)

lemma isolated_checkLimit: "soundLimiter cfg \<Longrightarrow> isolated (checkLimit cfg k)"
  unfolding soundLimiter_def checkLimit_def isolated_def
  by (cases "cf_limiter cfg") (auto intro!: db_intros env_intros)

lemma checkLimit_frame:
  assumes "soundLimiter cfg" and "checkLimit cfg k s = (r, s')"
  shows "(db s')\<lparr>rate_limits := []\<rparr> = (db s)\<lparr>rate_limits := []\<rparr>" "clock s' = clock s"
    "faults s = [] \<Longrightarrow> faults s' = []" "in_tx s' = in_tx s"
  using isolated_checkLimit [OF assms(1), of k] assms(2) envKeptD [of "checkLimit cfg k" s r s']
    dbInvD [where Q = "\<lambda>t. t\<lparr>rate_limits := []\<rparr> = (db s)\<lparr>rate_limits := []\<rparr>" and m = "checkLimit cfg k"]
  unfolding isolated_def by blast+

lemma same_but_rates:
  assumes "t'\<lparr>rate_limits := []\<rparr> = (t :: tables)\<lparr>rate_limits := []\<rparr>"
  shows "users t' = users t" "credentials t' = credentials t" "sessions t' = sessions t"
    "tokens t' = tokens t" "totps t' = totps t" "recovery t' = recovery t" "accounts t' = accounts t"
  using assms by (cases t; cases t'; simp)+

section \<open>Sign-in\<close>

lemma SetCredential_frame:
  "dbInv (\<lambda>t. t\<lparr>credentials := []\<rparr> = D) (Users_SetCredential c)"
  unfolding Users_SetCredential_def
  by (intro db_intros dbInv_updateRows dbInv_insertRow) simp_all

lemma rehash_frame: "dbInv (\<lambda>t. t\<lparr>credentials := []\<rparr> = D) (rehash cfg p c ps)"
  unfolding rehash_def by (intro db_intros SetCredential_frame)

lemma env_rehash [env_intros]: "envKept (rehash cfg p c ps)"
  unfolding rehash_def by (intro env_intros)

lemma same_but_credentials:
  assumes "t'\<lparr>credentials := []\<rparr> = (t :: tables)\<lparr>credentials := []\<rparr>"
  shows "users t' = users t" "sessions t' = sessions t" "tokens t' = tokens t" "totps t' = totps t"
  using assms by (cases t; cases t'; simp)+

lemma optional_db:
  assumes "\<And>Q. dbInv Q m" and "optional m s = (r, s')"
  shows "db s' = db s"
  by (rule dbInv_same [OF dbInv_optional [OF assms(1)] assms(2)])

lemma proveSignIn_Inr:
  assumes "proveSignIn cfg i n u c s = (Inr r, s')"
  shows "\<exists>ps s1. cf_verifyPassword cfg (si_Password i) (cr_PasswordHash c) = Inr (True, ps) \<and>
     u_DisabledAt u = None \<and> (cf_requireVerification cfg \<longrightarrow> u_EmailVerifiedAt u \<noteq> None) \<and>
     rehash cfg (si_Password i) c ps s = (Inr (), s1) \<and> finishSignIn cfg i u s1 = (Inr r, s')"
  using assms by (auto simp: proveSignIn_def success_simps split: sum.splits if_splits)

lemma SignIn_Inr:
  assumes run: "SignIn cfg i s = (Inr r, s')"
  shows "\<exists>s0 u c. checkLimit cfg (keyOf OpSignIn (si_ClientIP i) (Normalize (si_Email i)) []) s = (Inr (), s0) \<and>
     u \<in> set (users (db s0)) \<and> u_EmailNormalized u = Normalize (si_Email i) \<and>
     c \<in> set (credentials (db s0)) \<and> cr_UserID c = u_ID u \<and> 
     proveSignIn cfg i (Normalize (si_Email i)) u c (tick (tick s0)) = (Inr r, s')"
  using run
  by (auto simp: SignIn_def Let_def success_simps optional_Inr Users_GetByNormalizedEmail_def
     Users_GetCredential_def sql_success split: option.splits dest!: find_SomeD intro!: exI)

lemma finishSignIn_Inr:
  assumes "finishSignIn cfg i u s = (Inr r, s')"
  shows "sr_User r = u \<and>
    (if sr_MFARequired r
     then sr_Session r = None \<and> mfaChallenge cfg u s = (Inr (Some (sr_MFAToken r)), s')
     else \<exists>s1 sess. mfaChallenge cfg u s = (Inr None, s1) \<and> sr_Session r = Some sess \<and>
            createSession cfg u ''email'' (si_PreviousSessionToken i) s1 = (Inr (sess, sr_Token r), s'))"
  using assms by (auto simp: finishSignIn_def success_simps split: option.splits)

lemma newUUID_Inr: "newUUID s = (Inr x, s') \<longleftrightarrow> x = ids s (next_id s) \<and> s' = s\<lparr>next_id := next_id s + 1\<rparr>"
  by (auto simp: newUUID_def)

lemma NewToken_Inr:
  "NewToken s = (Inr x, s') \<longleftrightarrow> entropy s (next_rand s) = Some x \<and> s' = s\<lparr>next_rand := next_rand s + 1\<rparr>"
  by (auto simp: NewToken_def split: option.splits)

lemma emit_Inr: "emit n u fs s = (Inr x, s') \<longleftrightarrow> s' = s\<lparr>audit := audit s @ [Emitted n u fs]\<rparr>"
  by (auto simp: emit_def)

lemma runAfter_Inr: "runAfter n u s = (Inr x, s') \<longleftrightarrow> s' = s\<lparr>audit := audit s @ [Hooked n u]\<rparr>"
  by (auto simp: runAfter_def)

lemmas env_success = newUUID_Inr NewToken_Inr emit_Inr runAfter_Inr

lemma issueToken_Inr:
  assumes "issueToken cfg i s = (Inr (p, tok), s')"
  shows "entropy s (next_rand s) = Some p \<and> it_Kind i \<noteq> [] \<and>
    tok = \<lparr>tk_ID = ids s (next_id s), tk_UserID = it_UserID i, tk_Kind = it_Kind i,
           tk_Identifier = it_Identifier i, tk_TokenHash = cf_hash cfg p, tk_CreatedAt = clock s,
           tk_ExpiresAt = clock s + (if it_TTL i \<le> 0 then 3600000000000 else it_TTL i),
           tk_ConsumedAt = None\<rparr> \<and>
    db s' = (db s)\<lparr>tokens :=
      (if it_ReplaceExisting i \<and> it_Identifier i \<noteq> []
       then deleteWhere (\<lambda>k. tk_Kind k = it_Kind i \<and> tk_Identifier k = it_Identifier i) (tokens (db s))
       else tokens (db s)) @ [tok]\<rparr> \<and>
    uniqTokens (tokens (db s'))"
  using assms
  apply (auto simp: issueToken_def Let_def success_simps sql_success env_success Tokens_Create_def Tokens_DeleteByIdentifier_def
     split: if_splits elim!: transaction_InrE)
  done

lemma peekToken_Inr:
  assumes "peekToken cfg kd p s = (Inr k, s')"
  shows "k \<in> set (tokens (db s)) \<and> tk_Kind k = kd \<and> tk_TokenHash k = cf_hash cfg p \<and> tk_ConsumedAt k = None \<and>
    clock s < tk_ExpiresAt k"
proof -
  have "Tokens_Get kd (cf_hash cfg p) s = (Inr k, tick s)" "tk_ConsumedAt k = None" "clock s < tk_ExpiresAt k"
    using assms
    by (auto simp: peekToken_def success_simps now_Inr optional_Inr Tokens_Get_def selectOne_Inr split: if_splits option.splits)
  then show ?thesis by (auto simp: Tokens_Get_def selectOne_Inr dest!: find_SomeD)
qed

lemma totpConfirmed_Inr:
  assumes "totpConfirmed cfg u s = (Inr b, s')"
  shows "db s' = db s \<and> clock s' = clock s \<and> next_rand s' = next_rand s \<and> entropy s' = entropy s \<and>
    (b \<longleftrightarrow> cf_totpEnabled cfg \<and>
       (case find (\<lambda>p. tp_UserID p = u) (totps (db s)) of
          None \<Rightarrow> False | Some p \<Rightarrow> tp_ConfirmedAt p \<noteq> None))"
  using assms
  by (auto simp: totpConfirmed_def success_simps optional_Inr TOTP_Get_def sql_success
      selectOne_def stmt_def split: if_splits option.splits)

definition confirmedFactor :: "string \<Rightarrow> tables \<Rightarrow> bool" where
  "confirmedFactor u t \<longleftrightarrow> (\<exists>p \<in> set (totps t). tp_UserID p = u \<and> tp_ConfirmedAt p \<noteq> None)"

lemma confirmedFactor_find:
  assumes d: "distinct (map tp_UserID (totps t))"
  shows "confirmedFactor u t \<longleftrightarrow>
    (case find (\<lambda>p. tp_UserID p = u) (totps t) of None \<Rightarrow> False | Some p \<Rightarrow> tp_ConfirmedAt p \<noteq> None)"
proof (cases "find (\<lambda>p. tp_UserID p = u) (totps t)")
  case None
  then have "\<forall>p \<in> set (totps t). tp_UserID p \<noteq> u" by (simp add: find_None_set)
  then show ?thesis using None by (simp add: confirmedFactor_def)
next
  case (Some q)
  show ?thesis
    using find_SomeD [OF Some] distinct_map_unique [OF d] Some
    by (auto simp: confirmedFactor_def)
qed

lemma mfaChallenge_Inr:
  assumes "mfaChallenge cfg user s = (Inr c, s')" and "distinct (map tp_UserID (totps (db s)))"
  shows "(case c of
     None \<Rightarrow> \<not> (cf_totpEnabled cfg \<and> confirmedFactor (u_ID user) (db s)) \<and> db s' = db s \<and> clock s' = clock s
   | Some p \<Rightarrow> cf_totpEnabled cfg \<and> confirmedFactor (u_ID user) (db s) \<and>
       sessions (db s') = sessions (db s) \<and>
       (\<exists>k \<in> set (tokens (db s')). tk_Kind k = MFATokenKind \<and> tk_TokenHash k = cf_hash cfg p \<and>
          tk_UserID k = Some (u_ID user) \<and> tk_ConsumedAt k = None \<and>
          tk_ExpiresAt k = clock s + mfaChallengeTTL))"
  using assms
  by (auto simp: mfaChallenge_def success_simps confirmedFactor_find mfaChallengeTTL_def
      dest!: totpConfirmed_Inr issueToken_Inr split: if_splits option.splits)

text \<open>The session row of a successful creation.\<close>

lemma createSession_Inr:
  assumes "createSession cfg user m prev s = (Inr (sess, token), s')"
  shows "sess \<in> set (sessions (db s')) \<and> se_UserID sess = u_ID user \<and> se_TokenHash sess = cf_hash cfg token \<and>
    se_CreatedAt sess = clock s \<and> se_LastSeenAt sess = clock s \<and>
    se_ExpiresAt sess = clock s + cf_sessionTTL cfg \<and> u_ID user \<in> userIDs (users (db s')) \<and>
    set (sessions (db s')) \<subseteq> insert sess (set (sessions (db s)))"
proof -
  obtain s0 where 0: "(if prev \<noteq> []
              then caught (Sessions_GetByTokenHash (cf_hash cfg prev)) (\<lambda>r. case r of
                     Inr prev \<Rightarrow> ignoring (Sessions_Delete (se_ID prev))
                   | Inl _ \<Rightarrow> ret ())
              else ret ()) s = (Inr (), s0)"
    using assms by (auto simp: createSession_def success_simps)
  have d0: "set (sessions (db s0)) \<subseteq> set (sessions (db s)) \<and> clock s0 = clock s"
    using 0 by (auto simp: success_simps caught_eq Sessions_GetByTokenHash_def selectOne_def stmt_def
        Sessions_Delete_def deleteRows_def requireAffected_def ensure_def andThen_def
        split: if_splits sum.splits option.splits prod.splits)
  show ?thesis
    using assms d0 unfolding createSession_def
    by (auto simp: 0 success_simps andThen_Inr [of "if _ then _ else _"] sql_success env_success
        Sessions_Create_def Let_def elim!: transaction_InrE)
qed

section \<open>The session lookup\<close>

text \<open>C2. Whatever the lookup returns rests on a stored row: the session has the presented token
  hash, belongs to the returned user, none of its three deadlines has passed, and the user is not
  disabled. This holds for every fault of the database and on each of the three read paths.\<close>

theorem session_lookup_sound:
  assumes "lookupSession cfg h s = (Inr (Some (se, u, org, mem)), s')"
  shows "\<exists>row \<in> set (sessions (db s)). se_TokenHash row = h \<and> u \<in> set (users (db s)) \<and>
     u_ID u = se_UserID row \<and> u_DisabledAt u = None \<and> clock s < se_ExpiresAt row \<and>
     clock s < se_CreatedAt row + cf_sessionTTL cfg \<and>
     clock s < se_LastSeenAt row + cf_idleTimeout cfg \<and>
     (se = row \<or> se = row\<lparr>se_LastSeenAt := clock s\<rparr>)"
  using lookupSession_Inr [OF assms] unfolding expired_def by auto

lemma wf_sessions:
  "wfTables t \<Longrightarrow> uniqSessions (sessions t) \<and> (\<forall>r \<in> set (sessions t). se_UserID r \<in> userIDs (users t))"
  by (simp add: wfTables_def okRows_def)

lemma wf_users: "wfTables t \<Longrightarrow> uniqUsers (users t)"
  by (simp add: wfTables_def)

lemma find_session:
  assumes "wfTables t" and "row \<in> set (sessions t)"
  shows "find (\<lambda>s. se_TokenHash s = se_TokenHash row) (sessions t) = Some row"
    "find (\<lambda>s. se_TokenHash s = se_TokenHash row \<and> se_UserID s \<in> userIDs (users t)) (sessions t) = Some row"
proof -
  have "distinct (map se_TokenHash (sessions t))"
    using wf_sessions [OF assms(1)] by (simp add: uniqSessions_def)
  then show "find (\<lambda>s. se_TokenHash s = se_TokenHash row) (sessions t) = Some row"
    "find (\<lambda>s. se_TokenHash s = se_TokenHash row \<and> se_UserID s \<in> userIDs (users t)) (sessions t) = Some row"
    using assms(2) wf_sessions [OF assms(1)] by (auto intro!: find_unique dest: distinct_map_unique)
qed

lemma find_user:
  assumes "wfTables t" and "u \<in> set (users t)"
  shows "find (\<lambda>x. u_ID x = u_ID u) (users t) = Some u"
    "find (\<lambda>x. u_EmailNormalized x = u_EmailNormalized u) (users t) = Some u"
proof -
  have "distinct (map u_ID (users t))" "distinct (map u_EmailNormalized (users t))"
    using wf_users [OF assms(1)] by (simp_all add: uniqUsers_def)
  then show "find (\<lambda>x. u_ID x = u_ID u) (users t) = Some u"
    "find (\<lambda>x. u_EmailNormalized x = u_EmailNormalized u) (users t) = Some u"
    using assms(2) by (auto intro!: find_unique dest: distinct_map_unique)
qed

text \<open>Without faults each read path finds the row of a presented token.\<close>

lemma readSession_finds:
  assumes wf: "wfTables (db s)" and nf: "faults s = []" and row: "row \<in> set (sessions (db s))"
    and u: "u \<in> set (users (db s))" "u_ID u = se_UserID row"
  shows "\<exists>org mem. readSessionAndUser cfg (se_TokenHash row) s = (Inr (Some (row, u, org, mem)), s)"
  using find_session [OF wf row] find_user [OF wf u(1)] nf u(2)
  by (simp add: readSessionAndUser_def optional_def oper_defs SessionWithUserAndMembership_def
      SessionWithUser_def Sessions_GetByTokenHash_def Users_GetByID_def selectOne_def stmt_def Let_def)


text \<open>A token of a session past one of its deadlines, or of a disabled user, never
  authenticates, and the expired row is gone afterwards.\<close>

theorem expired_session_removed:
  assumes "wfTables (db s)" and "faults s = []" and "row \<in> set (sessions (db s))"
    and "expired cfg (clock s) row" and "u \<in> set (users (db s))" and "u_ID u = se_UserID row"
  shows "fst (lookupSession cfg (se_TokenHash row) s) = Inr None \<and>
    (u_DisabledAt u = None \<longrightarrow> row \<notin> set (sessions (db (snd (lookupSession cfg (se_TokenHash row) s)))))"
proof -
  obtain org mem where r: "readSessionAndUser cfg (se_TokenHash row) s = (Inr (Some (row, u, org, mem)), s)"
    using readSession_finds [OF assms(1-3,5,6)] by blast
  show ?thesis
    using assms(2,4)
    by (simp add: lookupSession_def optional_def admitSession_def caught_def andThen_def ret_def r now_def
        Sessions_Delete_def deleteRows_def stmt_def ignoring_def requireAffected_def ensure_def)
qed

lemma wf_totps: "wfTables t \<Longrightarrow> distinct (map tp_UserID (totps t))"
  by (simp add: wfTables_def okRows_def)

lemma rehash_clock: "rehash cfg p c ps s = (r, s') \<Longrightarrow>
   clock s' = clock s \<and> users (db s') = users (db s) \<and> sessions (db s') = sessions (db s) \<and>
   tokens (db s') = tokens (db s) \<and> totps (db s') = totps (db s)"
  using same_but_credentials [OF dbInvD [OF rehash_frame _ refl]] envKeptD(1) [OF env_rehash] by metis

lemma confirmedFactor_totps: "totps t' = totps t \<Longrightarrow> confirmedFactor u t' = confirmedFactor u t"
  by (simp add: confirmedFactor_def)

text \<open>C1. A successful sign-in has proven the password of the account: the address is the
  normalized one, the stored hash accepts the password, the account is not disabled and its
  address is verified when the configuration asks for it. The result is either a challenge, for
  exactly the accounts with a confirmed second factor and with no session written, or a stored
  session of this user whose token hash is the hash of the returned token.\<close>

theorem sign_in_success:
  assumes "SignIn cfg i s = (Inr r, s')" and "soundLimiter cfg" and "wfTables (db s)"
  shows "\<exists>c ps. sr_User r \<in> set (users (db s)) \<and> c \<in> set (credentials (db s)) \<and>
     u_EmailNormalized (sr_User r) = Normalize (si_Email i) \<and> cr_UserID c = u_ID (sr_User r) \<and>
     cf_verifyPassword cfg (si_Password i) (cr_PasswordHash c) = Inr (True, ps) \<and>
     u_DisabledAt (sr_User r) = None \<and>
     (cf_requireVerification cfg \<longrightarrow> u_EmailVerifiedAt (sr_User r) \<noteq> None) \<and>
     (sr_MFARequired r \<longleftrightarrow> cf_totpEnabled cfg \<and> confirmedFactor (u_ID (sr_User r)) (db s)) \<and>
     (case sr_Session r of
        None \<Rightarrow> sr_MFARequired r \<and> sessions (db s') = sessions (db s)
      | Some se \<Rightarrow> \<not> sr_MFARequired r \<and> se \<in> set (sessions (db s')) \<and>
          se_UserID se = u_ID (sr_User r) \<and> se_TokenHash se = cf_hash cfg (sr_Token r) \<and>
          se_ExpiresAt se = clock s + cf_sessionTTL cfg)"
proof -
  obtain s0 u c ps s1 where lim: "checkLimit cfg (keyOf OpSignIn (si_ClientIP i) (Normalize (si_Email i)) []) s = (Inr (), s0)"
    and u: "u \<in> set (users (db s0))" "u_EmailNormalized u = Normalize (si_Email i)"
    and c: "c \<in> set (credentials (db s0))" "cr_UserID c = u_ID u"
    and ok: "cf_verifyPassword cfg (si_Password i) (cr_PasswordHash c) = Inr (True, ps)"
      "u_DisabledAt u = None" "cf_requireVerification cfg \<longrightarrow> u_EmailVerifiedAt u \<noteq> None"
    and re: "rehash cfg (si_Password i) c ps (tick (tick s0)) = (Inr (), s1)"
    and fin: "finishSignIn cfg i u s1 = (Inr r, s')"
    using SignIn_Inr [OF assms(1)] proveSignIn_Inr by (metis (no_types, lifting))
  note f = checkLimit_frame [OF assms(2) lim]
  note rates = same_but_rates [OF f(1)]
  have s1: "clock s1 = clock s" "sessions (db s1) = sessions (db s)" "totps (db s1) = totps (db s)"
    using rehash_clock [OF re] rates f(2) by simp_all
  have d: "distinct (map tp_UserID (totps (db s1)))" using wf_totps [OF assms(3)] s1(3) by simp
  note conf = confirmedFactor_totps [OF s1(3)]
  have "sr_User r = u" and "(sr_MFARequired r \<longleftrightarrow> cf_totpEnabled cfg \<and> confirmedFactor (u_ID u) (db s)) \<and>
     (case sr_Session r of
        None \<Rightarrow> sr_MFARequired r \<and> sessions (db s') = sessions (db s)
      | Some se \<Rightarrow> \<not> sr_MFARequired r \<and> se \<in> set (sessions (db s')) \<and>
          se_UserID se = u_ID u \<and> se_TokenHash se = cf_hash cfg (sr_Token r) \<and>
          se_ExpiresAt se = clock s + cf_sessionTTL cfg)"
    using finishSignIn_Inr [OF fin] s1
    by (auto simp: conf split: if_splits dest!: mfaChallenge_Inr [OF _ d] createSession_Inr)
  then show ?thesis using u c ok rates by auto
qed

text \<open>C3. A caller without the password learns nothing about the account: when no stored hash of
  the address accepts the password, the answer is INVALID_CREDENTIALS and nothing is written
  (apart from the counters of the limiter), whether the address is unknown, known, disabled,
  unverified or protected by a second factor.\<close>

theorem sign_in_reveals_nothing:
  assumes "soundLimiter cfg" and "faults s = []"
    and "fst (checkLimit cfg (keyOf OpSignIn (si_ClientIP i) (Normalize (si_Email i)) []) s) = Inr ()"
    and "\<forall>u \<in> set (users (db s)). \<forall>c \<in> set (credentials (db s)).
           u_EmailNormalized u = Normalize (si_Email i) \<and> cr_UserID c = u_ID u \<longrightarrow>
           (\<exists>ps. cf_verifyPassword cfg (si_Password i) (cr_PasswordHash c) = Inr (False, ps))"
  shows "fst (SignIn cfg i s) = Inl (api CodeInvalidCredentials) \<and>
    (db (snd (SignIn cfg i s)))\<lparr>rate_limits := []\<rparr> = (db s)\<lparr>rate_limits := []\<rparr>"
proof -
  obtain s0 where lim: "checkLimit cfg (keyOf OpSignIn (si_ClientIP i) (Normalize (si_Email i)) []) s = (Inr (), s0)"
    using assms(3) by (metis prod.collapse)
  note f = checkLimit_frame [OF assms(1) lim]
  have nf: "faults s0 = []" using f(3) assms(2) by simp
  let ?user = "find (\<lambda>u. u_EmailNormalized u = Normalize (si_Email i)) (users (db s0))"
  let ?cred = "\<lambda>u. find (\<lambda>c. cr_UserID c = u_ID u) (credentials (db s0))"
  have cr: "\<exists>ps. cf_verifyPassword cfg (si_Password i) (cr_PasswordHash c) = Inr (False, ps)"
    if u: "?user = Some u" and c: "?cred u = Some c" for u c
    using find_SomeD [OF u] find_SomeD [OF c] assms(4) same_but_rates(1,2) [OF f(1)] by auto
  note run = SignIn_def Let_def andThen_def lim optional_def caught_def Users_GetByNormalizedEmail_def
    Users_GetCredential_def selectOne_def stmt_def oper_defs signInFailed_def emit_def
  show ?thesis
  proof (cases ?user)
    case None
    then show ?thesis using nf f(1) by (simp add: run)
  next
    case (Some u)
    show ?thesis
    proof (cases "?cred u")
      case None
      then show ?thesis using nf f(1) Some by (simp add: run)
    next
      case (Some c)
      then show ?thesis using cr [OF \<open>?user = Some u\<close> Some] nf f(1) \<open>?user = Some u\<close>
        by (auto simp: run proveSignIn_def)
    qed
  qed
qed

section \<open>A concrete configuration\<close>

definition w_argon :: Argon2Params where
  "w_argon = \<lparr>ag_Memory = 1, ag_Iterations = 1, ag_Parallelism = 1, ag_SaltLength = 1, ag_KeyLength = 1\<rparr>"

definition w_cfg :: config where
  "w_cfg = \<lparr>cf_hash = (\<lambda>x. ''#'' @ x), cf_verifyPassword = (\<lambda>p h. Inr (p = h, w_argon)),
     cf_hashPassword = Inr, cf_argon = w_argon, cf_parseAddress = Some,
     cf_limiter = Decider (Decide (\<lambda>sc k. rk_Email k) DefaultSignInRules),
     cf_sessionTTL = 1000, cf_idleTimeout = 500, cf_touchInterval = 10, cf_orgReader = True,
     cf_userReader = True, cf_sessionRevoker = True, cf_organizations = False, cf_stringAgg = True,
     cf_requireVerification = False, cf_minLength = 8, cf_maxLength = 72, cf_totpEnabled = True,
     cf_hmac = (\<lambda>k m. replicate 20 0), cf_totpIssuer = ''app'', cf_sender = Some (\<lambda>m. None),
     cf_verifyTTL = 3600, cf_resetTTL = 3600, cf_stateTTL = 600, cf_baseURL = ''https://app.io'', cf_basePath = ''/auth'',
     cf_sendOnSignUp = False, cf_verifyURL = [], cf_resetURL = [], cf_changeURL = [], cf_deleteURL = [], cf_autoLink = True,
     cf_beforeSessionCreate = (\<lambda>s u. None),
     cf_beforeUserCreate = (\<lambda>u. None), cf_afterUserInsert = (\<lambda>u. None)\<rparr>"

definition bob :: User where
  "bob = ann\<lparr>u_ID := ''u2'', u_Email := ''bob@x.io'', u_EmailNormalized := ''bob@x.io''\<rparr>"

definition w_session :: Session where
  "w_session = \<lparr>se_ID = ''s1'', se_UserID = ''u2'', se_TokenHash = ''#tok'', se_CreatedAt = 50,
     se_ExpiresAt = 900, se_LastSeenAt = 60, se_ActiveOrgID = None\<rparr>"

definition w_core :: tables where
  "w_core = w_tables\<lparr>users := [ann, bob],
     credentials := [\<lparr>cr_UserID = ''u1'', cr_PasswordHash = ''annspass'', cr_CreatedAt = 1, cr_UpdatedAt = 1\<rparr>,
                     \<lparr>cr_UserID = ''u2'', cr_PasswordHash = ''bobspass'', cr_CreatedAt = 1, cr_UpdatedAt = 1\<rparr>],
     sessions := [w_session]\<rparr>"

lemma sound_w_cfg: "soundLimiter w_cfg"
  by (rule sound_storelimit) (simp add: w_cfg_def)

lemma wf_w_core: "wfTables w_core"
  by (simp add: wf_eval w_core_def w_eval bob_def w_session_def)

definition signInAs :: "string \<Rightarrow> string \<Rightarrow> SignInInput" where
  "signInAs e p = \<lparr>si_Email = e, si_Password = p, si_ClientIP = ''1.2.3.4'', si_PreviousSessionToken = []\<rparr>"

lemma w_sign_in:
  "fst (SignIn w_cfg (signInAs ''Bob@x.io'' ''bobspass'') (world w_core)) =
     Inr \<lparr>sr_User = bob, sr_Session = Some \<lparr>se_ID = ''i'', se_UserID = ''u2'', se_TokenHash = ''#r'',
        se_CreatedAt = 100, se_ExpiresAt = 1100, se_LastSeenAt = 100, se_ActiveOrgID = None\<rparr>, sr_Token = ''r'',
        sr_MFARequired = False, sr_MFAToken = []\<rparr>"
  by code_simp
lemma w_sign_in_mfa:
  "fst (SignIn w_cfg (signInAs ''ann@x.io'' ''annspass'') (world w_core)) =
     Inr \<lparr>sr_User = ann, sr_Session = None, sr_Token = [],
        sr_MFARequired = True, sr_MFAToken = ''r''\<rparr>"
  by code_simp

theorem sign_in_success_witness:
  "\<exists>c ps. bob \<in> set (users w_core) \<and> c \<in> set (credentials w_core) \<and> cr_UserID c = ''u2'' \<and>
     cf_verifyPassword w_cfg ''bobspass'' (cr_PasswordHash c) = Inr (True, ps)"
proof -
  obtain s' where run: "SignIn w_cfg (signInAs ''Bob@x.io'' ''bobspass'') (world w_core) =
     (Inr \<lparr>sr_User = bob, sr_Session = Some \<lparr>se_ID = ''i'', se_UserID = ''u2'', se_TokenHash = ''#r'',
        se_CreatedAt = 100, se_ExpiresAt = 1100, se_LastSeenAt = 100, se_ActiveOrgID = None\<rparr>, sr_Token = ''r'',
        sr_MFARequired = False, sr_MFAToken = []\<rparr>, s')"
    using w_sign_in by (metis prod.collapse)
  show ?thesis
    using sign_in_success [OF run sound_w_cfg] by (auto simp: wf_w_core signInAs_def bob_def)
qed

theorem sign_in_reveals_nothing_witness:
  "fst (SignIn w_cfg (signInAs ''ann@x.io'' ''guess'') (world w_core)) = Inl (api CodeInvalidCredentials)"
proof -
  have "fst (checkLimit w_cfg (keyOf OpSignIn ''1.2.3.4'' (Normalize ''ann@x.io'') []) (world w_core)) = Inr ()"
    by code_simp
  then show ?thesis
    using sign_in_reveals_nothing [OF sound_w_cfg, of "world w_core" "signInAs ''ann@x.io'' ''guess''"]
    by (simp add: signInAs_def) (simp add: w_core_def w_cfg_def w_tables_def)
qed

theorem session_lookup_sound_witness:
  "\<exists>row \<in> set (sessions w_core). se_TokenHash row = ''#tok'' \<and> bob \<in> set (users w_core) \<and> 100 < se_ExpiresAt row"
proof -
  have "fst (lookupSession w_cfg ''#tok'' (world w_core)) =
      Inr (Some (w_session\<lparr>se_LastSeenAt := 100\<rparr>, bob, None, None))" by code_simp
  then obtain s' where "lookupSession w_cfg ''#tok'' (world w_core) =
      (Inr (Some (w_session\<lparr>se_LastSeenAt := 100\<rparr>, bob, None, None)), s')" by (metis prod.collapse)
  from session_lookup_sound [OF this] show ?thesis by auto
qed


theorem expired_session_removed_witness:
  "fst (lookupSession w_cfg ''#tok'' ((world w_core)\<lparr>clock := 5000\<rparr>)) = Inr None"
proof -
  have "expired w_cfg 5000 w_session" "w_session \<in> set (sessions w_core)" "bob \<in> set (users w_core)"
    "u_ID bob = se_UserID w_session" "se_TokenHash w_session = ''#tok''"
    by code_simp+
  then show ?thesis
    using expired_session_removed [of "(world w_core)\<lparr>clock := 5000\<rparr>" w_session w_cfg bob] by (auto simp: wf_w_core)
qed

section \<open>One-time tokens\<close>

text \<open>The token that \<open>issueToken\<close> returns is accepted by \<open>consumeToken\<close> at any later
  time before its expiry, with the same user and identifier. With replacement it is the only token
  of its kind and identifier, so every older link is dead.\<close>

theorem issue_then_consume:
  assumes "issueToken cfg i s = (Inr (p, tok), s')" and "p \<noteq> []"
    and "db t = db s'" and "faults t = []" and "clock t < tk_ExpiresAt tok"
  shows "fst (consumeToken cfg (it_Kind i) p t) = Inr (tok\<lparr>tk_ConsumedAt := Some (clock t)\<rparr>) \<and>
    tk_UserID tok = it_UserID i \<and> tk_Identifier tok = it_Identifier i \<and>
    (it_ReplaceExisting i \<and> it_Identifier i \<noteq> [] \<longrightarrow>
       (\<forall>k \<in> set (tokens (db s')). tk_Kind k = it_Kind i \<and> tk_Identifier k = it_Identifier i \<longrightarrow> k = tok))"
proof -
  note iss = issueToken_Inr [OF assms(1)]
  have mem: "tok \<in> set (tokens (db s'))" using iss by simp
  have d: "distinct (map (\<lambda>k. (tk_Kind k, tk_TokenHash k)) (tokens (db s')))"
    using iss unfolding uniqTokens_def by blast
  have f: "find (\<lambda>k. tk_Kind k = it_Kind i \<and> tk_TokenHash k = cf_hash cfg p \<and> tk_ConsumedAt k = None \<and>
      tk_ExpiresAt k > clock t) (tokens (db s')) = Some tok"
  proof (rule find_unique [OF mem])
    show "tk_Kind tok = it_Kind i \<and> tk_TokenHash tok = cf_hash cfg p \<and> tk_ConsumedAt tok = None \<and>
      clock t < tk_ExpiresAt tok" using iss assms(5) by simp
    show "a = tok" if "a \<in> set (tokens (db s'))" and "tk_Kind a = it_Kind i \<and> tk_TokenHash a = cf_hash cfg p \<and>
      tk_ConsumedAt a = None \<and> clock t < tk_ExpiresAt a" for a
      using distinct_map_unique [OF d that(1) mem] that(2) iss by simp
  qed
  have "fst (consumeToken cfg (it_Kind i) p t) = Inr (tok\<lparr>tk_ConsumedAt := Some (clock t)\<rparr>)"
    using f assms(2,3,4)
    by (simp add: consumeToken_def andThen_def now_def optional_def caught_def Tokens_Consume_def
        updateReturning_def stmt_def ret_def)
  then show ?thesis using iss by auto
qed

theorem issue_then_consume_witness:
  "\<exists>tok s'. issueToken w_cfg \<lparr>it_Kind = ''magic-link'', it_UserID = None, it_Identifier = ''a@x.io'',
      it_ReplaceExisting = True, it_TTL = 60\<rparr> (world w_core) = (Inr (''r'', tok), s') \<and>
    fst (consumeToken w_cfg ''magic-link'' ''r'' s') = Inr (tok\<lparr>tk_ConsumedAt := Some 100\<rparr>)"
proof -
  let ?i = "\<lparr>it_Kind = ''magic-link'', it_UserID = None, it_Identifier = ''a@x.io'',
      it_ReplaceExisting = True, it_TTL = 60\<rparr>"
  let ?tok = "\<lparr>tk_ID = ''i'', tk_UserID = None, tk_Kind = ''magic-link'', tk_Identifier = ''a@x.io'',
      tk_TokenHash = ''#r'', tk_CreatedAt = 100, tk_ExpiresAt = 160, tk_ConsumedAt = None\<rparr>"
  have "fst (issueToken w_cfg ?i (world w_core)) = Inr (''r'', ?tok)" by code_simp
  then obtain s' where run: "issueToken w_cfg ?i (world w_core) = (Inr (''r'', ?tok), s')" by (metis prod.collapse)
  have env: "envKept (issueToken w_cfg ?i)"
    unfolding issueToken_def by (intro env_intros)
  have "faults s' = []" "clock s' = 100" using envKeptD [OF env run] by simp_all
  then show ?thesis using issue_then_consume [OF run, of s'] run by auto
qed

section \<open>Creation of a user\<close>

lemma wf_credentials:
  "wfTables t \<Longrightarrow> distinct (map cr_UserID (credentials t)) \<and> (\<forall>c \<in> set (credentials t). cr_UserID c \<in> userIDs (users t))"
  by (simp add: wfTables_def okRows_def)

lemma credentials_of_new:
  assumes "wfTables t" and "uniqUsers (users t @ [v])"
  shows "\<forall>c \<in> set (credentials t). cr_UserID c \<noteq> u_ID v"
proof
  fix c assume "c \<in> set (credentials t)"
  then have "cr_UserID c \<in> u_ID ` set (users t)" using wf_credentials [OF assms(1)] by (simp add: userIDs_def)
  moreover have "u_ID v \<notin> u_ID ` set (users t)" using assms(2) by (simp add: uniqUsers_def)
  ultimately show "cr_UserID c \<noteq> u_ID v" by metis
qed

lemma updateWhere_none: "\<forall>r \<in> set rows. \<not> p r \<Longrightarrow> updateWhere p f rows = rows"
  by (simp add: updateWhere_def map_idI)

lemma insertUser_Inr:
  assumes "insertUser cfg u h at s = (Inr x, s')" and wf: "wfTables (db s)"
  shows "db s' = (db s)\<lparr>users := users (db s) @ [u],
       credentials := (if h = [] then credentials (db s)
         else credentials (db s) @ [\<lparr>cr_UserID = u_ID u, cr_PasswordHash = h, cr_CreatedAt = at,
                                     cr_UpdatedAt = at\<rparr>])\<rparr> \<and>
     uniqUsers (users (db s) @ [u])"
proof -
  obtain a b where body: "andThen (veto (cf_beforeUserCreate cfg u)) (\<lambda>_.
        andThen (Users_Create u) (\<lambda>_.
        andThen (if h \<noteq> []
                 then Users_SetCredential \<lparr>cr_UserID = u_ID u, cr_PasswordHash = h,
                        cr_CreatedAt = at, cr_UpdatedAt = at\<rparr>
                 else ret ()) (\<lambda>_.
        veto (cf_afterUserInsert cfg u)))) a = (Inr x, b)" and ab: "db a = db s" "db s' = db b"
    using assms(1) unfolding insertUser_def by (auto elim: transaction_InrE)
  have uq: "uniqUsers (users (db s) @ [u])"
    using body ab by (auto simp: success_simps sql_success Users_Create_def)
  have cr: "updateWhere (\<lambda>r. cr_UserID r = u_ID u) f (credentials (db s)) = credentials (db s)"
    "countWhere (\<lambda>r. cr_UserID r = u_ID u) (credentials (db s)) = 0" for f
    using credentials_of_new [OF wf uq] by (simp_all add: updateWhere_none)
  show ?thesis
    using body ab uq
    by (auto simp: success_simps sql_success Users_Create_def Users_SetCredential_def cr split: if_splits)
qed

lemma createUser_run:
  "createUser cfg i h s =
     (if Normalize (ci_Email i) = [] \<or> \<not> Valid (cf_parseAddress cfg) (Normalize (ci_Email i))
      then (Inl (api CodeInvalidRequest), s)
      else let u = newUser i (ids s (next_id s)) (clock s);
               (r, t) = insertUser cfg u h (clock s) (s\<lparr>next_id := Suc (next_id s)\<rparr>)
           in case r of
                Inl e \<Rightarrow> (Inl (if isConflict e then api CodeEmailAlreadyExists else publicError e), t)
              | Inr _ \<Rightarrow> (Inr u, t\<lparr>audit := audit t @ [Hooked ''UserCreate'' (u_ID u),
                    Emitted ''auth.sign_up'' (u_ID u)
                      [(''email_verified'', if ci_EmailVerified i then ''true'' else ''false'')]]\<rparr>))"
  by (simp add: createUser_def Let_def andThen_def now_def newUUID_def mapFail_def runAfter_def emit_def
      oper_defs newUser_def split: prod.split sum.split)

lemma newUser_simps [simp]:
  "u_ID (newUser i x at) = x" "u_EmailNormalized (newUser i x at) = Normalize (ci_Email i)"
  "u_EmailVerifiedAt (newUser i x at) = (if ci_EmailVerified i then Some at else None)"
  "u_DisabledAt (newUser i x at) = None" "u_Role (newUser i x at) = []"
  by (simp_all add: newUser_def)

lemma insertUser_Inl: "insertUser cfg u h at s = (Inl e, s') \<Longrightarrow> \<not> in_tx s \<Longrightarrow> db s' = db s"
  unfolding insertUser_def by (rule transaction_Inl_db [THEN conjunct1])



section \<open>Proof of an address\<close>

lemma Update_user_Inr:
  "Users_Update m s = (Inr x, s') \<Longrightarrow>
     db s' = (db s)\<lparr>users := updateWhere (\<lambda>u. u_ID u = u_ID m) (userUpdateOf m) (users (db s))\<rparr>"
  by (auto simp: Users_Update_def success_simps sql_success)

text \<open>The credential of an unverified user goes, and an absent one is no failure.\<close>

lemma dropCredential_Inr:
  assumes "dropCredential uid s = (Inr x, s')"
  shows "db s' = (db s)\<lparr>credentials := deleteWhere (\<lambda>c. cr_UserID c = uid) (credentials (db s))\<rparr>"
  using assms
  by (auto simp: dropCredential_def caught_def Users_DeleteCredential_def deleteRows_def stmt_def oper_defs
      requireAffected_def split: if_splits)

lemma DeleteByUser_Inr:
  "Sessions_DeleteByUser u s = (Inr n, s') \<Longrightarrow>
     db s' = (db s)\<lparr>sessions := deleteWhere (\<lambda>x. se_UserID x = u) (sessions (db s))\<rparr>"
  by (auto simp: Sessions_DeleteByUser_def sql_success)

lemma takeOver_Inr:
  assumes "takeOver u keep at s = (Inr x, s')"
  shows "db s' = (db s)\<lparr>
           users := updateWhere (\<lambda>x. u_ID x = u_ID u)
              (userUpdateOf (u\<lparr>u_EmailVerifiedAt := Some at, u_UpdatedAt := at\<rparr>)) (users (db s)),
           sessions := deleteWhere (\<lambda>x. se_UserID x = u_ID u) (sessions (db s)),
           credentials := (if keep then credentials (db s)
             else deleteWhere (\<lambda>c. cr_UserID c = u_ID u) (credentials (db s)))\<rparr>"
  using assms unfolding takeOver_def
  by (elim transaction_InrE)
    (auto simp: success_simps split: if_splits
      dest!: Update_user_Inr dropCredential_Inr DeleteByUser_Inr)

lemma users_wf: "wfTables t \<Longrightarrow> u \<in> set (users t) \<Longrightarrow> v \<in> set (users t) \<Longrightarrow> u_ID u = u_ID v \<Longrightarrow> u = v"
  by (auto simp: wfTables_def okRows_def uniqUsers_def dest: distinct_map_unique)

lemma createUser_Inr:
  assumes "createUser cfg i [] s = (Inr u, s')" and "wfTables (db s)"
  shows "db s' = (db s)\<lparr>users := users (db s) @ [u]\<rparr>" "u_EmailNormalized u = Normalize (ci_Email i)"
    "u_ID u \<notin> u_ID ` set (users (db s))"
proof -
  have run: "u = newUser i (ids s (next_id s)) (clock s)"
    "\<exists>x t. insertUser cfg u [] (clock s) (s\<lparr>next_id := Suc (next_id s)\<rparr>) = (Inr x, t) \<and> db s' = db t"
    using assms(1) by (auto simp: createUser_run Let_def split: if_splits sum.splits prod.splits)
  then obtain x t where ins: "insertUser cfg u [] (clock s) (s\<lparr>next_id := Suc (next_id s)\<rparr>) = (Inr x, t)" "db s' = db t" by blast
  from insertUser_Inr [OF ins(1)] assms(2) ins(2) show "db s' = (db s)\<lparr>users := users (db s) @ [u]\<rparr>"
    "u_ID u \<notin> u_ID ` set (users (db s))" by (auto simp: uniqUsers_def)
  show "u_EmailNormalized u = Normalize (ci_Email i)" using run(1) by simp
qed

lemma createUser_Inl: "createUser cfg i hsh s = (Inl e, s') \<Longrightarrow> \<not> in_tx s \<Longrightarrow> db s' = db s"
  by (auto simp: createUser_run Let_def split: if_splits sum.splits prod.splits dest!: insertUser_Inl)

lemma env_createUser [env_intros]: "envKept (createUser cfg i hsh)"
  unfolding createUser_def insertUser_def by (intro env_intros)

lemma env_proveEmail: "envKept (proveEmailOwnership uid keep)"
  unfolding proveEmailOwnership_def takeOver_def dropCredential_def by (intro env_intros)

lemma proveEmailOwnership_Inr:
  assumes "proveEmailOwnership uid keep s = (Inr x, s')"
  shows "\<exists>u \<in> set (users (db s)). u_ID u = uid \<and>
    (if u_EmailVerifiedAt u \<noteq> None then db s' = db s
     else db s' = (db s)\<lparr>
       users := updateWhere (\<lambda>x. u_ID x = uid)
          (userUpdateOf (u\<lparr>u_EmailVerifiedAt := Some (clock s), u_UpdatedAt := clock s\<rparr>)) (users (db s)),
       sessions := deleteWhere (\<lambda>x. se_UserID x = uid) (sessions (db s)),
       credentials := (if keep then credentials (db s)
         else deleteWhere (\<lambda>c. cr_UserID c = uid) (credentials (db s)))\<rparr>)"
proof -
  obtain u t where g: "Users_GetByID uid s = (Inr u, t)"
    and k: "(if u_EmailVerifiedAt u \<noteq> None then ret ()
     else andThen now (\<lambda>at.
       andThen (mapFail publicError (takeOver u keep at)) (\<lambda>_.
       emit ''auth.email_verified'' (u_ID u) []))) t = (Inr x, s')"
    using assms(1) unfolding proveEmailOwnership_def andThen_Inr mapFail_Inr by blast
  have u: "u \<in> set (users (db s))" "u_ID u = uid" "db t = db s" "clock t = clock s"
    using g by (auto simp: Users_GetByID_def sql_success dest!: find_SomeD)
  show ?thesis
    using k u
    by (auto simp: success_simps now_Inr emit_Inr split: if_splits dest!: takeOver_Inr intro!: bexI [of _ u])
qed

text \<open>C15. A proof of an address that was not verified yet takes the account over for its owner, as
  one unit: the address is verified, every session of the user is gone, and so is a password that
  somebody planted (unless the flow keeps it). Nothing of another user changes. A failure at any
  statement changes nothing, and so does a repeated proof.\<close>

theorem prove_email_takes_over:
  assumes "proveEmailOwnership uid keep s = (r, s')" and "\<not> in_tx s"
  shows "case r of
      Inl e \<Rightarrow> db s' = db s
    | Inr _ \<Rightarrow> \<exists>u \<in> set (users (db s)). u_ID u = uid \<and>
        (if u_EmailVerifiedAt u \<noteq> None then db s' = db s
         else db s' = (db s)\<lparr>
           users := updateWhere (\<lambda>x. u_ID x = uid)
              (userUpdateOf (u\<lparr>u_EmailVerifiedAt := Some (clock s), u_UpdatedAt := clock s\<rparr>)) (users (db s)),
           sessions := deleteWhere (\<lambda>x. se_UserID x = uid) (sessions (db s)),
           credentials := (if keep then credentials (db s)
             else deleteWhere (\<lambda>c. cr_UserID c = uid) (credentials (db s)))\<rparr>)"
proof (cases r)
  case (Inl e)
  have get: "Users_GetByID uid s = (q, t) \<Longrightarrow> db t = db s \<and> in_tx t = in_tx s" for q t
    by (auto simp: Users_GetByID_def selectOne_def stmt_def split: if_splits)
  have "db s' = db s \<or> (\<exists>u t e'. db t = db s \<and> in_tx t = in_tx s \<and> takeOver u keep (clock t) t = (Inl e', s'))"
    using assms(1) unfolding Inl proveEmailOwnership_def
    by (auto simp: failure_simps mapFail_Inr now_def emit_def andThen_Inl split: if_splits dest!: get)
  then show ?thesis
    using assms(2) Inl transaction_Inl_db unfolding takeOver_def by fastforce
next
  case (Inr x)
  then show ?thesis using proveEmailOwnership_Inr [OF assms(1) [unfolded Inr]] by simp
qed

theorem prove_email_takes_over_witness:
  "\<exists>u \<in> set (users w_core). u_ID u = ''u2'' \<and>
     sessions (db (snd (proveEmailOwnership ''u2'' False (world w_core)))) =
       deleteWhere (\<lambda>x. se_UserID x = ''u2'') (sessions w_core)"
proof -
  have "fst (proveEmailOwnership ''u2'' False (world w_core)) = Inr ()" by code_simp
  then obtain s' where run: "proveEmailOwnership ''u2'' False (world w_core) = (Inr (), s')"
    by (metis prod.collapse)
  have "\<forall>u \<in> set (users w_core). u_EmailVerifiedAt u = None" by code_simp
  then show ?thesis using prove_email_takes_over [OF run] run by auto
qed

section \<open>The password change\<close>

lemma Sessions_Delete_nofault:
  "faults s = [] \<Longrightarrow> Sessions_Delete i s = (r, s') \<Longrightarrow>
     s' = s\<lparr>db := (db s)\<lparr>sessions := deleteWhere (\<lambda>x. se_ID x = i) (sessions (db s))\<rparr>\<rparr> \<and>
     (\<forall>e. r = Inl e \<longrightarrow> e = ErrNotFound)"
  by (auto simp: Sessions_Delete_def deleteRows_def stmt_def andThen_def requireAffected_def ensure_def
      split: if_splits)

lemma revokeEach_Inl: "\<not> revokeEach k ss n s = (Inl e, s')"
  by (induction ss arbitrary: n s) (auto simp: ret_def caught_eq andThen_def runAfter_def split: if_splits)

lemma revokeEach_nofault:
  "faults s = [] \<Longrightarrow> revokeEach k ss n s = (r, s') \<Longrightarrow>
     db s' = (db s)\<lparr>sessions := deleteWhere (\<lambda>x. se_ID x \<in> se_ID ` set ss \<and> se_ID x \<noteq> k) (sessions (db s))\<rparr> \<and>
     faults s' = []"
proof (induction ss arbitrary: n s)
  case Nil
  then show ?case by (simp add: ret_def deleteWhere_def)
next
  case (Cons y ys)
  show ?case
  proof (cases "se_ID y = k")
    case True
    then have eq: "(\<lambda>x. se_ID x \<in> se_ID ` set (y # ys) \<and> se_ID x \<noteq> k) =
        (\<lambda>x. se_ID x \<in> se_ID ` set ys \<and> se_ID x \<noteq> k)"
      by auto
    show ?thesis unfolding eq by (rule Cons.IH [OF Cons.prems(1)]) (use Cons.prems(2) True in simp)
  next
    case False
    obtain r0 s0 where d: "Sessions_Delete (se_ID y) s = (r0, s0)" by fastforce
    note del = Sessions_Delete_nofault [OF Cons.prems(1) d]
    have run: "revokeEach k ys (n + 1) (s0\<lparr>audit := audit s0 @ [Hooked ''SignOut'' (se_ID y)]\<rparr>) = (r, s')"
      using Cons.prems(2) False del d
      by (auto simp: caught_eq andThen_def runAfter_def split: sum.splits)
    have "faults (s0\<lparr>audit := audit s0 @ [Hooked ''SignOut'' (se_ID y)]\<rparr>) = []" using del Cons.prems(1) by simp
    note ih = Cons.IH [OF this run]
    have "filter (\<lambda>x. \<not> (se_ID x \<in> se_ID ` set ys \<and> se_ID x \<noteq> k)) (filter (\<lambda>x. se_ID x \<noteq> se_ID y) (sessions (db s))) =
        filter (\<lambda>x. \<not> (se_ID x \<in> se_ID ` set (y # ys) \<and> se_ID x \<noteq> k)) (sessions (db s))"
      using False by (auto intro!: filter_cong)
    then show ?thesis using ih del by (simp add: deleteWhere_def)
  qed
qed

lemma storePassword_Inr:
  assumes "storePassword u h at s = (Inr v, s')"
  shows "u_ID v = u_ID u \<and> sessions (db s') = sessions (db s) \<and>
    (\<forall>c \<in> set (credentials (db s')). cr_UserID c = u_ID u \<longrightarrow> cr_PasswordHash c = h) \<and>
    u_ID u \<in> cr_UserID ` set (credentials (db s'))"
proof -
  obtain a b where ab: "db a = db s" "db s' = db b" and body:
    "andThen (Users_SetCredential \<lparr>cr_UserID = u_ID u, cr_PasswordHash = h,
                   cr_CreatedAt = at, cr_UpdatedAt = at\<rparr>) (\<lambda>_.
        if \<not> u_MustChangePassword u then ret u
        else let u = u\<lparr>u_MustChangePassword := False, u_UpdatedAt := at\<rparr>
             in andThen (Users_Update u) (\<lambda>_. ret u)) a = (Inr v, b)"
    using assms unfolding storePassword_def by (auto elim: transaction_InrE)
  obtain c0 where set: "Users_SetCredential \<lparr>cr_UserID = u_ID u, cr_PasswordHash = h,
                   cr_CreatedAt = at, cr_UpdatedAt = at\<rparr> a = (Inr (), c0)"
    and c0: "credentials (db b) = credentials (db c0)" "sessions (db b) = sessions (db c0)" "u_ID v = u_ID u"
    using body by (auto simp: success_simps Let_def split: if_splits dest!: Update_user_Inr)
  have "u_ID u \<in> cr_UserID ` set (credentials (db c0))"
    using set by (auto simp: Users_SetCredential_def success_simps sql_success countWhere_pos
        image_updateWhere split: if_splits intro: rev_image_eqI)
  moreover have "sessions (db c0) = sessions (db a) \<and>
      (\<forall>c \<in> set (credentials (db c0)). cr_UserID c = u_ID u \<longrightarrow> cr_PasswordHash c = h)"
    using set by (auto simp: Users_SetCredential_def success_simps sql_success countWhere_pos
        set_updateWhere split: if_splits)
  ultimately show ?thesis using ab c0 by simp
qed

lemma storePassword_Inl: "storePassword u h at s = (Inl e, s') \<Longrightarrow> \<not> in_tx s \<Longrightarrow> db s' = db s"
  unfolding storePassword_def by (rule transaction_Inl_db [THEN conjunct1])

lemma env_storePassword [env_intros]: "envKept (storePassword u h at)"
  unfolding storePassword_def by (intro env_intros)

lemma revokeOther_Inr:
  assumes "revokeOtherSessions u k s = (r, s')" and "faults s = []" and uq: "uniqSessions (sessions (db s))"
  shows "credentials (db s') = credentials (db s) \<and>
    set (sessions (db s')) = {x \<in> set (sessions (db s)). se_UserID x = u \<longrightarrow> se_ID x = k}"
proof -
  let ?mine = "orderByDesc (\<lambda>s. (se_CreatedAt s, se_ID s)) (filter (\<lambda>s. se_UserID s = u) (sessions (db s)))"
  have set_mine: "set ?mine = {x \<in> set (sessions (db s)). se_UserID x = u}" by (simp add: orderByDesc_def)
  have "revokeEach k ?mine 0 s = (r, s')"
    using assms by (simp add: revokeOtherSessions_def caught_def Sessions_ListByUser_def select_def stmt_def)
  note run = revokeEach_nofault [OF assms(2) this]
  have "se_ID ` set ?mine = se_ID ` {x \<in> set (sessions (db s)). se_UserID x = u}" by (simp only: set_mine)
  moreover have "x = y" if "x \<in> set (sessions (db s))" "y \<in> set (sessions (db s))" "se_ID x = se_ID y" for x y
    using that uq by (auto simp: uniqSessions_def dest: distinct_map_unique)
  ultimately show ?thesis using run by (auto simp: image_iff)
qed

text \<open>The steps of a successful change.\<close>

lemma ChangePassword_Inr:
  assumes "ChangePassword cfg i s = (Inr x, s')"
  shows "\<exists>u s2 c ps hash.
    u_ID u = cp_UserID i \<and>
    checkLimit cfg (keyOf OpPasswordChange (cp_ClientIP i) [] (u_ID u)) (tick s) = (Inr (), s2) \<and>
    c \<in> set (credentials (db s2)) \<and> cr_UserID c = u_ID u \<and>
    cf_verifyPassword cfg (cp_CurrentPassword i) (cr_PasswordHash c) = Inr (True, ps) \<and>
    cf_minLength cfg \<le> RuneCount (cp_NewPassword i) \<and> RuneCount (cp_NewPassword i) \<le> cf_maxLength cfg \<and>
    cf_hashPassword cfg (cp_NewPassword i) = Inr hash \<and>
    applyPassword i u hash (tick s2) = (Inr x, s')"
proof -
  obtain u s1 s2 s3 cred s4 where g: "GetUser (cp_UserID i) s = (Inr u, s1)"
    and l: "checkLimit cfg (keyOf OpPasswordChange (cp_ClientIP i) [] (u_ID u)) s1 = (Inr (), s2)"
    and p: "checkPassword cfg (cp_NewPassword i) s2 = (Inr (), s3)"
    and c: "optional (Users_GetCredential (u_ID u)) s3 = (Inr cred, s4)"
    and k: "(case cred of
       None \<Rightarrow> fail (api CodeNoPasswordCredential)
     | Some c \<Rightarrow>
         (case cf_verifyPassword cfg (cp_CurrentPassword i) (cr_PasswordHash c) of
            Inl e \<Rightarrow> fail (with_cause CodeInternal e)
          | Inr (ok, _) \<Rightarrow>
              if \<not> ok then
                andThen (emit ''auth.sign_in_failed'' (u_ID u) [(''reason'', ''password_change_denied'')])
                  (\<lambda>_. fail (api CodeInvalidCredentials))
              else case cf_hashPassword cfg (cp_NewPassword i) of
                     Inl e \<Rightarrow> fail (with_cause CodeInternal e)
                   | Inr hash \<Rightarrow> applyPassword i u hash)) s4 = (Inr x, s')"
    using assms unfolding ChangePassword_def andThen_Inr by auto
  have u: "u_ID u = cp_UserID i" "s1 = tick s"
    using g by (auto simp: GetUser_def success_simps Users_GetByID_def sql_success dest!: find_SomeD)
  have p': "s3 = s2" "cf_minLength cfg \<le> RuneCount (cp_NewPassword i)" "RuneCount (cp_NewPassword i) \<le> cf_maxLength cfg"
    using p by (auto simp: checkPassword_def Let_def success_simps)
  obtain c ps hash where "cred = Some c"
      "cf_verifyPassword cfg (cp_CurrentPassword i) (cr_PasswordHash c) = Inr (True, ps)"
      "cf_hashPassword cfg (cp_NewPassword i) = Inr hash" "applyPassword i u hash s4 = (Inr x, s')"
    using k by (auto simp: success_simps split: option.splits sum.splits if_splits)
  moreover from this have "c \<in> set (credentials (db s2))" "cr_UserID c = u_ID u" "s4 = tick s2"
    using c p' by (auto simp: optional_Inr Users_GetCredential_def sql_success dest!: find_SomeD)
  ultimately show ?thesis using u l p' by blast
qed

lemma applyPassword_Inl:
  assumes "applyPassword i u hash s = (Inl e, s')" and "\<not> in_tx s"
  shows "db s' = db s"
proof -
  have "\<not> revokeOtherSessions v k t = (Inl e', t')" for v k t e' t'
    by (auto simp: revokeOtherSessions_def caught_eq ret_def revokeEach_Inl split: sum.split)
  then have "\<exists>e'. storePassword u hash (clock s) s = (Inl e', s')"
    using assms(1)
    by (auto simp: applyPassword_def failure_simps success_simps now_def runAfter_def emit_def split: if_splits)
  then show ?thesis using assms(2) storePassword_Inl by blast
qed

text \<open>\<open>failSafe m\<close>: a failure of the operation, outside a transaction, leaves every table but the
  limiter's as it was. The rules follow the structure of an operation: reads first, one atomic
  write last.\<close>

definition failSafe :: "(sys, 'a) oper \<Rightarrow> bool" where
  "failSafe m \<longleftrightarrow> (\<forall>s e s'. m s = (Inl e, s') \<and> \<not> in_tx s \<longrightarrow>
     (db s')\<lparr>rate_limits := []\<rparr> = (db s)\<lparr>rate_limits := []\<rparr>)"

named_theorems safe_intros

lemma isolated_run:
  assumes "isolated m" and run: "m s = (r, s')"
  shows "(db s')\<lparr>rate_limits := []\<rparr> = (db s)\<lparr>rate_limits := []\<rparr> \<and> in_tx s' = in_tx s"
proof
  have "dbInv (\<lambda>t. t\<lparr>rate_limits := []\<rparr> = (db s)\<lparr>rate_limits := []\<rparr>) m"
    using assms(1) by (simp add: isolated_def)
  from dbInvD [OF this run] show "(db s')\<lparr>rate_limits := []\<rparr> = (db s)\<lparr>rate_limits := []\<rparr>" by simp
  show "in_tx s' = in_tx s" using envKeptD(2) [of m s r s'] run assms(1) by (simp add: isolated_def)
qed

lemma isolatedI: "envKept m \<Longrightarrow> (\<And>Q. dbInv Q m) \<Longrightarrow> isolated m"
  by (simp add: isolated_def)

lemma isolated_wf: "isolated m \<Longrightarrow> m s = (r, s') \<Longrightarrow> wfTables (db s) \<Longrightarrow> wfTables (db s')"
  unfolding isolated_def by (blast intro: dbInvD)

lemma sound_keeps: "soundLimiter cfg \<Longrightarrow> limiterKeeps cfg wfTables"
  by (auto simp: soundLimiter_def limiterKeeps_def isolated_def split: limiter.splits)

lemma failSafe_isolated: "isolated m \<Longrightarrow> failSafe m"
  unfolding failSafe_def using isolated_run by blast

lemma failSafe_fail [safe_intros]: "failSafe (fail e)" "failSafe (ret x)"
  by (simp_all add: failSafe_def oper_defs)

lemma failSafe_andThen [safe_intros]:
  assumes "isolated m" and "\<And>x. failSafe (k x)"
  shows "failSafe (andThen m k)"
  unfolding failSafe_def andThen_Inl
  using assms(2) isolated_run [OF assms(1)] unfolding failSafe_def by metis

lemma failSafe_cases [safe_intros]:
  "failSafe a \<Longrightarrow> failSafe b \<Longrightarrow> failSafe (if c then a else b)"
  "failSafe a \<Longrightarrow> (\<And>x. failSafe (g x)) \<Longrightarrow> failSafe (case z of None \<Rightarrow> a | Some x \<Rightarrow> g x)"
  "(\<And>e. failSafe (h e)) \<Longrightarrow> (\<And>x. failSafe (f x)) \<Longrightarrow> failSafe (case w of Inl e \<Rightarrow> h e | Inr x \<Rightarrow> f x)"
  "(\<And>x y. failSafe (q x y)) \<Longrightarrow> failSafe (case pr of (x, y) \<Rightarrow> q x y)"
  by (simp, cases z, simp_all, cases w, simp_all, cases pr, simp)

lemma failSafe_applyPassword: "failSafe (applyPassword i u hash)"
  unfolding failSafe_def by (auto dest: applyPassword_Inl)

lemma ChangePassword_failSafe:
  assumes "soundLimiter cfg"
  shows "failSafe (ChangePassword cfg i)"
  unfolding ChangePassword_def GetUser_def checkPassword_def Let_def Users_GetByID_def Users_GetCredential_def
  using assms
  by (intro safe_intros isolated_checkLimit failSafe_applyPassword isolatedI env_intros db_intros)


text \<open>C20. A failed password change changes no table but the counters of the limiter, wherever the
  database fails: the old password and every session stay.\<close>

theorem change_password_failure:
  assumes "ChangePassword cfg i s = (Inl e, s')" and "soundLimiter cfg" and "\<not> in_tx s"
  shows "(db s')\<lparr>rate_limits := []\<rparr> = (db s)\<lparr>rate_limits := []\<rparr>"
  using ChangePassword_failSafe [OF assms(2)] assms(1,3) unfolding failSafe_def by blast

definition changeOf :: "string \<Rightarrow> string \<Rightarrow> ChangePasswordInput" where
  "changeOf old new = \<lparr>cp_UserID = ''u2'', cp_CurrentPassword = old, cp_NewPassword = new,
     cp_KeepSessionID = [], cp_KeepOtherSessions = False, cp_ClientIP = ''1.2.3.4''\<rparr>"


theorem change_password_failure_witness:
  "(db (snd (ChangePassword w_cfg (changeOf ''guess'' ''better password'') (world w_core))))\<lparr>rate_limits := []\<rparr> = w_core\<lparr>rate_limits := []\<rparr>"
proof -
  have "fst (ChangePassword w_cfg (changeOf ''guess'' ''better password'') (world w_core)) = Inl (api CodeInvalidCredentials)"
    by code_simp
  then obtain s' where run: "ChangePassword w_cfg (changeOf ''guess'' ''better password'') (world w_core) =
      (Inl (api CodeInvalidCredentials), s')"
    by (metis prod.collapse)
  show ?thesis using change_password_failure [OF run sound_w_cfg] run by simp
qed

end
