(* ===== verification/Reachable.thy ===== *)
theory Reachable
  imports Core_Properties
begin

text \<open>
  The composition of the operations: a request is one public call, a run is any sequence of
  requests in which the clock and the schedule of faults change freely, and every database that a
  run reaches satisfies the constraints of the schema.
\<close>


section \<open>Every reachable database satisfies the schema\<close>

text \<open>The public operations of the core as one datatype of requests.\<close>

datatype request =
    RqSignIn SignInInput
  | RqSignOutToken string
  | RqChangePassword ChangePasswordInput
  | RqCreateUser CreateUserInput
  | RqLookup string
  | RqIssueToken IssueTokenInput
  | RqVerifyEmail string
  | RqRevokeUserSessions string
  | RqRevokeOther string
  | RqCleanup

definition discard :: "(sys, 'a) oper \<Rightarrow> sys \<Rightarrow> sys" where
  "discard m s = snd (m s)"

definition serve :: "config \<Rightarrow> request \<Rightarrow> sys \<Rightarrow> sys" where
  "serve cfg rq = (case rq of
      RqSignIn i \<Rightarrow> discard (SignIn cfg i)
    | RqSignOutToken t \<Rightarrow> discard (SignOutToken cfg t)
    | RqChangePassword i \<Rightarrow> discard (ChangePassword cfg i)
    | RqCreateUser i \<Rightarrow> discard (CreateUser cfg i)
    | RqLookup h \<Rightarrow> discard (lookupSession cfg h)
    | RqIssueToken i \<Rightarrow> discard (issueToken cfg i)
    | RqVerifyEmail t \<Rightarrow> discard (VerifyEmailToken cfg t)
    | RqRevokeUserSessions u \<Rightarrow> discard (RevokeUserSessions u)
    | RqRevokeOther i \<Rightarrow> discard (RevokeOtherSessions cfg i)
    | RqCleanup \<Rightarrow> discard Cleanup)"

text \<open>A run: requests in any order, the clock and the fault schedule between them are arbitrary.\<close>

inductive reaches_state :: "config \<Rightarrow> sys \<Rightarrow> bool" for cfg where
  start: "db s = emptyTables \<Longrightarrow> reaches_state cfg s"
| request: "reaches_state cfg s \<Longrightarrow> reaches_state cfg (serve cfg rq s)"
| environment: "reaches_state cfg s \<Longrightarrow> db s' = db s \<Longrightarrow> reaches_state cfg s'"

inductive_cases reaches_stateE: "reaches_state cfg s"

lemma wf_SignOut [db_intros]: "dbInv wfTables (SignOut se)"
  unfolding SignOut_def by (intro db_intros)

lemma wf_requests [db_intros]:
  "dbInv wfTables (SignOutToken cfg t)" "dbInv wfTables (CreateUser cfg i)"
  "dbInv wfTables (VerifyEmailToken cfg t)" "dbInv wfTables (RevokeUserSessions u)"
  "dbInv wfTables (RevokeOtherSessions cfg x)" "dbInv wfTables Cleanup"
  unfolding SignOutToken_def CreateUser_def VerifyEmailToken_def RevokeUserSessions_def
    RevokeOtherSessions_def Cleanup_def GetUser_def
  by (intro db_intros)+

lemma dbInv_discard: "dbInv Q m \<Longrightarrow> Q (db s) \<Longrightarrow> Q (db (discard m s))"
  unfolding discard_def using dbInvD by (metis prod.collapse)

lemma wf_serve:
  assumes "limiterKeeps cfg wfTables" and "wfTables (db s)"
  shows "wfTables (db (serve cfg rq s))"
  using assms
  by (cases rq) (auto simp: serve_def intro!: dbInv_discard wf_SignIn wf_ChangePassword db_intros)


end
