(* ===== verification/Http_Edge.thy ===== *)
theory Http_Edge
  imports Rate_Limit
begin

text \<open>
  The HTTP edge of \<open>http.go\<close> and \<open>sessions.go\<close>: the fields of a request that the handlers read,
  the token of a request, the origin check, the check of redirect targets and the client address
  behind proxies. URL and address parsing belong to the standard library and are fields of the
  record \<open>edge\<close>; \<open>url.PathUnescape\<close> is written out, because the redirect check rests on it.
  \<open>strings.EqualFold\<close> is the comparison of the lower-case forms (ASCII).
\<close>

section \<open>Requests\<close>

text \<open>\<open>rq_Headers\<close> gives the first value of a header and the empty string without one.
  \<open>rq_Forwarded\<close> lists the values of X-Forwarded-For.\<close>

record httpRequest =
  rq_Method :: string
  rq_Cookies :: "(string \<times> string) list"
  rq_Headers :: "string \<Rightarrow> string"
  rq_Forwarded :: "string list"
  rq_RemoteAddr :: string
  rq_Host :: string
  rq_TLS :: bool

record parsedURL =
  pu_Scheme :: string
  pu_Host :: string
  pu_HasUser :: bool

record edge =
  eg_cookieName :: string
  eg_trustedOrigins :: "string list"
  eg_strictOrigin :: bool
  eg_parseURL :: "string \<Rightarrow> parsedURL option"
  eg_splitHostPort :: "string \<Rightarrow> string option"
  eg_parseAddr :: "string \<Rightarrow> ipaddr option"
  eg_addrString :: "ipaddr \<Rightarrow> string"
  eg_proxyNets :: "(ipaddr \<Rightarrow> bool) list"

definition EqualFold :: "string \<Rightarrow> string \<Rightarrow> bool" where
  "EqualFold a b \<longleftrightarrow> ToLower a = ToLower b"

definition cookieValue :: "string \<Rightarrow> httpRequest \<Rightarrow> string" where
  "cookieValue name r = (case map_of (rq_Cookies r) name of None \<Rightarrow> [] | Some v \<Rightarrow> v)"

definition bearerToken :: "httpRequest \<Rightarrow> string" where
  "bearerToken r =
     (let header = rq_Headers r ''Authorization'' in
      if length header > 7 \<and> EqualFold (take 7 header) ''Bearer ''
      then TrimSpace (drop 7 header) else [])"

text \<open>\<open>requestToken\<close>: the cookie first and the bearer header second.\<close>

definition requestToken :: "edge \<Rightarrow> httpRequest \<Rightarrow> string" where
  "requestToken eg r =
     (let c = cookieValue (eg_cookieName eg) r in if c \<noteq> [] then c else bearerToken r)"

definition mfaCookieName :: "edge \<Rightarrow> string" where
  "mfaCookieName eg = eg_cookieName eg @ ''.mfa''"

definition requestMFAToken :: "edge \<Rightarrow> httpRequest \<Rightarrow> string \<Rightarrow> string" where
  "requestMFAToken eg r body = (if body \<noteq> [] then body else cookieValue (mfaCookieName eg) r)"

section \<open>The origin check\<close>

definition hasSessionCookie :: "edge \<Rightarrow> httpRequest \<Rightarrow> bool" where
  "hasSessionCookie eg r \<longleftrightarrow> cookieValue (eg_cookieName eg) r \<noteq> []"

definition strictOriginOK :: "httpRequest \<Rightarrow> bool" where
  "strictOriginOK r \<longleftrightarrow> EqualFold (TrimSpace (rq_Headers r ''Sec-Fetch-Site'')) ''same-origin''"

definition TrimSuffixSlash :: "string \<Rightarrow> string" where
  "TrimSuffixSlash s = (if s \<noteq> [] \<and> last s = CHR ''/'' then butlast s else s)"

definition requestOrigin :: "httpRequest \<Rightarrow> string" where
  "requestOrigin r =
     (let scheme = (if rq_TLS r then ''https'' else ''http'');
          forwarded = rq_Headers r ''X-Forwarded-Proto''
      in (if forwarded \<noteq> [] then forwarded else scheme) @ ''://'' @ rq_Host r)"

definition originAllowed :: "edge \<Rightarrow> httpRequest \<Rightarrow> string \<Rightarrow> bool" where
  "originAllowed eg r origin0 =
     (let origin = TrimSuffixSlash origin0 in
      if list_ex (\<lambda>allowed. EqualFold allowed origin) (eg_trustedOrigins eg) then True
      else EqualFold (requestOrigin r) origin)"

text \<open>The origin that the request names: the Origin header, or the origin of the Referer when the
  header is empty or opaque. \<open>None\<close> is a Referer that names no origin.\<close>

definition namedOrigin :: "edge \<Rightarrow> httpRequest \<Rightarrow> string option" where
  "namedOrigin eg r =
     (let origin = TrimSpace (rq_Headers r ''Origin'');
          ref = rq_Headers r ''Referer''
      in if (origin = [] \<or> origin = ''null'') \<and> ref \<noteq> [] then
           (case eg_parseURL eg ref of
              None \<Rightarrow> None
            | Some u \<Rightarrow> if pu_Scheme u = [] \<or> pu_Host u = [] then None
                        else Some (pu_Scheme u @ ''://'' @ pu_Host u))
         else Some origin)"

definition checkOrigin :: "edge \<Rightarrow> httpRequest \<Rightarrow> unit res" where
  "checkOrigin eg r =
     (if rq_Method r \<in> {''GET'', ''HEAD'', ''OPTIONS''} then Inr ()
      else case namedOrigin eg r of
             None \<Rightarrow> Inl (api CodeOriginNotAllowed)
           | Some origin \<Rightarrow>
               if origin = [] then
                 (if eg_strictOrigin eg \<and> hasSessionCookie eg r \<and> \<not> strictOriginOK r
                  then Inl (api CodeOriginNotAllowed) else Inr ())
               else if originAllowed eg r origin then Inr ()
               else Inl (api CodeOriginNotAllowed))"

section \<open>Redirect targets\<close>

definition hexValue :: "char \<Rightarrow> nat option" where
  "hexValue c =
     (let n = of_char c :: nat in
      if 48 \<le> n \<and> n \<le> 57 then Some (n - 48)
      else if 97 \<le> n \<and> n \<le> 102 then Some (n - 87)
      else if 65 \<le> n \<and> n \<le> 70 then Some (n - 55) else None)"

fun PathUnescape :: "string \<Rightarrow> string option" where
  "PathUnescape [] = Some []"
| "PathUnescape (c # cs) =
     (if c = CHR ''%'' then
        (case cs of
           a # b # rest \<Rightarrow>
             (case (hexValue a, hexValue b) of
                (Some x, Some y) \<Rightarrow> map_option (\<lambda>t. char_of (16 * x + y) # t) (PathUnescape rest)
              | _ \<Rightarrow> None)
         | _ \<Rightarrow> None)
      else map_option (\<lambda>t. c # t) (PathUnescape cs))"

definition hasControlRune :: "string \<Rightarrow> bool" where
  "hasControlRune s \<longleftrightarrow> list_ex (\<lambda>c. of_char c < (0x20 :: nat) \<or> of_char c = (0x7f :: nat)) s"

definition unsafeForm :: "string \<Rightarrow> bool" where
  "unsafeForm form \<longleftrightarrow> CHR 0x5C \<in> set form \<or> hasControlRune form \<or> HasPrefix form ''//''"

definition unsafeReference :: "string \<Rightarrow> bool" where
  "unsafeReference candidate =
     (case PathUnescape candidate of
        None \<Rightarrow> True
      | Some decoded \<Rightarrow>
          list_ex unsafeForm (candidate # (if decoded \<noteq> candidate then [decoded] else [])))"

definition safeRedirect :: "edge \<Rightarrow> string \<Rightarrow> string \<Rightarrow> string" where
  "safeRedirect eg candidate0 fallback =
     (let candidate = TrimSpace candidate0 in
      if candidate = [] then fallback
      else if unsafeReference candidate then fallback
      else if HasPrefix candidate ''/'' then
        (case eg_parseURL eg candidate of
           None \<Rightarrow> fallback
         | Some u \<Rightarrow> if pu_Scheme u \<noteq> [] \<or> pu_Host u \<noteq> [] then fallback else candidate)
      else case eg_parseURL eg candidate of
             None \<Rightarrow> fallback
           | Some u \<Rightarrow>
               if pu_Scheme u = [] \<or> pu_Host u = [] then fallback
               else if pu_HasUser u then fallback
               else if list_ex (\<lambda>allowed. EqualFold allowed (pu_Scheme u @ ''://'' @ pu_Host u))
                         (eg_trustedOrigins eg) then candidate
               else fallback)"

section \<open>The client address\<close>

definition trustedProxy :: "edge \<Rightarrow> ipaddr \<Rightarrow> bool" where
  "trustedProxy eg addr = list_ex (\<lambda>block. block (Unmap addr)) (eg_proxyNets eg)"

definition remoteHost :: "edge \<Rightarrow> httpRequest \<Rightarrow> string" where
  "remoteHost eg r =
     (case eg_splitHostPort eg (rq_RemoteAddr r) of None \<Rightarrow> rq_RemoteAddr r | Some host \<Rightarrow> host)"

text \<open>The hops of the header in order, and the walk from the right. \<open>walkHops\<close> gets the hops
  reversed.\<close>

definition forwardedHops :: "httpRequest \<Rightarrow> string list" where
  "forwardedHops r = concat (map (\<lambda>value. map TrimSpace (Split value CHR '','')) (rq_Forwarded r))"

fun walkHops :: "edge \<Rightarrow> string \<Rightarrow> string list \<Rightarrow> string" where
  "walkHops eg peer [] = peer"
| "walkHops eg peer (h # hs) =
     (case eg_parseAddr eg h of
        None \<Rightarrow> peer
      | Some hop \<Rightarrow> if \<not> trustedProxy eg hop then eg_addrString eg (Unmap hop)
                    else walkHops eg peer hs)"

definition clientIP :: "edge \<Rightarrow> httpRequest \<Rightarrow> string" where
  "clientIP eg r =
     (let peer = remoteHost eg r in
      if eg_proxyNets eg = [] then peer
      else case eg_parseAddr eg peer of
             None \<Rightarrow> peer
           | Some addr \<Rightarrow>
               if \<not> trustedProxy eg addr then peer
               else walkHops eg peer (rev (forwardedHops r)))"

section \<open>Properties of the edge\<close>

lemma namedOrigin_empty:
  "namedOrigin eg r = Some [] \<Longrightarrow>
     TrimSpace (rq_Headers r ''Origin'') = [] \<and> rq_Headers r ''Referer'' = []"
  by (auto simp: namedOrigin_def Let_def split: if_splits option.splits)

lemma originAllowed_iff:
  "originAllowed eg r origin \<longleftrightarrow>
     (\<exists>allowed \<in> insert (requestOrigin r) (set (eg_trustedOrigins eg)).
        ToLower allowed = ToLower (TrimSuffixSlash origin))"
  by (auto simp: originAllowed_def EqualFold_def Let_def list_ex_iff)

text \<open>C24. Cross-site request forgery: an unsafe request that passes the origin check names an
  origin that is trusted or the application's own, or it names none at all, and then, in strict
  mode, it carries no session cookie or comes from the same origin by its fetch metadata. An opaque
  Origin without a Referer never passes.\<close>

theorem origin_gate:
  assumes "checkOrigin eg r = Inr ()" and "rq_Method r \<notin> {''GET'', ''HEAD'', ''OPTIONS''}"
  shows "\<exists>origin. namedOrigin eg r = Some origin \<and>
     (if origin = [] then
        TrimSpace (rq_Headers r ''Origin'') = [] \<and> rq_Headers r ''Referer'' = [] \<and>
        (eg_strictOrigin eg \<longrightarrow> cookieValue (eg_cookieName eg) r = [] \<or> strictOriginOK r)
      else (\<exists>allowed \<in> insert (requestOrigin r) (set (eg_trustedOrigins eg)).
              ToLower allowed = ToLower (TrimSuffixSlash origin)))"
proof -
  obtain origin where o: "namedOrigin eg r = Some origin"
    and ok: "if origin = [] then \<not> (eg_strictOrigin eg \<and> hasSessionCookie eg r \<and> \<not> strictOriginOK r)
             else originAllowed eg r origin"
    using assms by (auto simp: checkOrigin_def split: if_splits option.splits)
  show ?thesis
  proof (cases "origin = []")
    case True
    then show ?thesis using o ok namedOrigin_empty [of eg r] by (simp add: hasSessionCookie_def)
  next
    case False
    then show ?thesis using o ok by (simp add: originAllowed_iff)
  qed
qed

text \<open>C25. No open redirect: the result is the fallback, or a reference whose literal and decoded
  forms hold no backslash, no control character and no leading double slash, and which is a path
  or parses to a trusted origin without user information.\<close>

theorem no_open_redirect:
  "safeRedirect eg c fallback = fallback \<or>
     (safeRedirect eg c fallback = TrimSpace c \<and> \<not> unsafeForm (TrimSpace c) \<and>
      (\<exists>d. PathUnescape (TrimSpace c) = Some d \<and> \<not> unsafeForm d) \<and>
      (\<exists>u. eg_parseURL eg (TrimSpace c) = Some u \<and>
         (if HasPrefix (TrimSpace c) ''/'' then pu_Scheme u = [] \<and> pu_Host u = []
          else \<not> pu_HasUser u \<and>
            (\<exists>allowed \<in> set (eg_trustedOrigins eg). ToLower allowed = ToLower (pu_Scheme u @ ''://'' @ pu_Host u)))))"
  by (auto simp: safeRedirect_def unsafeReference_def EqualFold_def Let_def list_ex_iff
      split: if_splits option.splits)

lemma walkHops_stop:
  assumes "\<exists>h \<in> set hs. case eg_parseAddr eg h of None \<Rightarrow> True | Some a \<Rightarrow> \<not> trustedProxy eg a"
  shows "walkHops eg peer (hs @ rest) = walkHops eg peer hs"
  using assms by (induction hs) (auto split: option.splits)

text \<open>A hop that ends the walk: a malformed one, or one outside the trusted blocks.\<close>

definition endsWalk :: "edge \<Rightarrow> string \<Rightarrow> bool" where
  "endsWalk eg h = (case eg_parseAddr eg h of None \<Rightarrow> True | Some a \<Rightarrow> \<not> trustedProxy eg a)"

text \<open>The rate limit key cannot be forged: whatever a client writes in front of the hops that
  the proxies appended, the client address is the same. Without a trusted proxy as the direct peer
  the header has no effect at all.\<close>

theorem client_address_unforgeable:
  assumes "forwardedHops r = forged @ real" and "forwardedHops r' = forged' @ real"
    and "rq_RemoteAddr r = rq_RemoteAddr r'"
    and "(\<exists>h \<in> set real. endsWalk eg h) \<or>
         (\<forall>a. eg_parseAddr eg (remoteHost eg r) = Some a \<longrightarrow> \<not> trustedProxy eg a)"
  shows "clientIP eg r = clientIP eg r'"
proof -
  have peer: "remoteHost eg r' = remoteHost eg r" unfolding remoteHost_def assms(3) ..
  show ?thesis
  proof (cases "\<exists>h \<in> set real. endsWalk eg h")
    case True
    then have "\<exists>h \<in> set (rev real). case eg_parseAddr eg h of None \<Rightarrow> True | Some a \<Rightarrow> \<not> trustedProxy eg a"
      by (simp add: endsWalk_def)
    from walkHops_stop [OF this] show ?thesis
      using assms(1,2) by (simp add: clientIP_def peer Let_def split: option.split)
  next
    case False
    then show ?thesis using assms(4) by (simp add: clientIP_def peer Let_def split: option.split)
  qed
qed

definition w_edge :: edge where
  "w_edge = \<lparr>eg_cookieName = ''sid'', eg_trustedOrigins = [''https://app.io''], eg_strictOrigin = True,
     eg_parseURL = (\<lambda>u. if HasPrefix u ''/'' then Some \<lparr>pu_Scheme = [], pu_Host = [], pu_HasUser = False\<rparr>
       else Some \<lparr>pu_Scheme = ''https'', pu_Host = ''app.io'', pu_HasUser = False\<rparr>),
     eg_splitHostPort = (\<lambda>x. None), eg_parseAddr = (\<lambda>x. Some (IPv4 (bytesOf x))),
     eg_addrString = (\<lambda>a. case a of IPv4 bs \<Rightarrow> stringOf bs | IPv6 bs \<Rightarrow> stringOf bs),
     eg_proxyNets = [\<lambda>a. a = IPv4 (bytesOf ''10.0.0.1'')]\<rparr>"

definition w_request :: "string \<Rightarrow> string list \<Rightarrow> httpRequest" where
  "w_request origin fwd = \<lparr>rq_Method = ''POST'', rq_Cookies = [(''sid'', ''tok'')],
     rq_Headers = (\<lambda>h. if h = ''Origin'' then origin else []), rq_Forwarded = fwd,
     rq_RemoteAddr = ''10.0.0.1'', rq_Host = ''app.io'', rq_TLS = True\<rparr>"

theorem origin_gate_witness:
  "\<exists>origin. namedOrigin w_edge (w_request ''https://APP.io'' []) = Some origin \<and> origin \<noteq> [] \<and>
     checkOrigin w_edge (w_request ''null'' []) = Inl (api CodeOriginNotAllowed)"
proof -
  have "checkOrigin w_edge (w_request ''https://APP.io'' []) = Inr ()"
    "rq_Method (w_request ''https://APP.io'' []) \<notin> {''GET'', ''HEAD'', ''OPTIONS''}"
    "TrimSpace (rq_Headers (w_request ''https://APP.io'' []) ''Origin'') \<noteq> []"
    "checkOrigin w_edge (w_request ''null'' []) = Inl (api CodeOriginNotAllowed)" by code_simp+
  then show ?thesis using origin_gate [of w_edge "w_request ''https://APP.io'' []"] by auto
qed

theorem client_address_unforgeable_witness:
  "clientIP w_edge (w_request [] [''6.6.6.6, 1.2.3.4'']) = clientIP w_edge (w_request [] [''1.2.3.4''])"
proof -
  have hops: "forwardedHops (w_request [] [''6.6.6.6, 1.2.3.4'']) = [''6.6.6.6''] @ [''1.2.3.4'']"
    "forwardedHops (w_request [] [''1.2.3.4'']) = [] @ [''1.2.3.4'']" by code_simp+
  have "endsWalk w_edge ''1.2.3.4''" by code_simp
  then show ?thesis using client_address_unforgeable [OF hops] by (simp add: w_request_def)
qed

end
