(* ===== verification/Principals.thy ===== *)
theory Principals
  imports Http_Edge Core_Properties
begin

text \<open>
  The caller of a request: \<open>principal.go\<close> (cookie, bearer value, credential resolvers of the plugins),
  the bounded cache of \<open>principalcache.go\<close>, and the session endpoints of \<open>handlers_sessions.go\<close>.

  A handler is an operation whose error is the argument of \<open>writeError\<close> and whose value is the
  body of the response; the cookies that it sets are in the trace.
\<close>

section \<open>The instance\<close>

record resolver =
  rv_claims :: "string \<Rightarrow> bool"
  rv_perRequest :: bool
  rv_resolve :: "string \<Rightarrow> httpRequest \<Rightarrow> (sys, Principal option) oper"

record auth =
  au_cfg :: config
  au_edge :: edge
  au_defaultRole :: string
  au_resolvers :: "resolver list"
  au_principalTTL :: duration

definition MethodSession :: string where "MethodSession = ''session''"
definition MethodAPIKey :: string where "MethodAPIKey = ''api_key''"

section \<open>The cache\<close>

definition cacheGet :: "auth \<Rightarrow> string \<Rightarrow> (sys, Principal option) oper" where
  "cacheGet a credential s =
     (case principals s of
        None \<Rightarrow> (Inr None, s)
      | Some entries \<Rightarrow>
          let key = cf_hash (au_cfg a) credential in
          case map_of entries key of
            None \<Rightarrow> (Inr None, s)
          | Some (p, expires) \<Rightarrow>
              if \<not> clock s < expires then (Inr None, s\<lparr>principals := Some (AList.delete key entries)\<rparr>)
              else (Inr (Some p), s))"

definition cachePut :: "auth \<Rightarrow> string \<Rightarrow> Principal \<Rightarrow> (sys, unit) oper" where
  "cachePut a credential p s =
     (case principals s of
        None \<Rightarrow> (Inr (), s)
      | Some entries \<Rightarrow>
          let kept = (if length entries > 4096 then filter (\<lambda>(k, q, expires). clock s < expires) entries
                      else entries)
          in (Inr (), s\<lparr>principals := Some (AList.update (cf_hash (au_cfg a) credential)
                (p, clock s + au_principalTTL a) kept)\<rparr>))"

section \<open>Resolution\<close>

definition effectiveRole :: "auth \<Rightarrow> User \<Rightarrow> string" where
  "effectiveRole a user = (if u_Role user = [] then au_defaultRole a else u_Role user)"

definition sessionPrincipal :: "auth \<Rightarrow> Session \<Rightarrow> User \<Rightarrow> bool \<Rightarrow> Principal" where
  "sessionPrincipal a sess user viaCookie =
     \<lparr>pr_User = user, pr_Session = Some sess, pr_APIKey = None, pr_Role = effectiveRole a user,
      pr_Method = MethodSession, pr_ViaCookie = viaCookie, pr_Organization = None,
      pr_Membership = None\<rparr>"

definition withOrganization :: "Principal \<Rightarrow> Organization option \<Rightarrow> Membership option \<Rightarrow> Principal" where
  "withOrganization p org member =
     (case (org, member) of
        (Some og, Some m) \<Rightarrow>
          if mb_Status m \<noteq> MembershipActive then p
          else p\<lparr>pr_Organization := Some og, pr_Membership := Some m\<rparr>
      | _ \<Rightarrow> p)"

definition sessionByToken :: "auth \<Rightarrow> string \<Rightarrow> (sys, lookup) oper" where
  "sessionByToken a token = lookupSession (au_cfg a) (cf_hash (au_cfg a) token)"

definition principalOf :: "auth \<Rightarrow> bool \<Rightarrow> lookup \<Rightarrow> Principal option" where
  "principalOf a viaCookie l =
     (case l of
        None \<Rightarrow> None
      | Some (sess, user, org, member) \<Rightarrow>
          Some (withOrganization (sessionPrincipal a sess user viaCookie) org member))"

definition fromPluginPrincipal :: "Principal \<Rightarrow> Principal" where
  "fromPluginPrincipal p = p\<lparr>pr_ViaCookie := False\<rparr>"

text \<open>The first resolver that claims the bearer value decides; \<open>None\<close> means that none claims it.\<close>

definition claimant :: "auth \<Rightarrow> string \<Rightarrow> resolver option" where
  "claimant a bearer = find (\<lambda>res. rv_claims res bearer) (au_resolvers a)"

definition readPrincipal :: "auth \<Rightarrow> httpRequest \<Rightarrow> (sys, Principal option) oper" where
  "readPrincipal a r =
     (let c = cookieValue (eg_cookieName (au_edge a)) r; bearer = bearerToken r in
      if c \<noteq> [] then andThen (sessionByToken a c) (\<lambda>l. ret (principalOf a True l))
      else if bearer = [] then ret None
      else case claimant a bearer of
             Some res \<Rightarrow>
               andThen (rv_resolve res bearer r) (\<lambda>p. case p of
                   None \<Rightarrow> fail (api CodeUnauthorized)
                 | Some q \<Rightarrow> ret (Some (fromPluginPrincipal q)))
           | None \<Rightarrow> andThen (sessionByToken a bearer) (\<lambda>l. ret (principalOf a False l)))"

definition perRequestCredential :: "auth \<Rightarrow> string \<Rightarrow> bool" where
  "perRequestCredential a credential =
     list_ex (\<lambda>res. rv_perRequest res \<and> rv_claims res credential) (au_resolvers a)"

definition resolvePrincipal :: "auth \<Rightarrow> httpRequest \<Rightarrow> (sys, Principal option) oper" where
  "resolvePrincipal a r =
     (let credential = requestToken (au_edge a) r;
          cacheable = credential \<noteq> [] \<and> \<not> perRequestCredential a credential
      in andThen (if cacheable then cacheGet a credential else ret None) (\<lambda>cached.
         case cached of
           Some p \<Rightarrow> ret (Some p)
         | None \<Rightarrow>
             andThen (readPrincipal a r) (\<lambda>p. case p of
                 None \<Rightarrow> ret None
               | Some q \<Rightarrow> andThen (if cacheable then cachePut a credential q else ret ())
                             (\<lambda>_. ret (Some q)))))"

definition HasScope :: "Principal \<Rightarrow> string \<Rightarrow> bool" where
  "HasScope p s =
     (case pr_APIKey p of
        Some k \<Rightarrow> ak_Scopes k = [] \<or> s \<in> set (Fields (ak_Scopes k))
      | None \<Rightarrow> pr_Method p = MethodSession)"

text \<open>\<open>requireSessionState\<close>.\<close>

definition requireSessionState :: "auth \<Rightarrow> httpRequest \<Rightarrow> bool \<Rightarrow> (sys, Session \<times> User) oper" where
  "requireSessionState a r gate =
     andThen (resolvePrincipal a r) (\<lambda>p. case p of
         None \<Rightarrow> fail (api CodeUnauthorized)
       | Some q \<Rightarrow>
           (case pr_Session q of
              None \<Rightarrow> fail (api CodeForbidden)
            | Some sess \<Rightarrow>
                if pr_Method q \<noteq> MethodSession then fail (api CodeForbidden)
                else if gate \<and> u_MustChangePassword (pr_User q) then fail (api CodePasswordChangeRequired)
                else ret (sess, pr_User q)))"

abbreviation requireSession :: "auth \<Rightarrow> httpRequest \<Rightarrow> (sys, Session \<times> User) oper" where
  "requireSession a r \<equiv> requireSessionState a r True"

abbreviation requireSessionOpen :: "auth \<Rightarrow> httpRequest \<Rightarrow> (sys, Session \<times> User) oper" where
  "requireSessionOpen a r \<equiv> requireSessionState a r False"

definition originChecked :: "auth \<Rightarrow> httpRequest \<Rightarrow> (sys, unit) oper" where
  "originChecked a r = (case checkOrigin (au_edge a) r of Inl e \<Rightarrow> fail e | Inr _ \<Rightarrow> ret ())"

definition setCookie :: "string \<Rightarrow> string \<Rightarrow> (sys, unit) oper" where
  "setCookie name v s = (Inr (), s\<lparr>audit := audit s @ [CookieSet name v]\<rparr>)"

definition clearCookie :: "auth \<Rightarrow> (sys, unit) oper" where
  "clearCookie a = setCookie (eg_cookieName (au_edge a)) []"

section \<open>The session endpoints\<close>

definition handleListSessions :: "auth \<Rightarrow> httpRequest \<Rightarrow> (sys, Session list) oper" where
  "handleListSessions a r =
     andThen (requireSession a r) (\<lambda>(sess, _).
     mapFail (with_cause CodeInternal) (Sessions_ListByUser (se_UserID sess)))"

definition handleRevokeSession :: "auth \<Rightarrow> httpRequest \<Rightarrow> string \<Rightarrow> (sys, unit) oper" where
  "handleRevokeSession a r i =
     andThen (originChecked a r) (\<lambda>_.
     andThen (requireSession a r) (\<lambda>(sess, _).
     andThen (mapFail (with_cause CodeInternal) (Sessions_ListByUser (se_UserID sess))) (\<lambda>ss.
     if \<not> list_ex (\<lambda>item. se_ID item = i) ss then fail (api CodeNotFound)
     else andThen (optional (Sessions_Delete i)) (\<lambda>_.
          andThen (runAfter ''SignOut'' i) (\<lambda>_.
          andThen (emit ''auth.sign_out'' (se_UserID sess) [(''session_id'', i)]) (\<lambda>_.
          if i = se_ID sess then clearCookie a else ret ()))))))"

fun revokeListed :: "string \<Rightarrow> bool \<Rightarrow> Session list \<Rightarrow> nat \<Rightarrow> (sys, nat) oper" where
  "revokeListed current all [] n = ret n"
| "revokeListed current all (item # items) n =
     (if se_ID item = current \<and> \<not> all then revokeListed current all items n
      else andThen (optional (Sessions_Delete (se_ID item))) (\<lambda>_.
           andThen (runAfter ''SignOut'' (se_ID item)) (\<lambda>_. revokeListed current all items (n + 1))))"

text \<open>The body is the decoded request, an error of \<open>decodeJSON\<close>, or the default of an absent body.\<close>

definition handleRevokeAllSessions :: "auth \<Rightarrow> httpRequest \<Rightarrow> bool res \<Rightarrow> (sys, nat) oper" where
  "handleRevokeAllSessions a r body =
     andThen (originChecked a r) (\<lambda>_.
     andThen (requireSession a r) (\<lambda>(sess, _).
     case body of
       Inl e \<Rightarrow> fail e
     | Inr includeCurrent \<Rightarrow>
         andThen (mapFail (with_cause CodeInternal) (Sessions_ListByUser (se_UserID sess))) (\<lambda>ss.
         andThen (revokeListed (se_ID sess) includeCurrent ss 0) (\<lambda>revoked.
         andThen (emit ''auth.sign_out'' (se_UserID sess) [(''revoked'', Itoa revoked)]) (\<lambda>_.
         andThen (if includeCurrent then clearCookie a else ret ()) (\<lambda>_. ret revoked))))))"

section \<open>What a principal rests on\<close>

lemma resolvedMember_simps [simp]:
  "mb_Status (resolvedMember agg t m) = mb_Status m" "mb_Role (resolvedMember agg t m) = mb_Role m"
  "mb_UserID (resolvedMember agg t m) = mb_UserID m" "mb_OrgID (resolvedMember agg t m) = mb_OrgID m"
  by (simp_all add: resolvedMember_def Let_def)

lemma readSession_org:
  assumes "readSessionAndUser cfg h s = (Inr (Some (se, u, Some og, Some m)), s')"
  shows "og \<in> set (orgs (db s)) \<and> se_ActiveOrgID se = Some (og_ID og) \<and>
    (\<exists>row \<in> set (members (db s)). mb_OrgID row = og_ID og \<and> mb_UserID row = se_UserID se \<and>
       m = resolvedMember (cf_stringAgg cfg) (db s) row)"
  using assms
  by (auto simp: readSessionAndUser_def success_simps sql_success optional_Inr stmt_Inr
        SessionWithUserAndMembership_def Let_def dest!: find_SomeD split: if_splits option.splits)

lemma lookupSession_org:
  assumes "lookupSession cfg h s = (Inr (Some (se, u, Some og, Some m)), s')"
  shows "og \<in> set (orgs (db s)) \<and>
    (\<exists>row \<in> set (members (db s)). mb_OrgID row = og_ID og \<and> mb_UserID row = u_ID u \<and>
       mb_Status row = mb_Status m \<and> mb_Role row = mb_Role m)"
proof -
  obtain q t where r: "optional (readSessionAndUser cfg h) s = (Inr q, t)"
    and k: "(case q of Some (Some (s, u, org, mem)) \<Rightarrow> admitSession cfg s u org mem | _ \<Rightarrow> ret None) t =
              (Inr (Some (se, u, Some og, Some m)), s')"
    using assms unfolding lookupSession_def andThen_Inr by blast
  obtain row u0 org0 mem0 where q: "q = Some (Some (row, u0, org0, mem0))"
    using k by (auto simp: ret_def split: option.splits)
  have "u0 = u \<and> org0 = Some og \<and> mem0 = Some m"
    using k by (auto simp: q dest!: admitSession_Inr)
  then have rd: "readSessionAndUser cfg h s = (Inr (Some (row, u, Some og, Some m)), t)"
    using r by (auto simp: optional_Inr q)
  show ?thesis using readSession_org [OF rd] readSession_Inr [OF rd] by auto
qed

lemma principalOf_Some:
  "principalOf a c l = Some p \<Longrightarrow>
    \<exists>se u org m. l = Some (se, u, org, m) \<and> pr_User p = u \<and> pr_Session p = Some se \<and> pr_Method p = MethodSession \<and>
      (pr_Organization p \<noteq> None \<longrightarrow> org = pr_Organization p \<and> m = pr_Membership p \<and>
         (\<exists>mm. m = Some mm \<and> mb_Status mm = MembershipActive))"
  by (auto simp: principalOf_def withOrganization_def sessionPrincipal_def split: option.splits if_splits)

lemma resolve_uncached:
  assumes "resolvePrincipal a r s = (Inr (Some p), s')" and "principals s = None"
  shows "\<exists>t. readPrincipal a r s = (Inr (Some p), t)"
  using assms
  by (auto simp: resolvePrincipal_def Let_def success_simps cacheGet_def split: if_splits option.splits)

lemma readPrincipal_session:
  assumes "readPrincipal a r s = (Inr (Some p), t)" and "claimant a (bearerToken r) = None"
  shows "\<exists>token l c. token \<in> {cookieValue (eg_cookieName (au_edge a)) r, bearerToken r} \<and>
     lookupSession (au_cfg a) (cf_hash (au_cfg a) token) s = (Inr l, t) \<and> principalOf a c l = Some p"
proof (cases "cookieValue (eg_cookieName (au_edge a)) r = []")
  case True
  then have "andThen (sessionByToken a (bearerToken r)) (\<lambda>l. ret (principalOf a False l)) s = (Inr (Some p), t)"
    using assms by (auto simp: readPrincipal_def Let_def success_simps split: if_splits)
  then show ?thesis by (auto simp: success_simps sessionByToken_def dest: sym)
next
  case False
  then have "andThen (sessionByToken a (cookieValue (eg_cookieName (au_edge a)) r)) (\<lambda>l. ret (principalOf a True l)) s =
      (Inr (Some p), t)"
    using assms by (simp add: readPrincipal_def Let_def)
  then show ?thesis by (auto simp: success_simps sessionByToken_def dest: sym)
qed

text \<open>A principal of a session request rests on the database: its session row is live, its user
  is enabled, and an active organization comes with a membership row of this user in this
  organization whose status is active. A suspended or removed member acts in no organization.\<close>

theorem session_principal_sound:
  assumes "resolvePrincipal a r s = (Inr (Some p), s')" and "principals s = None"
    and "claimant a (bearerToken r) = None"
  shows "\<exists>token row. token \<in> {cookieValue (eg_cookieName (au_edge a)) r, bearerToken r} \<and>
     row \<in> set (sessions (db s)) \<and> se_TokenHash row = cf_hash (au_cfg a) token \<and>
     u_ID (pr_User p) = se_UserID row \<and> pr_User p \<in> set (users (db s)) \<and>
     u_DisabledAt (pr_User p) = None \<and> \<not> expired (au_cfg a) (clock s) row \<and>
     (\<forall>og. pr_Organization p = Some og \<longrightarrow> og \<in> set (orgs (db s)) \<and>
        (\<exists>m \<in> set (members (db s)). mb_OrgID m = og_ID og \<and> mb_UserID m = u_ID (pr_User p) \<and>
           mb_Status m = MembershipActive))"
proof -
  obtain t where "readPrincipal a r s = (Inr (Some p), t)" using resolve_uncached [OF assms(1,2)] by blast
  from readPrincipal_session [OF this assms(3)]
  obtain token l c where tok: "token \<in> {cookieValue (eg_cookieName (au_edge a)) r, bearerToken r}"
    and l: "lookupSession (au_cfg a) (cf_hash (au_cfg a) token) s = (Inr l, t)" and p: "principalOf a c l = Some p"
    by blast
  obtain se u org m where l': "l = Some (se, u, org, m)" and pu: "pr_User p = u"
    and og: "pr_Organization p \<noteq> None \<longrightarrow> org = pr_Organization p \<and> m = pr_Membership p \<and>
         (\<exists>mm. m = Some mm \<and> mb_Status mm = MembershipActive)"
    using principalOf_Some [OF p] by blast
  have org: "og' \<in> set (orgs (db s)) \<and> (\<exists>m \<in> set (members (db s)). mb_OrgID m = og_ID og' \<and> mb_UserID m = u_ID u \<and>
           mb_Status m = MembershipActive)" if "pr_Organization p = Some og'" for og'
    using og that l l' lookupSession_org by fastforce
  show ?thesis
    using lookupSession_Inr [OF l [unfolded l']] tok pu org by blast
qed

section \<open>The consistency bound of the cache\<close>

text \<open>A run of the cache: insertions and lookups with their times.\<close>

datatype cacheStep = PutStep time string Principal | GetStep time string

fun stepTime :: "cacheStep \<Rightarrow> time" where
  "stepTime (PutStep t c p) = t"
| "stepTime (GetStep t c) = t"

text \<open>The hits of a run: time, credential and principal.\<close>

fun cacheHits :: "auth \<Rightarrow> cacheStep list \<Rightarrow> sys \<Rightarrow> (time \<times> string \<times> Principal) list" where
  "cacheHits a [] s = []"
| "cacheHits a (PutStep t c p # steps) s = cacheHits a steps (snd (cachePut a c p (s\<lparr>clock := t\<rparr>)))"
| "cacheHits a (GetStep t c # steps) s =
     (case cacheGet a c (s\<lparr>clock := t\<rparr>) of
        (Inr (Some p), s') \<Rightarrow> (t, c, p) # cacheHits a steps s'
      | (_, s') \<Rightarrow> cacheHits a steps s')"

text \<open>Every entry of the cache stems from an insertion of the log.\<close>

definition logged :: "auth \<Rightarrow> cacheStep set \<Rightarrow> sys \<Rightarrow> bool" where
  "logged a log s \<longleftrightarrow> (\<forall>entries k p e. principals s = Some entries \<and> (k, p, e) \<in> set entries \<longrightarrow>
     (\<exists>t c. PutStep t c p \<in> log \<and> k = cf_hash (au_cfg a) c \<and> e = t + au_principalTTL a))"

lemma set_AList_update: "x \<in> set (AList.update k v al) \<Longrightarrow> x = (k, v) \<or> x \<in> set al"
  by (induction al) (auto split: if_splits)

lemma set_AList_delete: "x \<in> set (AList.delete k al) \<Longrightarrow> x \<in> set al"
  by (auto simp: AList.delete_eq)

lemma logged_put: "logged a log s \<Longrightarrow> logged a (insert (PutStep t c p) log) (snd (cachePut a c p (s\<lparr>clock := t\<rparr>)))"
  unfolding logged_def cachePut_def
  by (fastforce simp: Let_def split: option.splits if_splits dest!: set_AList_update)

lemma logged_get: "logged a log s \<Longrightarrow> logged a log (snd (cacheGet a c (s\<lparr>clock := t\<rparr>)))"
  unfolding logged_def cacheGet_def
  by (fastforce simp: Let_def split: option.splits if_splits prod.splits dest!: set_AList_delete)

lemma cacheGet_hit:
  assumes "cacheGet a c (s\<lparr>clock := t\<rparr>) = (Inr (Some p), s')" and "logged a log s"
  shows "\<exists>t0 c0. PutStep t0 c0 p \<in> log \<and> cf_hash (au_cfg a) c0 = cf_hash (au_cfg a) c \<and> t < t0 + au_principalTTL a"
  using assms unfolding logged_def cacheGet_def
  by (fastforce simp: Let_def split: option.splits if_splits prod.splits dest!: map_of_SomeD)

lemma cacheHits_logged:
  "logged a log s \<Longrightarrow> (t, c, p) \<in> set (cacheHits a steps s) \<Longrightarrow>
     \<exists>t0 c0. PutStep t0 c0 p \<in> log \<union> set steps \<and> cf_hash (au_cfg a) c0 = cf_hash (au_cfg a) c \<and>
       t < t0 + au_principalTTL a"
proof (induction steps arbitrary: s log)
  case (Cons st steps)
  show ?case
  proof (cases st)
    case (PutStep t' c' p')
    then show ?thesis using Cons.IH [OF logged_put [OF Cons.prems(1)]] Cons.prems(2) by fastforce
  next
    case (GetStep t' c')
    obtain q s' where g: "cacheGet a c' (s\<lparr>clock := t'\<rparr>) = (q, s')" by fastforce
    have l: "logged a log s'" using logged_get [OF Cons.prems(1), of c' t'] g by simp
    show ?thesis
    proof (cases "(t, c, p) \<in> set (cacheHits a steps s')")
      case True
      then show ?thesis using Cons.IH [OF l] by fastforce
    next
      case False
      then have "q = Inr (Some p)" "t = t'" "c = c'"
        using Cons.prems(2) by (auto simp: GetStep g split: sum.splits option.splits)
      then have "cacheGet a c (s\<lparr>clock := t\<rparr>) = (Inr (Some p), s')" using g by simp
      from cacheGet_hit [OF this Cons.prems(1)] show ?thesis by auto
    qed
  qed
qed simp

text \<open>The consistency bound: in every run of a cache that starts empty, a hit at time \<open>t\<close>
  returns a principal that was stored under the same credential hash less than the configured time
  before \<open>t\<close>. A disabled user, a changed role or a revoked session is therefore seen within the
  bound.\<close>

theorem cache_staleness_bound:
  assumes "principals s = Some []" and "(t, c, p) \<in> set (cacheHits a steps s)"
  shows "\<exists>t0 c0. PutStep t0 c0 p \<in> set steps \<and> cf_hash (au_cfg a) c0 = cf_hash (au_cfg a) c \<and>
     t < t0 + au_principalTTL a"
  using cacheHits_logged [of a "{}" s t c p steps] assms by (simp add: logged_def)

definition w_auth :: auth where
  "w_auth = \<lparr>au_cfg = w_cfg\<lparr>cf_organizations := True\<rparr>, au_edge = w_edge, au_defaultRole = ''user'', au_resolvers = [],
     au_principalTTL = 50\<rparr>"

theorem session_principal_sound_witness:
  "\<exists>row \<in> set (sessions w_core). u_ID bob = se_UserID row \<and> u_DisabledAt bob = None"
proof -
  let ?r = "w_request [] []"
  have "fst (resolvePrincipal w_auth ?r (world w_core)) =
      Inr (Some (sessionPrincipal w_auth (w_session\<lparr>se_LastSeenAt := 100\<rparr>) bob True))" by code_simp
  then obtain s' where run: "resolvePrincipal w_auth ?r (world w_core) =
      (Inr (Some (sessionPrincipal w_auth (w_session\<lparr>se_LastSeenAt := 100\<rparr>) bob True)), s')"
    by (metis prod.collapse)
  show ?thesis
    using session_principal_sound [OF run]
    by (auto simp: world_def claimant_def w_auth_def sessionPrincipal_def)
qed

theorem cache_staleness_bound_witness:
  "\<exists>t0 c0. PutStep t0 c0 (sessionPrincipal w_auth w_session bob True) \<in> set
     [PutStep 100 ''tok'' (sessionPrincipal w_auth w_session bob True), GetStep 140 ''tok'', GetStep 150 ''tok''] \<and>
     cf_hash (au_cfg w_auth) c0 = cf_hash (au_cfg w_auth) ''tok'' \<and> 140 < t0 + au_principalTTL w_auth"
proof (rule cache_staleness_bound)
  show "principals ((world w_core)\<lparr>principals := Some []\<rparr>) = Some []" by simp
  show "(140, ''tok'', sessionPrincipal w_auth w_session bob True) \<in> set (cacheHits w_auth
     [PutStep 100 ''tok'' (sessionPrincipal w_auth w_session bob True), GetStep 140 ''tok'', GetStep 150 ''tok'']
     ((world w_core)\<lparr>principals := Some []\<rparr>))"
    by (simp add: cachePut_def cacheGet_def w_auth_def w_cfg_def)
qed

section \<open>The session endpoints touch only the caller\<close>

text \<open>A successful lookup moves at most the last use of a session.\<close>

definition untouched :: "Session \<Rightarrow> Session" where
  "untouched x = x\<lparr>se_LastSeenAt := 0\<rparr>"

lemma Touch_untouched:
  "map untouched (sessions (db (snd (Sessions_Touch i at s)))) = map untouched (sessions (db s))"
  by (auto simp: Sessions_Touch_def updateRows_def stmt_def andThen_def requireAffected_def ensure_def
      updateWhere_def untouched_def anyRows_def split: if_splits)

lemma admit_untouched:
  "admitSession cfg row u org m s = (Inr (Some l), s') \<Longrightarrow>
     map untouched (sessions (db s')) = map untouched (sessions (db s))"
  using Touch_untouched by (auto simp: admitSession_def success_simps now_Inr caught_eq split: if_splits sum.splits)

lemma lookup_untouched:
  assumes "lookupSession cfg h s = (Inr (Some l), s')"
  shows "map untouched (sessions (db s')) = map untouched (sessions (db s))"
proof -
  obtain q t where r: "optional (readSessionAndUser cfg h) s = (Inr q, t)"
    and k: "(case q of Some (Some (s, u, org, mem)) \<Rightarrow> admitSession cfg s u org mem | _ \<Rightarrow> ret None) t =
              (Inr (Some l), s')"
    using assms unfolding lookupSession_def andThen_Inr by blast
  obtain row u0 org0 mem0 where q: "q = Some (Some (row, u0, org0, mem0))"
    using k by (auto simp: ret_def split: option.splits)
  have "db t = db s" using r by (auto simp: optional_Inr q dest!: readSession_Inr)
  then show ?thesis using k admit_untouched by (simp add: q)
qed

lemma untouched_ids:
  assumes "map untouched xs = map untouched ys"
  shows "map se_ID xs = map se_ID ys" "map (\<lambda>x. (se_ID x, se_UserID x)) xs = map (\<lambda>x. (se_ID x, se_UserID x)) ys"
proof -
  have "map (se_ID \<circ> untouched) xs = map (se_ID \<circ> untouched) ys"
    "map ((\<lambda>x. (se_ID x, se_UserID x)) \<circ> untouched) xs = map ((\<lambda>x. (se_ID x, se_UserID x)) \<circ> untouched) ys"
    using assms by (metis map_map)+
  then show "map se_ID xs = map se_ID ys" "map (\<lambda>x. (se_ID x, se_UserID x)) xs = map (\<lambda>x. (se_ID x, se_UserID x)) ys"
    by (simp_all add: untouched_def comp_def)
qed

lemma resolve_uncached_db:
  assumes "resolvePrincipal a r s = (Inr (Some p), s')" and "principals s = None"
  shows "\<exists>t. readPrincipal a r s = (Inr (Some p), t) \<and> db s' = db t \<and> clock s' = clock t"
  using assms
  by (auto simp: resolvePrincipal_def Let_def success_simps cacheGet_def cachePut_def split: if_splits option.splits)

lemma readPrincipal_state:
  assumes "readPrincipal a r s = (Inr (Some p), t)" and "claimant a (bearerToken r) = None"
  shows "map untouched (sessions (db t)) = map untouched (sessions (db s))"
  using readPrincipal_session [OF assms] lookup_untouched principalOf_Some by fastforce

lemma requireSession_Inr:
  assumes "requireSessionState a r g s = (Inr (se, u), s')" and "principals s = None"
    and "claimant a (bearerToken r) = None"
  shows "map untouched (sessions (db s')) = map untouched (sessions (db s)) \<and>
    (\<exists>row \<in> set (sessions (db s)). \<exists>token \<in> {cookieValue (eg_cookieName (au_edge a)) r, bearerToken r}.
       se_TokenHash row = cf_hash (au_cfg a) token \<and> se_ID row = se_ID se \<and> se_UserID row = se_UserID se \<and>
       u_ID u = se_UserID se \<and> u_DisabledAt u = None \<and> \<not> expired (au_cfg a) (clock s) row)"
proof -
  obtain p where p: "resolvePrincipal a r s = (Inr (Some p), s')" "pr_Session p = Some se" "pr_User p = u"
    using assms(1) by (auto simp: requireSessionState_def success_simps split: option.splits if_splits)
  obtain t where t: "readPrincipal a r s = (Inr (Some p), t)" "db s' = db t"
    using resolve_uncached_db [OF p(1) assms(2)] by blast
  obtain token l c where l: "token \<in> {cookieValue (eg_cookieName (au_edge a)) r, bearerToken r}"
    "lookupSession (au_cfg a) (cf_hash (au_cfg a) token) s = (Inr l, t)" "principalOf a c l = Some p"
    using readPrincipal_session [OF t(1) assms(3)] by blast
  obtain org m where l': "l = Some (se, u, org, m)" using principalOf_Some [OF l(3)] p(2,3) by auto
  obtain row where "row \<in> set (sessions (db s))" "se_TokenHash row = cf_hash (au_cfg a) token"
    "u_ID u = se_UserID row" "u_DisabledAt u = None" "\<not> expired (au_cfg a) (clock s) row"
    "se = row \<or> se = row\<lparr>se_LastSeenAt := clock s\<rparr>"
    using lookupSession_Inr [OF l(2) [unfolded l']] by blast
  then show ?thesis using l(1) readPrincipal_state [OF t(1) assms(3)] t(2) by (intro conjI bexI [of _ row] bexI [of _ token]) auto
qed

lemma delete_session_optional:
  "optional (Sessions_Delete i) s = (Inr y, s') \<Longrightarrow> sessions (db s') = deleteWhere (\<lambda>x. se_ID x = i) (sessions (db s))"
  by (auto simp: optional_def caught_def Sessions_Delete_def deleteRows_def stmt_def oper_defs
      requireAffected_def split: if_splits)

text \<open>A caller ends only own sessions: when the endpoint succeeds, the named session is gone, it
  belonged to the user of the presented token, and every other session is still there. A foreign
  or an unknown identifier changes no session.\<close>

theorem revoke_only_own_session:
  assumes "handleRevokeSession a r i s = (Inr x, s')" and "principals s = None"
    and "claimant a (bearerToken r) = None"
  shows "\<exists>row \<in> set (sessions (db s)). \<exists>own \<in> set (sessions (db s)).
     se_TokenHash own \<in> cf_hash (au_cfg a) ` {cookieValue (eg_cookieName (au_edge a)) r, bearerToken r} \<and>
     se_ID row = i \<and> se_UserID row = se_UserID own \<and>
     se_ID ` set (sessions (db s')) = se_ID ` set (sessions (db s)) - {i}"
proof -
  obtain se u s1 s2 ss s3 y where req: "requireSession a r s = (Inr (se, u), s1)"
    and ls: "Sessions_ListByUser (se_UserID se) s1 = (Inr ss, s2)" and own: "\<exists>item \<in> set ss. se_ID item = i"
    and del: "optional (Sessions_Delete i) s2 = (Inr y, s3)" and db: "db s' = db s3"
    using assms(1)
    by (auto simp: handleRevokeSession_def originChecked_def success_simps env_success clearCookie_def
        setCookie_def list_ex_iff split: sum.splits if_splits) blast+
  have ss: "set ss = {x \<in> set (sessions (db s1)). se_UserID x = se_UserID se}" and s2: "db s2 = db s1"
    using ls by (auto simp: Sessions_ListByUser_def sql_success orderByDesc_def)
  note rq = requireSession_Inr [OF req assms(2,3)]
  note ids = untouched_ids [OF conjunct1 [OF rq]]
  have "(i, se_UserID se) \<in> set (map (\<lambda>x. (se_ID x, se_UserID x)) (sessions (db s1)))" using own ss by force
  then obtain row where row: "row \<in> set (sessions (db s))" "se_ID row = i" "se_UserID row = se_UserID se"
    unfolding ids(2) by auto
  have "se_ID ` set (sessions (db s')) = se_ID ` set (sessions (db s1)) - {i}"
    using delete_session_optional [OF del] db s2 by auto
  moreover have "se_ID ` set (sessions (db s1)) = se_ID ` set (sessions (db s))"
    using ids(1) by (metis image_set)
  ultimately show ?thesis using rq row by fastforce
qed

theorem revoke_only_own_session_witness:
  "se_ID ` set (sessions (db (snd (handleRevokeSession w_auth (w_request ''https://app.io'' []) ''s1'' (world w_core))))) = {}"
proof -
  let ?r = "w_request ''https://app.io'' []"
  have "fst (handleRevokeSession w_auth ?r ''s1'' (world w_core)) = Inr ()" by code_simp
  then obtain s' where run: "handleRevokeSession w_auth ?r ''s1'' (world w_core) = (Inr (), s')"
    by (metis prod.collapse)
  have "se_ID ` set (sessions (db s')) = se_ID ` set (sessions (db (world w_core))) - {''s1''}"
    using revoke_only_own_session [OF run] by (auto simp: world_def claimant_def w_auth_def)
  then show ?thesis using run by (simp add: w_core_def w_session_def)
qed

end
