(* ===== verification/Base32.thy ===== *)
theory Base32
  imports Go_Strings
begin

text \<open>
  The shared secrets of \<open>internal/totp/totp.go\<close>: \<open>EncodeSecret\<close> and \<open>DecodeSecret\<close> over
  \<open>base32.StdEncoding\<close> without padding. Five bytes give eight characters of five bits.
\<close>

section \<open>Quantums\<close>

definition b32alphabet :: string where
  "b32alphabet = ''ABCDEFGHIJKLMNOPQRSTUVWXYZ234567''"

definition enc5 :: "nat \<Rightarrow> char" where
  "enc5 n = b32alphabet ! n"

definition dec5 :: "char \<Rightarrow> nat option" where
  "dec5 c = indexOf c b32alphabet"

text \<open>The groups of five bits of a byte list; a short rest gives two, four, five or seven groups.\<close>

fun quintetsOf :: "nat list \<Rightarrow> nat list" where
  "quintetsOf [] = []"
| "quintetsOf [a] = [a div 8, (a mod 8) * 4]"
| "quintetsOf [a, b] = [a div 8, (a mod 8) * 4 + b div 64, (b div 2) mod 32, (b mod 2) * 16]"
| "quintetsOf [a, b, c] =
     [a div 8, (a mod 8) * 4 + b div 64, (b div 2) mod 32, (b mod 2) * 16 + c div 16, (c mod 16) * 2]"
| "quintetsOf [a, b, c, d] =
     [a div 8, (a mod 8) * 4 + b div 64, (b div 2) mod 32, (b mod 2) * 16 + c div 16,
      (c mod 16) * 2 + d div 128, (d div 4) mod 32, (d mod 4) * 8]"
| "quintetsOf (a # b # c # d # e # r) =
     a div 8 # ((a mod 8) * 4 + b div 64) # ((b div 2) mod 32) # ((b mod 2) * 16 + c div 16)
       # ((c mod 16) * 2 + d div 128) # ((d div 4) mod 32) # ((d mod 4) * 8 + e div 32) # (e mod 32)
       # quintetsOf r"

text \<open>The decoder of the standard library: the bytes that a quantum of \<open>dlen\<close> characters completes.
  The unused low bits are dropped, and a quantum of one, three or six characters gives nothing.\<close>

fun b32Bytes :: "nat list \<Rightarrow> nat list" where
  "b32Bytes [p, q] = [p * 8 + q div 4]"
| "b32Bytes [p, q, r, s] = [p * 8 + q div 4, (q mod 4) * 64 + r * 2 + s div 16]"
| "b32Bytes [p, q, r, s, t] =
     [p * 8 + q div 4, (q mod 4) * 64 + r * 2 + s div 16, (s mod 16) * 16 + t div 2]"
| "b32Bytes [p, q, r, s, t, u, v] =
     [p * 8 + q div 4, (q mod 4) * 64 + r * 2 + s div 16, (s mod 16) * 16 + t div 2,
      (t mod 2) * 128 + u * 4 + v div 8]"
| "b32Bytes (p # q # r # s # t # u # v # w # rest) =
     [p * 8 + q div 4, (q mod 4) * 64 + r * 2 + s div 16, (s mod 16) * 16 + t div 2,
      (t mod 2) * 128 + u * 4 + v div 8, (v mod 8) * 32 + w] @ b32Bytes rest"
| "b32Bytes _ = []"

definition b32Decode :: "string \<Rightarrow> nat list option" where
  "b32Decode s =
     (let cs = filter (\<lambda>c. of_char c \<noteq> (10 :: nat) \<and> of_char c \<noteq> (13 :: nat)) s
      in map_option b32Bytes (those (map dec5 cs)))"

section \<open>The secrets\<close>

definition EncodeSecret :: "nat list \<Rightarrow> string" where
  "EncodeSecret secret = map enc5 (quintetsOf secret)"

definition DecodeSecret :: "string \<Rightarrow> nat list res" where
  "DecodeSecret s0 =
     (let s = TrimRight (filter (\<lambda>c. c \<noteq> CHR '' '') (ToUpper (TrimSpace s0))) CHR ''='' in
      if s = [] then Inl (ErrOther ''invalid secret'')
      else case b32Decode s of
             None \<Rightarrow> Inl (ErrOther ''invalid secret'')
           | Some raw \<Rightarrow> if raw = [] then Inl (ErrOther ''invalid secret'') else Inr raw)"

section \<open>The round trip\<close>

text \<open>The bounds of the parts of a byte.\<close>

lemma byte_parts:
  fixes a :: nat
  assumes "a < 256"
  shows "a div 8 < 32" "a div 64 < 4" "a div 16 < 16" "a div 128 < 2" "a div 32 < 8"
  using assms by (simp_all add: less_mult_imp_div_less)

lemma quintet_parts:
  fixes a b :: nat
  assumes "b < 256"
  shows "a mod 8 * 4 + b div 64 < 32" "a mod 2 * 16 + b div 16 < 32" "a mod 16 * 2 + b div 128 < 32"
    "a mod 4 * 8 + b div 32 < 32" "a mod 8 * 4 < 32" "a mod 2 * 16 < 32" "a mod 16 * 2 < 32" "a mod 4 * 8 < 32"
proof -
  have "a mod 8 < 8" "a mod 2 < 2" "a mod 16 < 16" "a mod 4 < 4" by simp_all
  then show "a mod 8 * 4 + b div 64 < 32" "a mod 2 * 16 + b div 16 < 32" "a mod 16 * 2 + b div 128 < 32"
    "a mod 4 * 8 + b div 32 < 32" "a mod 8 * 4 < 32" "a mod 2 * 16 < 32" "a mod 16 * 2 < 32" "a mod 4 * 8 < 32"
    using byte_parts [OF assms] by linarith+
qed

lemma quintetsOf_bound: "\<forall>b \<in> set bs. b < 256 \<Longrightarrow> \<forall>x \<in> set (quintetsOf bs). x < 32"
proof (induction bs rule: quintetsOf.induct)
  case (2 a)
  then show ?case by (simp add: byte_parts quintet_parts [of a])
qed (simp_all add: byte_parts quintet_parts)

text \<open>The five equations of a full quantum; a short one uses a prefix of them.\<close>

lemma quintet_inverse:
  fixes a b c d e :: nat
  assumes "a < 256" "b < 256" "c < 256" "d < 256" "e < 256"
  shows "a div 8 * 8 + (a mod 8 * 4 + b div 64) div 4 = a"
    "(a mod 8 * 4 + b div 64) mod 4 * 64 + b div 2 mod 32 * 2 + (b mod 2 * 16 + c div 16) div 16 = b"
    "(b mod 2 * 16 + c div 16) mod 16 * 16 + (c mod 16 * 2 + d div 128) div 2 = c"
    "(c mod 16 * 2 + d div 128) mod 2 * 128 + d div 4 mod 32 * 4 + (d mod 4 * 8 + e div 32) div 8 = d"
    "(d mod 4 * 8 + e div 32) mod 8 * 32 + e mod 32 = e"
proof -
  have q: "(a mod 8 * 4 + b div 64) div 4 = a mod 8" "(a mod 8 * 4 + b div 64) mod 4 = b div 64"
    "(b mod 2 * 16 + c div 16) div 16 = b mod 2" "(b mod 2 * 16 + c div 16) mod 16 = c div 16"
    "(c mod 16 * 2 + d div 128) div 2 = c mod 16" "(c mod 16 * 2 + d div 128) mod 2 = d div 128"
    "(d mod 4 * 8 + e div 32) div 8 = d mod 4" "(d mod 4 * 8 + e div 32) mod 8 = e div 32"
    using assms by (simp_all add: byte_parts)
  have split: "x div 64 * 64 + x div 2 mod 32 * 2 + x mod 2 = x"
    "x div 128 * 128 + x div 4 mod 32 * 4 + x mod 4 = x" for x :: nat
  proof -
    have "x = x div 2 * 2 + x mod 2" "x div 2 = x div 2 div 32 * 32 + x div 2 mod 32"
      "x = x div 4 * 4 + x mod 4" "x div 4 = x div 4 div 32 * 32 + x div 4 mod 32"
      by simp_all
    moreover have "x div 2 div 32 = x div 64" "x div 4 div 32 = x div 128"
      by (simp_all add: div_mult2_eq [symmetric])
    ultimately show "x div 64 * 64 + x div 2 mod 32 * 2 + x mod 2 = x"
      "x div 128 * 128 + x div 4 mod 32 * 4 + x mod 4 = x" by linarith+
  qed
  show "a div 8 * 8 + (a mod 8 * 4 + b div 64) div 4 = a"
    "(a mod 8 * 4 + b div 64) mod 4 * 64 + b div 2 mod 32 * 2 + (b mod 2 * 16 + c div 16) div 16 = b"
    "(b mod 2 * 16 + c div 16) mod 16 * 16 + (c mod 16 * 2 + d div 128) div 2 = c"
    "(c mod 16 * 2 + d div 128) mod 2 * 128 + d div 4 mod 32 * 4 + (d mod 4 * 8 + e div 32) div 8 = d"
    "(d mod 4 * 8 + e div 32) mod 8 * 32 + e mod 32 = e"
    unfolding q by (simp_all add: split)
qed

lemma b32Bytes_quintetsOf: "\<forall>b \<in> set bs. b < 256 \<Longrightarrow> b32Bytes (quintetsOf bs) = bs"
proof (induction bs rule: quintetsOf.induct)
  case (2 a)
  then show ?case using quintet_inverse(1) [of a 0 0 0 0] by simp
next
  case (3 a b)
  then show ?case using quintet_inverse(1,2) [of a b 0 0 0] by simp
next
  case (4 a b c)
  then show ?case using quintet_inverse(1-3) [of a b c 0 0] by simp
next
  case (5 a b c d)
  then show ?case using quintet_inverse(1-4) [of a b c d 0] by simp
next
  case (6 a b c d e r)
  then show ?case using quintet_inverse [of a b c d e] by simp
qed simp

text \<open>The alphabet survives every step of the decoder.\<close>

lemma enc5_char:
  assumes "n < 32"
  shows "dec5 (enc5 n) = Some n" "of_char (enc5 n) \<noteq> (10 :: nat)" "of_char (enc5 n) \<noteq> (13 :: nat)"
    "enc5 n \<noteq> CHR '' ''" "enc5 n \<noteq> CHR ''=''" "\<not> is_space (enc5 n)" "upper_char (enc5 n) = enc5 n"
    "upper_char (lower_char (enc5 n)) = enc5 n"
proof -
  have "\<forall>m \<in> set [0..<32]. dec5 (enc5 m) = Some m \<and> of_char (enc5 m) \<noteq> (10 :: nat) \<and>
      of_char (enc5 m) \<noteq> (13 :: nat) \<and> enc5 m \<noteq> CHR '' '' \<and> enc5 m \<noteq> CHR ''='' \<and> \<not> is_space (enc5 m) \<and>
      upper_char (enc5 m) = enc5 m \<and> upper_char (lower_char (enc5 m)) = enc5 m"
    by code_simp
  then show "dec5 (enc5 n) = Some n" "of_char (enc5 n) \<noteq> (10 :: nat)" "of_char (enc5 n) \<noteq> (13 :: nat)"
    "enc5 n \<noteq> CHR '' ''" "enc5 n \<noteq> CHR ''=''" "\<not> is_space (enc5 n)" "upper_char (enc5 n) = enc5 n"
    "upper_char (lower_char (enc5 n)) = enc5 n"
    using assms by simp_all
qed

lemma b32_roundtrip:
  assumes "\<forall>b \<in> set bs. b < 256"
  shows "b32Decode (EncodeSecret bs) = Some bs"
proof -
  let ?xs = "quintetsOf bs"
  have b: "\<forall>x \<in> set ?xs. x < 32" using assms by (rule quintetsOf_bound)
  then have "filter (\<lambda>c. of_char c \<noteq> (10 :: nat) \<and> of_char c \<noteq> (13 :: nat)) (map enc5 ?xs) = map enc5 ?xs"
    by (simp add: filter_id_conv enc5_char)
  moreover have "those (map dec5 (map enc5 ?xs)) = Some (map id ?xs)"
    using b by (simp only: map_map) (rule those_map_Some, simp add: enc5_char)
  ultimately show ?thesis
    using assms by (simp add: b32Decode_def EncodeSecret_def b32Bytes_quintetsOf)
qed

lemma TrimF_id:
  assumes "\<forall>c \<in> set s. \<not> p c"
  shows "TrimLeftF p s = s" "TrimRightF p s = s"
proof -
  have d: "dropWhile p xs = xs" if "\<forall>c \<in> set xs. \<not> p c" for xs
    using that by (cases xs) simp_all
  show "TrimLeftF p s = s" using d [OF assms] by (simp add: TrimLeftF_def)
  show "TrimRightF p s = s" using d [of "rev s"] assms by (simp add: TrimRightF_def)
qed

text \<open>The secret that the enrolment shows and the database keeps decodes to the secret of the
  authenticator, and so does the form that a person retypes in lower case with padding.\<close>

theorem secret_roundtrip:
  assumes "\<forall>b \<in> set secret. b < 256" and "secret \<noteq> []"
  shows "DecodeSecret (EncodeSecret secret) = Inr secret \<and>
    DecodeSecret (ToLower (EncodeSecret secret) @ replicate n CHR ''='') = Inr secret"
proof -
  let ?e = "EncodeSecret secret"
  have e: "\<forall>x \<in> set (quintetsOf secret). x < 32" using assms(1) by (rule quintetsOf_bound)
  have ne: "?e \<noteq> []" using assms(2) by (cases secret rule: quintetsOf.cases) (simp_all add: EncodeSecret_def)
  have eq: "\<not> is_space CHR ''=''" "upper_char CHR ''='' = CHR ''=''" by code_simp+
  have up: "ToUpper ?e = ?e" "ToUpper (ToLower ?e) = ?e"
    using e by (simp_all add: ToUpper_def ToLower_def EncodeSecret_def enc5_char comp_def)
  have plain: "TrimSpace ?e = ?e" "TrimSpace (ToLower ?e @ replicate n CHR ''='') = ToLower ?e @ replicate n CHR ''=''"
    unfolding TrimSpace_def
    by (subst TrimF_id; (subst TrimF_id)?; use e eq in \<open>force simp: EncodeSecret_def ToLower_def enc5_char\<close>)+
  have keep: "filter (\<lambda>c. c \<noteq> CHR '' '') ?e = ?e" "TrimRight ?e CHR ''='' = ?e"
    "TrimRight (?e @ replicate n CHR ''='') CHR ''='' = ?e"
  proof -
    show "filter (\<lambda>c. c \<noteq> CHR '' '') ?e = ?e"
      using e by (simp add: filter_id_conv EncodeSecret_def enc5_char)
    show tr: "TrimRight ?e CHR ''='' = ?e"
      unfolding TrimRight_def by (rule TrimF_id) (use e in \<open>auto simp: EncodeSecret_def enc5_char\<close>)
    show "TrimRight (?e @ replicate n CHR ''='') CHR ''='' = ?e"
      using tr by (simp add: TrimRight_def TrimRightF_def dropWhile_append)
  qed
  show ?thesis
    using assms ne
    by (simp add: DecodeSecret_def plain up keep b32_roundtrip Let_def ToUpper_def [of "_ @ _"] eq
        flip: ToUpper_def)
qed

theorem secret_roundtrip_witness:
  "DecodeSecret (EncodeSecret [222, 173, 190, 239, 1, 2, 255]) = Inr [222, 173, 190, 239, 1, 2, 255] \<and>
   DecodeSecret (ToLower (EncodeSecret [222, 173, 190, 239, 1, 2, 255]) @ replicate 4 CHR ''='') =
     Inr [222, 173, 190, 239, 1, 2, 255]"
  by (rule secret_roundtrip) simp_all

end
