(* ===== verification/Handler_Base.thy ===== *)
theory Handler_Base
  imports Principals Base32
begin

text \<open>
  What the HTTP handlers share: the rate limit of a route (\<open>allow\<close> of \<open>handlers.go\<close>), the session of a
  response (\<open>issueSession\<close> of \<open>sessions.go\<close>), links and mails (\<open>actionURL\<close> of \<open>handlers_tokens.go\<close>) and
  the escaping of the standard library that they use.

  The body of a request is a parameter: the result of \<open>decodeJSON\<close>, a value or an error.
\<close>

section \<open>Escaping\<close>

text \<open>\<open>url.QueryEscape\<close>, and the path escaping of \<open>url.URL.String\<close>.\<close>

definition unreserved :: "char \<Rightarrow> bool" where
  "unreserved c \<longleftrightarrow> is_lower c \<or> is_upper c \<or> is_digit c \<or> c \<in> set ''-_.~''"

definition upperHex :: "nat \<Rightarrow> char" where
  "upperHex n = (if n < 10 then char_of (48 + n) else char_of (55 + n))"

definition percent :: "char \<Rightarrow> string" where
  "percent c = [CHR ''%'', upperHex (of_char c div 16), upperHex (of_char c mod 16)]"

definition QueryEscape :: "string \<Rightarrow> string" where
  "QueryEscape s = concat (map (\<lambda>c. if unreserved c then [c] else if c = CHR '' '' then ''+'' else percent c) s)"

definition pathEscape :: "string \<Rightarrow> string" where
  "pathEscape s = concat (map (\<lambda>c. if unreserved c \<or> c \<in> set ''$&+,/:;=@'' then [c] else percent c) s)"

section \<open>Responses\<close>

text \<open>Whole seconds, rounded up, at least one. Go truncates the quotient towards zero, and every
  duration here is positive.\<close>

definition retryAfterSeconds :: "duration \<Rightarrow> string" where
  "retryAfterSeconds d =
     (let seconds = quotTrunc (d + 1000000000 - 1) 1000000000
      in Itoa (nat (if seconds < 1 then 1 else seconds)))"

definition setHeader :: "string \<Rightarrow> string \<Rightarrow> (sys, unit) oper" where
  "setHeader name v s = (Inr (), s\<lparr>audit := audit s @ [HeaderSet name v]\<rparr>)"

definition allow :: "auth \<Rightarrow> Key \<Rightarrow> (sys, unit) oper" where
  "allow a key =
     (case cf_limiter (au_cfg a) of
        Decider decide \<Rightarrow>
          caught (decide key) (\<lambda>r. case r of
              Inl e \<Rightarrow> fail (with_cause CodeInternal e)
            | Inr d \<Rightarrow>
                if dc_Allowed d then ret ()
                else andThen (setHeader ''Retry-After'' (retryAfterSeconds (dc_RetryAfter d)))
                       (\<lambda>_. fail (api CodeRateLimited)))
      | AllowOnly ask \<Rightarrow>
          caught (ask key) (\<lambda>r. case r of
              Inl e \<Rightarrow> ret ()
            | Inr ok \<Rightarrow>
                if ok then ret ()
                else andThen (setHeader ''Retry-After'' ''60'') (\<lambda>_. fail (api CodeRateLimited))))"

text \<open>\<open>writeRateLimited\<close>: the header of a refused attempt, and the error.\<close>

definition writeRateLimited :: "(sys, 'a) oper \<Rightarrow> (sys, 'a) oper" where
  "writeRateLimited m =
     caught m (\<lambda>r. case r of
         Inr x \<Rightarrow> ret x
       | Inl e \<Rightarrow>
           (case e of
              RateLimitError d \<Rightarrow> andThen (setHeader ''Retry-After'' (retryAfterSeconds d)) (\<lambda>_. fail e)
            | _ \<Rightarrow> fail e))"

text \<open>The body of a request.\<close>

definition decoded :: "'b res \<Rightarrow> (sys, 'b) oper" where
  "decoded body = (case body of Inl e \<Rightarrow> fail e | Inr b \<Rightarrow> ret b)"

text \<open>\<open>issueSession\<close>. Without a request (\<open>None\<close>) no previous session is revoked.\<close>

definition issueSession :: "auth \<Rightarrow> httpRequest option \<Rightarrow> User \<Rightarrow> string \<Rightarrow> (sys, Session) oper" where
  "issueSession a r user method =
     (let previous = (case r of None \<Rightarrow> [] | Some q \<Rightarrow> requestToken (au_edge a) q) in
      andThen (createSession (au_cfg a) user method previous) (\<lambda>(sess, token).
      andThen (setCookie (eg_cookieName (au_edge a)) token) (\<lambda>_. ret sess)))"

section \<open>Links and mails\<close>

definition actionURL :: "config \<Rightarrow> string \<Rightarrow> string \<Rightarrow> string \<Rightarrow> string \<Rightarrow> string" where
  "actionURL cfg configured defaultPath token redirectTo =
     (let base = (if configured = [] then cf_baseURL cfg @ defaultPath else configured);
          sep = (if CHR ''?'' \<in> set base then ''&'' else ''?'');
          link = base @ sep @ ''token='' @ QueryEscape token
      in if redirectTo \<noteq> [] then link @ ''&redirectTo='' @ QueryEscape redirectTo else link)"

text \<open>\<open>sender.Send\<close>. The sender is the application's: a verdict on the message.\<close>

definition send :: "(Message \<Rightarrow> err option) \<Rightarrow> Message \<Rightarrow> (sys, unit) oper" where
  "send sender m s =
     (case sender m of
        Some e \<Rightarrow> (Inl e, s)
      | None \<Rightarrow> (Inr (), s\<lparr>audit := audit s @ [Mailed m]\<rparr>))"

section \<open>Frames\<close>

lemma response_intros [env_intros, db_intros]:
  "envKept (setHeader n v)" "envKept (setCookie n v)" "envKept (send f m)" "envKept (decoded b)"
  "dbInv Q (setHeader n v)" "dbInv Q (setCookie n v)" "dbInv Q (send f m)" "dbInv Q (decoded b)"
  by (simp_all add: envKept_def sameEnv_def dbInv_def keeps_def setHeader_def setCookie_def send_def
      decoded_def oper_defs split: option.split sum.split)

lemma isolated_allow: "soundLimiter (au_cfg a) \<Longrightarrow> isolated (allow a k)"
  unfolding soundLimiter_def allow_def isolated_def
  by (cases "cf_limiter (au_cfg a)") (auto intro!: db_intros env_intros)

lemma dbInv_allow [db_intros]: "limiterKeeps (au_cfg a) Q \<Longrightarrow> dbInv Q (allow a k)"
  unfolding limiterKeeps_def allow_def
  by (cases "cf_limiter (au_cfg a)") (auto intro!: db_intros)

lemma dbInv_originChecked [db_intros]: "dbInv Q (originChecked a r)"
  unfolding originChecked_def by (intro db_intros)

lemma env_originChecked [env_intros]: "envKept (originChecked a r)"
  unfolding originChecked_def by (intro env_intros)

lemma clearCookie_intros [db_intros, env_intros]: "dbInv Q (clearCookie a)" "envKept (clearCookie a)"
  unfolding clearCookie_def by (intro db_intros env_intros)+

lemma allow_frame:
  assumes "soundLimiter (au_cfg a)" and "allow a k s = (r, s')"
  shows "(db s')\<lparr>rate_limits := []\<rparr> = (db s)\<lparr>rate_limits := []\<rparr>" "clock s' = clock s"
    "faults s = [] \<Longrightarrow> faults s' = []" "in_tx s' = in_tx s"
  using isolated_run [OF isolated_allow [OF assms(1)] assms(2)]
    envKeptD [of "allow a k" s r s'] isolated_allow [OF assms(1), of k] assms(2)
  unfolding isolated_def by blast+

lemma setCookie_Inr: "setCookie n v s = (Inr x, s') \<longleftrightarrow> s' = s\<lparr>audit := audit s @ [CookieSet n v]\<rparr>"
  by (auto simp: setCookie_def)

lemma setHeader_Inr: "setHeader n v s = (Inr x, s') \<longleftrightarrow> s' = s\<lparr>audit := audit s @ [HeaderSet n v]\<rparr>"
  by (auto simp: setHeader_def)

lemma response_Inl: "\<not> setCookie n v s = (Inl e, s')" "\<not> setHeader n v s = (Inl e, s')"
  "\<not> emit nm u fs s = (Inl e, s')" "\<not> runAfter nm u s = (Inl e, s')" "\<not> now s = (Inl e, s')"
  "\<not> clearCookie a s = (Inl e, s')" "\<not> newUUID s = (Inl e, s')"
  by (simp_all add: setCookie_def setHeader_def emit_def runAfter_def now_def clearCookie_def newUUID_def)

lemma decoded_Inr: "decoded b s = (Inr x, s') \<longleftrightarrow> b = Inr x \<and> s' = s"
  by (auto simp: decoded_def ret_def fail_def split: sum.splits)

lemma decoded_Inl: "decoded b s = (Inl e, s') \<longleftrightarrow> b = Inl e \<and> s' = s"
  by (auto simp: decoded_def ret_def fail_def split: sum.splits)

lemma originChecked_Inr:
  "originChecked a r s = (Inr x, s') \<longleftrightarrow> checkOrigin (au_edge a) r = Inr () \<and> s' = s"
  by (auto simp: originChecked_def ret_def fail_def split: sum.splits)

lemma originChecked_Inl:
  "originChecked a r s = (Inl e, s') \<longleftrightarrow> checkOrigin (au_edge a) r = Inl e \<and> s' = s"
  by (auto simp: originChecked_def ret_def fail_def split: sum.splits)

lemma clearCookie_Inr: "clearCookie a s = (Inr x, s') \<longleftrightarrow>
    s' = s\<lparr>audit := audit s @ [CookieSet (eg_cookieName (au_edge a)) []]\<rparr>"
  by (simp add: clearCookie_def setCookie_Inr)

lemma send_Inr: "send f m s = (Inr x, s') \<longleftrightarrow> f m = None \<and> s' = s\<lparr>audit := audit s @ [Mailed m]\<rparr>"
  by (auto simp: send_def split: option.splits)

lemmas web_success = env_success setCookie_Inr setHeader_Inr decoded_Inr originChecked_Inr clearCookie_Inr
  now_Inr send_Inr
lemmas web_failure = response_Inl decoded_Inl originChecked_Inl

text \<open>The session of a response is stored, belongs to the user and is new.\<close>

lemma issueSession_Inr:
  assumes "issueSession a r user method s = (Inr sess, s')"
  shows "sess \<in> set (sessions (db s')) \<and> se_UserID sess = u_ID user \<and> se_CreatedAt sess = clock s \<and>
    se_ExpiresAt sess = clock s + cf_sessionTTL (au_cfg a) \<and> u_ID user \<in> userIDs (users (db s')) \<and>
    set (sessions (db s')) \<subseteq> insert sess (set (sessions (db s))) \<and>
    (\<exists>token. se_TokenHash sess = cf_hash (au_cfg a) token \<and>
       CookieSet (eg_cookieName (au_edge a)) token \<in> set (audit s'))"
proof -
  obtain token t where "createSession (au_cfg a) user method
      (case r of None \<Rightarrow> [] | Some q \<Rightarrow> requestToken (au_edge a) q) s = (Inr (sess, token), t)"
    and "s' = t\<lparr>audit := audit t @ [CookieSet (eg_cookieName (au_edge a)) token]\<rparr>"
    using assms by (auto simp: issueSession_def Let_def success_simps setCookie_Inr)
  then show ?thesis using createSession_Inr by fastforce
qed

lemma wf_issueSession [db_intros]: "dbInv wfTables (issueSession a r u m)"
  unfolding issueSession_def by (intro db_intros)

lemma env_createSession [env_intros]: "envKept (createSession cfg u m p)"
  unfolding createSession_def by (intro env_intros)

lemma env_issueSession [env_intros]: "envKept (issueSession a r u m)"
  unfolding issueSession_def by (intro env_intros)

section \<open>Frames over the sessions\<close>

text \<open>A predicate that the sessions table does not enter.\<close>

definition sessionFree :: "(tables \<Rightarrow> bool) \<Rightarrow> bool" where
  "sessionFree Q \<longleftrightarrow> (\<forall>t f. Q t \<longrightarrow> Q (sessions_update f t))"

lemma sessionFreeD: "sessionFree Q \<Longrightarrow> Q t \<Longrightarrow> Q (sessions_update f t)"
  by (simp add: sessionFree_def)

lemma sessionFree_fields [simp]:
  "sessionFree (\<lambda>t. tokens t = T)" "sessionFree (\<lambda>t. totps t = P)" "sessionFree (\<lambda>t. recovery t = R)"
  "sessionFree (\<lambda>t. users t = U)" "sessionFree (\<lambda>t. credentials t = C)" "sessionFree (\<lambda>t. accounts t = A)"
  "sessionFree (\<lambda>t. members t = M)" "sessionFree (\<lambda>t. P' (tokens t))"
  by (simp_all add: sessionFree_def)

lemma free_sessions [db_intros]:
  assumes "sessionFree Q"
  shows "dbInv Q (Sessions_Touch i at)" "dbInv Q (Sessions_Delete i)" "dbInv Q (Sessions_Create se)"
    "dbInv Q (Sessions_DeleteByUser u)"
  unfolding Sessions_Touch_def Sessions_Delete_def Sessions_Create_def Sessions_DeleteByUser_def
  by (intro db_intros dbInv_updateRows dbInv_deleteRows dbInv_insertRow sessionFreeD [OF assms]; assumption)+

lemma read_any [db_intros]:
  "dbInv Q (Sessions_GetByTokenHash h)" "dbInv Q (Sessions_ListByUser u)" "dbInv Q (Users_GetByID i)"
  "dbInv Q (SessionWithUser h)" "dbInv Q (SessionWithUserAndMembership b h)" "dbInv Q (TOTP_Get u)"
  "dbInv Q (Users_GetByNormalizedEmail n)" "dbInv Q (Users_GetCredential u)" "dbInv Q (Tokens_Get kd h)"
  unfolding Sessions_GetByTokenHash_def Sessions_ListByUser_def Users_GetByID_def SessionWithUser_def
    SessionWithUserAndMembership_def TOTP_Get_def Users_GetByNormalizedEmail_def Users_GetCredential_def
    Tokens_Get_def
  by (intro db_intros dbInv_stmt; simp add: Let_def split: option.split)+

lemma free_lookup [db_intros]: "sessionFree Q \<Longrightarrow> dbInv Q (lookupSession cfg h)"
  unfolding lookupSession_def admitSession_def readSessionAndUser_def by (intro db_intros)

lemma free_createSession [db_intros]: "sessionFree Q \<Longrightarrow> dbInv Q (createSession cfg u m p)"
  unfolding createSession_def by (intro db_intros)

lemma free_issueSession [db_intros]: "sessionFree Q \<Longrightarrow> dbInv Q (issueSession a r u m)"
  unfolding issueSession_def by (intro db_intros)

lemma free_revokeOther [db_intros]: "sessionFree Q \<Longrightarrow> dbInv Q (revokeOtherSessions u k)"
proof -
  assume q: "sessionFree Q"
  have "dbInv Q (revokeEach k ss n)" for ss n
    by (induction ss arbitrary: n) (auto intro!: db_intros q)
  then show ?thesis unfolding revokeOtherSessions_def by (intro db_intros)
qed

lemma cache_any [db_intros]: "dbInv Q (cacheGet a c)" "dbInv Q (cachePut a c p)"
  by (auto simp: dbInv_def keeps_def cacheGet_def cachePut_def Let_def split: option.split)

lemma free_requireSession [db_intros]:
  assumes "sessionFree Q" and "claimant a (bearerToken r) = None"
  shows "dbInv Q (requireSessionState a r g)"
  unfolding requireSessionState_def resolvePrincipal_def readPrincipal_def sessionByToken_def Let_def assms(2)
    option.case
  using assms(1) by (intro db_intros) simp_all

text \<open>The limiter keeps what does not depend on its counters.\<close>

lemma dbInv_isolated:
  assumes "isolated m" and "\<And>t. Q (t\<lparr>rate_limits := []\<rparr>) = Q t"
  shows "dbInv Q m"
  unfolding dbInv_def keeps_def
proof (intro allI impI)
  fix s :: sys assume q: "Q (db s)"
  obtain r s' where run: "m s = (r, s')" by fastforce
  have "(db s')\<lparr>rate_limits := []\<rparr> = (db s)\<lparr>rate_limits := []\<rparr>" using isolated_run [OF assms(1) run] by blast
  then show "Q (db (snd (m s)))" using q assms(2) run by (metis snd_conv)
qed

lemmas wf_run = dbInvD [where Q = wfTables]

section \<open>What an operation mails\<close>

definition mailed :: "(Message \<Rightarrow> bool) \<Rightarrow> sys \<Rightarrow> bool" where
  "mailed P s \<longleftrightarrow> (\<forall>m. Mailed m \<in> set (audit s) \<longrightarrow> P m)"

lemma mailed_stmt [keeps_intros]: "keeps (mailed P) (stmt f)"
  by (auto simp: keeps_def mailed_def stmt_def split: prod.split)

lemma mailed_forms [keeps_intros]:
  "keeps (mailed P) (select g)" "keeps (mailed P) (selectOne get p)" "keeps (mailed P) (insertRow get upd uq fk r)"
  "keeps (mailed P) (updateRows get upd uq p f)" "keeps (mailed P) (updateReturning get upd p f)"
  "keeps (mailed P) (deleteRows get upd p)"
  unfolding select_def selectOne_def insertRow_def updateRows_def updateReturning_def deleteRows_def
  by (rule mailed_stmt)+

lemma mailed_basic [keeps_intros]:
  "keeps (mailed P) now" "keeps (mailed P) newUUID" "keeps (mailed P) NewToken" "keeps (mailed P) (emit nm u fs)"
  "keeps (mailed P) (runAfter nm u)" "keeps (mailed P) (requireAffected n)" "keeps (mailed P) (veto v)"
  "keeps (mailed P) (setHeader hn hv)" "keeps (mailed P) (setCookie hn hv)" "keeps (mailed P) (decoded b)"
  "keeps (mailed P) (originChecked a r)"
  by (simp_all add: keeps_def mailed_def oper_defs now_def newUUID_def NewToken_def emit_def runAfter_def
      requireAffected_def veto_def setHeader_def setCookie_def decoded_def originChecked_def split: option.split sum.split)

lemma mailed_send [keeps_intros]: "P m \<Longrightarrow> keeps (mailed P) (send f m)"
  by (simp add: keeps_def mailed_def send_def split: option.split)

lemma mailed_transaction [keeps_intros]:
  assumes "keeps (mailed P) m"
  shows "keeps (mailed P) (transaction m)"
  unfolding keeps_def
proof (intro allI impI)
  fix s :: sys assume s: "mailed P s"
  have 1: "mailed P (snd (m s))" using assms s by (rule keepsD)
  have "mailed P ((tick s)\<lparr>in_tx := True\<rparr>)" using s by (simp add: mailed_def)
  then have 2: "mailed P (snd (m ((tick s)\<lparr>in_tx := True\<rparr>)))" by (rule keepsD [OF assms])
  obtain r t where mt: "m ((tick s)\<lparr>in_tx := True\<rparr>) = (r, t)" by fastforce
  show "mailed P (snd (transaction m s))"
    using 1 2 s unfolding mt by (cases r) (auto simp: transaction_def mailed_def mt simp del: tick_nofault)
qed

lemma mailed_store [keeps_intros]:
  "keeps (mailed P) (Users_GetByNormalizedEmail n)" "keeps (mailed P) (Tokens_Create k)"
  "keeps (mailed P) (Tokens_DeleteByIdentifier kd i)" "keeps (mailed P) (CountAttempt key w at)"
  unfolding Users_GetByNormalizedEmail_def Tokens_Create_def Tokens_DeleteByIdentifier_def CountAttempt_def
  by (intro keeps_intros)+

lemma mailed_issueToken [keeps_intros]: "keeps (mailed P) (issueToken cfg i)"
  unfolding issueToken_def by (intro keeps_intros)

lemma mailed_decideRules: "keeps (mailed P) (decideRules subj k at rules out)"
  by (induction rules arbitrary: out) (auto intro!: keeps_intros simp: Let_def split: option.split)

lemma mailed_allow:
  assumes "cf_limiter (au_cfg a) = Decider (Decide subj rules)"
  shows "keeps (mailed P) (allow a k)"
  unfolding allow_def assms limiter.case Decide_def Let_def by (intro keeps_intros mailed_decideRules)

end
