(* ===== verification/Second_Factor.thy ===== *)
theory Second_Factor
  imports Handler_Base One_Time
begin

text \<open>
  The second factor of \<open>handlers_totp.go\<close>: enrolment, confirmation, the second step of a sign-in with
  a code or a recovery code, the new recovery codes and the removal of the factor.
\<close>

section \<open>Enrolment and codes\<close>

text \<open>\<open>NewSecret\<close>: the draw is the raw bytes of the secret.\<close>

definition NewSecret :: "(sys, nat list) oper" where
  "NewSecret = andThen NewToken (\<lambda>raw. ret (bytesOf raw))"

text \<open>\<open>URI\<close>: the query is sorted by key.\<close>

definition URI :: "nat list \<Rightarrow> string \<Rightarrow> string \<Rightarrow> Params \<Rightarrow> string" where
  "URI secret issuer account p0 =
     (let p = normalize p0 in
      ''otpauth://totp'' @ pathEscape (''/'' @ issuer @ '':'' @ account)
        @ ''?algorithm=SHA1&digits='' @ Itoa (nat (pa_Digits p)) @ ''&issuer='' @ QueryEscape issuer
        @ ''&period='' @ Itoa (nat (periodSeconds p)) @ ''&secret='' @ QueryEscape (EncodeSecret secret))"

definition totpIssuer :: "auth \<Rightarrow> string" where
  "totpIssuer a =
     (if cf_totpIssuer (au_cfg a) \<noteq> [] then cf_totpIssuer (au_cfg a)
      else case eg_parseURL (au_edge a) (cf_baseURL (au_cfg a)) of
             Some u \<Rightarrow> if pu_Host u \<noteq> [] then pu_Host u else ''Auth-All''
           | None \<Rightarrow> ''Auth-All'')"

definition totpEnrolment :: "string \<Rightarrow> (sys, TOTP \<times> nat list) oper" where
  "totpEnrolment uid =
     caught (TOTP_Get uid) (\<lambda>r. case r of
         Inl e \<Rightarrow> if isNotFound e then fail (api CodeTOTPNotEnrolled) else fail (with_cause CodeInternal e)
       | Inr rec \<Rightarrow>
           (case DecodeSecret (tp_Secret rec) of
              Inl e \<Rightarrow> fail (with_cause CodeInternal e)
            | Inr secret \<Rightarrow> ret (rec, secret)))"

definition verifyTOTPCode :: "config \<Rightarrow> TOTP \<Rightarrow> nat list \<Rightarrow> string \<Rightarrow> (sys, unit) oper" where
  "verifyTOTPCode cfg rec secret input =
     andThen now (\<lambda>at.
     case Validate (cf_hmac cfg) length secret input at Default of
       (step, ok) \<Rightarrow>
         if \<not> ok then fail (api CodeInvalidTOTPCode)
         else caught (TOTP_AdvanceStep (tp_UserID rec) step) (\<lambda>r. case r of
                Inl e \<Rightarrow> if isNotFound e then fail (api CodeTOTPNotEnrolled)
                         else fail (with_cause CodeInternal e)
              | Inr advanced \<Rightarrow> if advanced then ret () else fail (api CodeInvalidTOTPCode)))"

definition RecoveryCodeCount :: nat where "RecoveryCodeCount = 10"

definition drawRecoveryCodes :: "nat \<Rightarrow> (sys, string list) oper" where
  "drawRecoveryCodes n s =
     (case NewRecoveryCodes n (draws s) [] of (r, rest) \<Rightarrow> (r, s\<lparr>draws := rest\<rparr>))"

definition issueRecoveryCodes :: "config \<Rightarrow> string \<Rightarrow> (sys, string list) oper" where
  "issueRecoveryCodes cfg uid =
     andThen (mapFail (with_cause CodeInternal) (drawRecoveryCodes RecoveryCodeCount)) (\<lambda>codes.
     andThen (mapFail publicError
                (Recovery_ReplaceAll uid (map (\<lambda>c. cf_hash cfg (NormalizeRecoveryCode c)) codes)))
       (\<lambda>_. ret codes))"

definition setMFACookie :: "auth \<Rightarrow> string \<Rightarrow> (sys, unit) oper" where
  "setMFACookie a token = setCookie (mfaCookieName (au_edge a)) token"

definition clearMFACookie :: "auth \<Rightarrow> (sys, unit) oper" where
  "clearMFACookie a = setCookie (mfaCookieName (au_edge a)) []"

definition totpKey :: "auth \<Rightarrow> httpRequest \<Rightarrow> string \<Rightarrow> Key" where
  "totpKey a r uid = keyOf OpTOTP (clientIP (au_edge a) r) [] uid"

section \<open>The signed-in endpoints\<close>

text \<open>The response of the enrolment is the secret and the URI. \<open>startEnrolment\<close> is the part after the
  guard of \<open>guardEnrolment\<close> against a confirmed factor.\<close>

definition startEnrolment :: "auth \<Rightarrow> User \<Rightarrow> (sys, string \<times> string) oper" where
  "startEnrolment a user =
     andThen (mapFail (with_cause CodeInternal) NewSecret) (\<lambda>secret.
     andThen now (\<lambda>at.
     andThen (mapFail publicError (TOTP_Upsert \<lparr>tp_UserID = u_ID user, tp_Secret = EncodeSecret secret,
                tp_ConfirmedAt = None, tp_LastStep = 0, tp_CreatedAt = at, tp_UpdatedAt = at\<rparr>)) (\<lambda>_.
     ret (EncodeSecret secret, URI secret (totpIssuer a) (u_Email user) Default))))"

definition guardEnrolment :: "auth \<Rightarrow> User \<Rightarrow> (sys, string \<times> string) oper" where
  "guardEnrolment a user =
     caught (TOTP_Get (u_ID user)) (\<lambda>existing.
     case existing of
       Inl e \<Rightarrow> if \<not> isNotFound e then fail (with_cause CodeInternal e) else startEnrolment a user
     | Inr rec \<Rightarrow> if tp_ConfirmedAt rec \<noteq> None then fail (api CodeTOTPAlreadyEnrolled)
                 else startEnrolment a user)"

definition handleTOTPEnrol :: "auth \<Rightarrow> httpRequest \<Rightarrow> (sys, string \<times> string) oper" where
  "handleTOTPEnrol a r =
     andThen (originChecked a r) (\<lambda>_.
     andThen (requireSession a r) (\<lambda>(sess, user).
     andThen (allow a (totpKey a r (u_ID user))) (\<lambda>_. guardEnrolment a user)))"

definition handleTOTPConfirm :: "auth \<Rightarrow> httpRequest \<Rightarrow> string res \<Rightarrow> (sys, string list) oper" where
  "handleTOTPConfirm a r body =
     andThen (originChecked a r) (\<lambda>_.
     andThen (requireSession a r) (\<lambda>(sess, user).
     andThen (decoded body) (\<lambda>input.
     andThen (allow a (totpKey a r (u_ID user))) (\<lambda>_.
     andThen (totpEnrolment (u_ID user)) (\<lambda>(rec, secret).
     if tp_ConfirmedAt rec \<noteq> None then fail (api CodeTOTPAlreadyEnrolled)
     else
       andThen (verifyTOTPCode (au_cfg a) rec secret input) (\<lambda>_.
       andThen now (\<lambda>at.
       andThen (mapFail publicError (TOTP_Confirm (u_ID user) at)) (\<lambda>_.
       andThen (issueRecoveryCodes (au_cfg a) (u_ID user)) (\<lambda>codes.
       andThen (revokeOtherSessions (u_ID user) (se_ID sess)) (\<lambda>_.
       andThen (emit ''auth.totp_enabled'' (u_ID user) []) (\<lambda>_. ret codes)))))))))))"

text \<open>The removal of the factor with its codes; the failure to remove the codes is logged.\<close>

definition dropFactor :: "string \<Rightarrow> (string \<times> string) list \<Rightarrow> (sys, unit) oper" where
  "dropFactor uid details =
     andThen (caught (TOTP_Delete uid) (\<lambda>r. case r of
                Inl e \<Rightarrow> if isNotFound e then ret () else fail (publicError e)
              | Inr _ \<Rightarrow> ret ())) (\<lambda>_.
     andThen (ignoring (Recovery_DeleteByUser uid)) (\<lambda>_.
     emit ''auth.totp_disabled'' uid details))"

definition handleTOTPDisable :: "auth \<Rightarrow> httpRequest \<Rightarrow> string res \<Rightarrow> (sys, unit) oper" where
  "handleTOTPDisable a r body =
     andThen (originChecked a r) (\<lambda>_.
     andThen (requireSession a r) (\<lambda>(sess, user).
     andThen (decoded body) (\<lambda>input.
     andThen (allow a (totpKey a r (u_ID user))) (\<lambda>_.
     andThen (totpEnrolment (u_ID user)) (\<lambda>(rec, secret).
     andThen (verifyTOTPCode (au_cfg a) rec secret input) (\<lambda>_.
     dropFactor (u_ID user) []))))))"

definition handleTOTPRegenerate :: "auth \<Rightarrow> httpRequest \<Rightarrow> string res \<Rightarrow> (sys, string list) oper" where
  "handleTOTPRegenerate a r body =
     andThen (originChecked a r) (\<lambda>_.
     andThen (requireSession a r) (\<lambda>(sess, user).
     andThen (decoded body) (\<lambda>input.
     andThen (allow a (totpKey a r (u_ID user))) (\<lambda>_.
     andThen (totpEnrolment (u_ID user)) (\<lambda>(rec, secret).
     if tp_ConfirmedAt rec = None then fail (api CodeTOTPNotEnrolled)
     else andThen (verifyTOTPCode (au_cfg a) rec secret input) (\<lambda>_.
          issueRecoveryCodes (au_cfg a) (u_ID user)))))))"

section \<open>The second step of a sign-in\<close>

record totpVerifyRequest =
  vr_Code :: string
  vr_MFAToken :: string

text \<open>The user of a consumed challenge.\<close>

definition challengeUser :: "Token res \<Rightarrow> (sys, User) oper" where
  "challengeUser consumed =
     (case consumed of
        Inl e \<Rightarrow> fail e
      | Inr tok \<Rightarrow>
          (case tk_UserID tok of
             None \<Rightarrow> fail (api CodeInvalidToken)
           | Some uid \<Rightarrow> mapFail publicError (Users_GetByID uid)))"

text \<open>The common start of both handlers: the challenge is consumed before the code is looked at, and the
  challenge cookie goes with it.\<close>

definition redeemChallenge :: "auth \<Rightarrow> httpRequest \<Rightarrow> totpVerifyRequest res \<Rightarrow> (sys, User \<times> string) oper" where
  "redeemChallenge a r body =
     andThen (originChecked a r) (\<lambda>_.
     andThen (decoded body) (\<lambda>req.
     let challenge = requestMFAToken (au_edge a) r (vr_MFAToken req) in
     if challenge = [] then fail (api CodeInvalidToken)
     else
       andThen (allow a (totpKey a r [])) (\<lambda>_.
       caught (consumeToken (au_cfg a) MFATokenKind challenge) (\<lambda>consumed.
       andThen (clearMFACookie a) (\<lambda>_.
       andThen (challengeUser consumed) (\<lambda>user. ret (user, vr_Code req)))))))"

definition secondFactorFailed :: "User \<Rightarrow> string \<Rightarrow> (sys, unit) oper" where
  "secondFactorFailed user reason = emit ''auth.sign_in_failed'' (u_ID user) [(''reason'', reason)]"

definition verifySecondFactor :: "auth \<Rightarrow> httpRequest \<Rightarrow> User \<Rightarrow> string \<Rightarrow> (sys, User \<times> Session) oper" where
  "verifySecondFactor a r user input =
     andThen (totpEnrolment (u_ID user)) (\<lambda>(rec, secret).
     if tp_ConfirmedAt rec = None then fail (api CodeTOTPNotEnrolled)
     else
       caught (verifyTOTPCode (au_cfg a) rec secret input) (\<lambda>verdict.
       case verdict of
         Inl e \<Rightarrow> andThen (secondFactorFailed user ''invalid_totp_code'') (\<lambda>_. fail e)
       | Inr _ \<Rightarrow> andThen (issueSession a (Some r) user ''totp'') (\<lambda>sess. ret (user, sess))))"

definition handleTOTPVerify :: "auth \<Rightarrow> httpRequest \<Rightarrow> totpVerifyRequest res \<Rightarrow> (sys, User \<times> Session) oper" where
  "handleTOTPVerify a r body =
     andThen (redeemChallenge a r body) (\<lambda>(user, input). verifySecondFactor a r user input)"

definition recoverFactor :: "auth \<Rightarrow> httpRequest \<Rightarrow> User \<Rightarrow> string \<Rightarrow> (sys, User \<times> Session) oper" where
  "recoverFactor a r user input =
     andThen (mapFail (with_cause CodeInternal)
                (Recovery_Consume (u_ID user) (cf_hash (au_cfg a) (NormalizeRecoveryCode input)))) (\<lambda>ok.
     if \<not> ok then andThen (secondFactorFailed user ''invalid_recovery_code'') (\<lambda>_. fail (api CodeInvalidRecoveryCode))
     else
       andThen (dropFactor (u_ID user) [(''reason'', ''recovery_code'')]) (\<lambda>_.
       andThen (issueSession a (Some r) user ''totp-recovery'') (\<lambda>sess. ret (user, sess))))"

definition handleTOTPRecovery :: "auth \<Rightarrow> httpRequest \<Rightarrow> totpVerifyRequest res \<Rightarrow> (sys, User \<times> Session) oper" where
  "handleTOTPRecovery a r body =
     andThen (redeemChallenge a r body) (\<lambda>(user, input). recoverFactor a r user input)"

section \<open>What the second step needs\<close>

lemma Tokens_Consume_Inr:
  assumes "Tokens_Consume kd h at s = (Inr tok, s')" and "wfTables (db s)"
  shows "\<exists>k \<in> set (tokens (db s)). tk_Kind k = kd \<and> tk_TokenHash k = h \<and> tk_ConsumedAt k = None \<and>
      at < tk_ExpiresAt k \<and> tok = k\<lparr>tk_ConsumedAt := Some at\<rparr> \<and> \<not> tokenUsable (kd, h) (db s') \<and>
      db s' = (db s)\<lparr>tokens := tokens (db s')\<rparr>"
proof -
  obtain k where k: "find (\<lambda>k. tk_Kind k = kd \<and> tk_TokenHash k = h \<and> tk_ConsumedAt k = None \<and> at < tk_ExpiresAt k)
        (tokens (db s)) = Some k"
      "tok = k\<lparr>tk_ConsumedAt := Some at\<rparr>" "db s' = (db s)\<lparr>tokens := tokens (db s')\<rparr>"
    using assms(1) by (auto simp: Tokens_Consume_def sql_success)
  have "\<not> tokenUsable (kd, h) (db s')"
    using tok.claim_spends [of s "(kd, h)" at tok s'] assms by (simp add: claimToken_def anyResult_def)
  then show ?thesis using find_SomeD [OF k(1)] k(2,3) by blast
qed

lemma env_Consume: "envKept (Tokens_Consume kd h at)"
  unfolding Tokens_Consume_def by (intro env_intros)

lemma consumeToken_Inr:
  assumes "consumeToken cfg kd p s = (Inr tok, s')" and "wfTables (db s)"
  shows "p \<noteq> [] \<and> (\<exists>k \<in> set (tokens (db s)). tk_Kind k = kd \<and> tk_TokenHash k = cf_hash cfg p \<and> tk_ConsumedAt k = None \<and>
      clock s < tk_ExpiresAt k \<and> tok = k\<lparr>tk_ConsumedAt := Some (clock s)\<rparr> \<and>
      \<not> tokenUsable (kd, cf_hash cfg p) (db s') \<and> db s' = (db s)\<lparr>tokens := tokens (db s')\<rparr>) \<and>
    clock s' = clock s"
proof -
  have run: "p \<noteq> []" "Tokens_Consume kd (cf_hash cfg p) (clock s) s = (Inr tok, s')"
    using assms(1) by (auto simp: consumeToken_def success_simps now_Inr optional_Inr split: if_splits option.splits)
  show ?thesis
    using run(1) Tokens_Consume_Inr [OF run(2) assms(2)] envKeptD(1) [OF env_Consume run(2)] by blast
qed

lemma env_consumeToken [env_intros]: "envKept (consumeToken cfg kd p)"
  unfolding consumeToken_def by (intro env_intros)

lemma challengeUser_Inr:
  "challengeUser c s = (Inr user, s') \<longleftrightarrow>
     (\<exists>tok uid. c = Inr tok \<and> tk_UserID tok = Some uid \<and> Users_GetByID uid s = (Inr user, s'))"
  by (auto simp: challengeUser_def success_simps split: sum.splits option.splits)

lemma redeemChallenge_Inr:
  assumes "redeemChallenge a r body s = (Inr (user, input), s')" and "soundLimiter (au_cfg a)" and "wfTables (db s)"
  shows "\<exists>req k. body = Inr req \<and> input = vr_Code req \<and> k \<in> set (tokens (db s)) \<and> tk_Kind k = MFATokenKind \<and>
     tk_TokenHash k = cf_hash (au_cfg a) (requestMFAToken (au_edge a) r (vr_MFAToken req)) \<and> tk_ConsumedAt k = None \<and>
     clock s < tk_ExpiresAt k \<and> tk_UserID k = Some (u_ID user) \<and> user \<in> set (users (db s)) \<and>
     \<not> tokenUsable (MFATokenKind, tk_TokenHash k) (db s') \<and> totps (db s') = totps (db s) \<and>
     sessions (db s') = sessions (db s) \<and> recovery (db s') = recovery (db s) \<and> clock s' = clock s \<and>
     (faults s = [] \<longrightarrow> faults s' = [])"
proof -
  obtain req s1 tok s2 uid where req: "body = Inr req" "input = vr_Code req"
    and al: "allow a (totpKey a r []) s = (Inr (), s1)"
    and cs: "consumeToken (au_cfg a) MFATokenKind (requestMFAToken (au_edge a) r (vr_MFAToken req)) s1 = (Inr tok, s2)"
    and uid: "tk_UserID tok = Some uid"
    and us: "Users_GetByID uid (s2\<lparr>audit := audit s2 @ [CookieSet (mfaCookieName (au_edge a)) []]\<rparr>) = (Inr user, s')"
    using assms(1)
    by (auto simp: redeemChallenge_def Let_def success_simps web_success caught_run clearMFACookie_def challengeUser_Inr
        split: if_splits sum.splits option.splits)
  note fr = allow_frame [OF assms(2) al]
  have wf1: "wfTables (db s1)" by (rule isolated_wf [OF isolated_allow [OF assms(2)] al assms(3)])
  have u: "user \<in> set (users (db s2))" "u_ID user = uid" "db s' = db s2" "clock s' = clock s2"
    "faults s2 = [] \<longrightarrow> faults s' = []"
    using us by (auto simp: Users_GetByID_def sql_success tick_def dest!: find_SomeD)
  have nf: "faults s1 = [] \<longrightarrow> faults s2 = []" using envKeptD(3) [OF env_consumeToken cs] by blast
  obtain k where k: "k \<in> set (tokens (db s1))" "tk_Kind k = MFATokenKind"
    "tk_TokenHash k = cf_hash (au_cfg a) (requestMFAToken (au_edge a) r (vr_MFAToken req))" "tk_ConsumedAt k = None"
    "clock s1 < tk_ExpiresAt k" "tok = k\<lparr>tk_ConsumedAt := Some (clock s1)\<rparr>"
    "\<not> tokenUsable (MFATokenKind, tk_TokenHash k) (db s2)" "db s2 = (db s1)\<lparr>tokens := tokens (db s2)\<rparr>" "clock s2 = clock s1"
    using consumeToken_Inr [OF cs wf1] by metis
  have same: "users (db s2) = users (db s1)" "totps (db s2) = totps (db s1)" "sessions (db s2) = sessions (db s1)"
    "recovery (db s2) = recovery (db s1)"
    using k(8) by (metis tables.select_convs tables.surjective tables.update_convs(5))+
  show ?thesis
    using req uid u k same same_but_rates [OF fr(1)] fr(2,3) nf
    by (intro exI [of _ req] exI [of _ k]) auto
qed

lemma totpEnrolment_Inr:
  "totpEnrolment uid s = (Inr (rec, secret), s') \<longleftrightarrow>
     TOTP_Get uid s = (Inr rec, s') \<and> DecodeSecret (tp_Secret rec) = Inr secret"
  by (auto simp: totpEnrolment_def success_simps branch_run)

lemma verifyTOTPCode_Inr:
  assumes "verifyTOTPCode cfg rec secret input s = (Inr x, s')"
  shows "\<exists>step. Validate (cf_hmac cfg) length secret input (clock s) Default = (step, True) \<and>
     TOTP_AdvanceStep (tp_UserID rec) step s = (Inr True, s')"
  using assms
  by (auto simp: verifyTOTPCode_def success_simps now_Inr branch_run)

lemma env_AdvanceStep: "envKept (TOTP_AdvanceStep u n)"
  unfolding TOTP_AdvanceStep_def TOTP_Get_def by (intro env_intros)

lemma env_verify [env_intros]: "envKept (verifyTOTPCode cfg rec secret input)"
  unfolding verifyTOTPCode_def by (intro env_intros env_AdvanceStep)

text \<open>A predicate of the tokens survives everything after the challenge.\<close>

lemma tokens_AdvanceStep: "dbInv (\<lambda>t. P (tokens t)) (TOTP_AdvanceStep u n)"
  unfolding TOTP_AdvanceStep_def by (intro db_intros dbInv_updateRows) simp

lemma tokens_dropFactor: "dbInv (\<lambda>t. P (tokens t)) (dropFactor u d)"
  unfolding dropFactor_def TOTP_Delete_def Recovery_DeleteByUser_def
  by (intro db_intros dbInv_deleteRows) simp_all

lemma tokens_after_challenge:
  "dbInv (\<lambda>t. P (tokens t)) (verifySecondFactor a r u i)" "dbInv (\<lambda>t. P (tokens t)) (recoverFactor a r u i)"
  unfolding verifySecondFactor_def recoverFactor_def totpEnrolment_def verifyTOTPCode_def secondFactorFailed_def
    Recovery_Consume_def
  by (intro db_intros tokens_AdvanceStep tokens_dropFactor dbInv_deleteRows; simp)+

lemma tokenUsable_spent_stays:
  assumes "verifySecondFactor a r u i s = (res, s') \<or> recoverFactor a r u i s = (res, s')"
    and "\<not> tokenUsable k (db s)"
  shows "\<not> tokenUsable k (db s')"
proof -
  have Q: "(\<lambda>t. \<not> tokenUsable k t) = (\<lambda>t. \<not> (\<exists>x \<in> set (tokens t). tk_Kind x = fst k \<and> tk_TokenHash x = snd k \<and>
      tk_ConsumedAt x = None))"
    by (auto simp: tokenUsable_def)
  show ?thesis
    using assms dbInvD [where Q = "\<lambda>t. \<not> tokenUsable k t"]
      tokens_after_challenge [of "\<lambda>ts. \<not> (\<exists>x \<in> set ts. tk_Kind x = fst k \<and> tk_TokenHash x = snd k \<and>
      tk_ConsumedAt x = None)", folded Q] by metis
qed

lemma verifySecondFactor_Inr:
  assumes "verifySecondFactor a r user input s = (Inr (u, sess), s')" and wf: "wfTables (db s)"
  shows "u = user \<and> sess \<in> set (sessions (db s')) \<and> se_UserID sess = u_ID user \<and>
     (\<exists>p \<in> set (totps (db s)). \<exists>secret step. tp_UserID p = u_ID user \<and> tp_ConfirmedAt p \<noteq> None \<and>
        DecodeSecret (tp_Secret p) = Inr secret \<and> tp_LastStep p < step \<and>
        Validate (cf_hmac (au_cfg a)) length secret input (clock s) Default = (step, True))"
proof -
  obtain p secret s1 s2 where en: "TOTP_Get (u_ID user) s = (Inr p, s1)" "DecodeSecret (tp_Secret p) = Inr secret"
    "tp_ConfirmedAt p \<noteq> None"
    and v: "verifyTOTPCode (au_cfg a) p secret input s1 = (Inr (), s2)"
    and iss: "issueSession a (Some r) user ''totp'' s2 = (Inr sess, s')" and u: "u = user"
    using assms(1)
    by (auto simp: verifySecondFactor_def success_simps totpEnrolment_Inr branch_run)
  have p: "p \<in> set (totps (db s))" "tp_UserID p = u_ID user" "db s1 = db s" "clock s1 = clock s"
    "find (\<lambda>p. tp_UserID p = u_ID user) (totps (db s)) = Some p"
    using en(1) by (auto simp: TOTP_Get_def sql_success dest!: find_SomeD)
  obtain step where st: "Validate (cf_hmac (au_cfg a)) length secret input (clock s1) Default = (step, True)"
    "TOTP_AdvanceStep (tp_UserID p) step s1 = (Inr True, s2)"
    using verifyTOTPCode_Inr [OF v] by blast
  have "tp_LastStep p < step"
  proof -
    obtain q where q: "q \<in> set (totps (db s))" "tp_UserID q = u_ID user" "tp_LastStep q < step"
      using AdvanceStep_True [OF st(2)] p(2,3) by auto
    then show ?thesis using wf p(1,2) by (auto simp: wfTables_def okRows_def dest: distinct_map_unique)
  qed
  then show ?thesis using issueSession_Inr [OF iss] u p en st by auto
qed

section \<open>The second step of a sign-in\<close>

lemma redeem_wf:
  assumes "soundLimiter (au_cfg a)"
  shows "dbInv wfTables (redeemChallenge a r body)"
  unfolding redeemChallenge_def challengeUser_def clearMFACookie_def Let_def
  by (intro db_intros sound_keeps assms)

text \<open>C5. A second factor that is asked for is given: a session comes out of the second step only when
  the request presents a pending challenge of this user and a code of a time step within one step of the
  clock, above the last accepted step, of the confirmed secret of this user. The session belongs to the
  user and the challenge is spent.\<close>

theorem second_factor_required:
  assumes "handleTOTPVerify a r body s = (Inr (user, sess), s')" and "soundLimiter (au_cfg a)"
    and "wfTables (db s)"
  shows "\<exists>req k p secret step. body = Inr req \<and> k \<in> set (tokens (db s)) \<and> tk_Kind k = MFATokenKind \<and>
     tk_TokenHash k = cf_hash (au_cfg a) (requestMFAToken (au_edge a) r (vr_MFAToken req)) \<and>
     tk_ConsumedAt k = None \<and> clock s < tk_ExpiresAt k \<and> tk_UserID k = Some (u_ID user) \<and>
     p \<in> set (totps (db s)) \<and> tp_UserID p = u_ID user \<and> tp_ConfirmedAt p \<noteq> None \<and>
     DecodeSecret (tp_Secret p) = Inr secret \<and> tp_LastStep p < step \<and>
     code (cf_hmac (au_cfg a)) secret step Default = vr_Code req \<and> \<bar>step - Step (clock s) Default\<bar> \<le> 1 \<and>
     user \<in> set (users (db s)) \<and> sess \<in> set (sessions (db s')) \<and> se_UserID sess = u_ID user \<and>
     \<not> tokenUsable (MFATokenKind, tk_TokenHash k) (db s')"
proof -
  obtain u input s1 where rd: "redeemChallenge a r body s = (Inr (u, input), s1)"
    and vf: "verifySecondFactor a r u input s1 = (Inr (user, sess), s')"
    using assms(1) by (auto simp: handleTOTPVerify_def success_simps prod_run)
  obtain req k where k: "body = Inr req" "input = vr_Code req" "k \<in> set (tokens (db s))" "tk_Kind k = MFATokenKind"
     "tk_TokenHash k = cf_hash (au_cfg a) (requestMFAToken (au_edge a) r (vr_MFAToken req))" "tk_ConsumedAt k = None"
     "clock s < tk_ExpiresAt k" "tk_UserID k = Some (u_ID u)" "u \<in> set (users (db s))"
     "\<not> tokenUsable (MFATokenKind, tk_TokenHash k) (db s1)" "totps (db s1) = totps (db s)" "clock s1 = clock s"
    using redeemChallenge_Inr [OF rd assms(2,3)] by blast
  have wf1: "wfTables (db s1)" by (rule dbInvD [OF redeem_wf [OF assms(2)] rd assms(3)])
  obtain p secret step where p: "user = u" "sess \<in> set (sessions (db s'))" "se_UserID sess = u_ID u"
     "p \<in> set (totps (db s1))" "tp_UserID p = u_ID u" "tp_ConfirmedAt p \<noteq> None"
     "DecodeSecret (tp_Secret p) = Inr secret" "tp_LastStep p < step"
     and v: "Validate (cf_hmac (au_cfg a)) length secret input (clock s1) Default = (step, True)"
    using verifySecondFactor_Inr [OF vf wf1] by blast
  have "length secret \<noteq> 0" using v by (auto simp: Validate_def Let_def)
  from Validate_iff [OF this v]
  have "code (cf_hmac (au_cfg a)) secret step Default = input" "\<bar>step - Step (clock s1) Default\<bar> \<le> 1"
    by (simp_all add: normalize_def Default_def)
  moreover have "\<not> tokenUsable (MFATokenKind, tk_TokenHash k) (db s')"
    using tokenUsable_spent_stays vf k(10) by blast
  ultimately show ?thesis using k p by (intro exI [of _ req] exI [of _ k] exI [of _ p] exI [of _ secret] exI [of _ step]) auto
qed

text \<open>No failure of the second step adds a session.\<close>

lemma insert_after_failure:
  assumes "insertRow get upd uq fk x s = (Inl e, s')"
  shows "db s' = db s"
  using assms by (auto simp: insertRow_def stmt_def split: if_splits)

lemma subset_Delete: "dbInv (\<lambda>t. set (sessions t) \<subseteq> S) (Sessions_Delete i)"
  unfolding Sessions_Delete_def by (intro db_intros dbInv_deleteRows) auto

lemma createSession_Inl:
  assumes "createSession cfg user m prev s = (Inl e, s')"
  shows "set (sessions (db s')) \<subseteq> set (sessions (db s))"
proof -
  let ?drop = "if prev \<noteq> []
              then caught (Sessions_GetByTokenHash (cf_hash cfg prev)) (\<lambda>r. case r of
                     Inr prev \<Rightarrow> ignoring (Sessions_Delete (se_ID prev))
                   | Inl _ \<Rightarrow> ret ())
              else ret ()"
  have "dbInv (\<lambda>t. set (sessions t) \<subseteq> set (sessions (db s))) ?drop"
    by (intro db_intros subset_Delete)
  then have drop: "set (sessions (db t)) \<subseteq> set (sessions (db s))" if "?drop s = (q, t)" for q t
    using dbInvD that by blast
  have tx: "db t' = db t" if "transaction (andThen (veto v) (\<lambda>_. Sessions_Create x)) t = (Inl e', t')" for v x t e' t'
    using that
    by (cases "in_tx t")
      (auto simp: transaction_def failure_simps veto_def ret_def fail_def Sessions_Create_def
        dest!: insert_after_failure dest: transaction_Inl_db [unfolded transaction_def] split: option.splits if_splits prod.splits sum.splits)
  show ?thesis
    using assms drop unfolding createSession_def
    by (auto simp: andThen_Inl [of "if _ then _ else _"] andThen_Inr [of "if _ then _ else _"] failure_simps success_simps
       Let_def NewToken_def now_def newUUID_def runAfter_def emit_def dest!: tx split: option.splits) blast+
qed

lemma issueSession_Inl:
  assumes "issueSession a r user m s = (Inl e, s')"
  shows "set (sessions (db s')) \<subseteq> set (sessions (db s))"
  using assms createSession_Inl
  by (auto simp: issueSession_def Let_def failure_simps prod_run response_Inl)

lemma sessions_any:
  "dbInv (\<lambda>t. P (sessions t)) (totpEnrolment u)" "dbInv (\<lambda>t. P (sessions t)) (verifyTOTPCode cfg p sec i)"
  "dbInv (\<lambda>t. P (sessions t)) (dropFactor u d)" "dbInv (\<lambda>t. P (sessions t)) (Recovery_Consume u h)"
  unfolding totpEnrolment_def verifyTOTPCode_def dropFactor_def TOTP_AdvanceStep_def TOTP_Delete_def
    Recovery_DeleteByUser_def Recovery_Consume_def
  by (intro db_intros dbInv_updateRows dbInv_deleteRows; simp)+

lemma sessions_same:
  "totpEnrolment u s = (q, s') \<Longrightarrow> sessions (db s') = sessions (db s)"
  "verifyTOTPCode cfg p sec i s = (w, s') \<Longrightarrow> sessions (db s') = sessions (db s)"
  "dropFactor u d s = (y, s') \<Longrightarrow> sessions (db s') = sessions (db s)"
  "Recovery_Consume u h s = (z, s') \<Longrightarrow> sessions (db s') = sessions (db s)"
  by (erule dbInv_field_same [OF sessions_any(1)], erule dbInv_field_same [OF sessions_any(2)],
      erule dbInv_field_same [OF sessions_any(3)], erule dbInv_field_same [OF sessions_any(4)])

lemma factor_Inl:
  "verifySecondFactor a r u i s = (Inl e, s') \<Longrightarrow> set (sessions (db s')) \<subseteq> set (sessions (db s))"
  "recoverFactor a r u i s = (Inl e, s') \<Longrightarrow> set (sessions (db s')) \<subseteq> set (sessions (db s))"
  by (auto simp: verifySecondFactor_def recoverFactor_def failure_simps success_simps branch_run secondFactorFailed_def
      emit_def dest!: sessions_same issueSession_Inl)

lemma redeemChallenge_Inl:
  assumes "redeemChallenge a r (Inr req) s = (Inl e, s')"
  shows "code_of e \<notin> {CodeInvalidTOTPCode, CodeInvalidRecoveryCode}"
proof -
  have o: "checkOrigin (au_edge a) r = Inl x \<Longrightarrow> code_of x = CodeOriginNotAllowed" for x
    by (auto simp: checkOrigin_def split: if_splits option.splits)
  have l: "allow a k t = (Inl x, t') \<Longrightarrow> code_of x \<in> {CodeInternal, CodeRateLimited}" for k t x t'
    by (auto simp: allow_def branch_run failure_simps success_simps response_Inl split: limiter.splits)
  have c: "consumeToken cfg kd p t = (Inl x, t') \<Longrightarrow> code_of x \<in> {CodeInternal, CodeInvalidToken}" for cfg kd p t x t'
    by (auto simp: consumeToken_def optional_def branch_run failure_simps success_simps response_Inl)
  have g: "Users_GetByID i t = (Inl x, t') \<Longrightarrow> code_of (publicError x) \<in> {CodeInternal, CodeNotFound}" for i t x t'
    by (auto simp: Users_GetByID_def selectOne_def stmt_def publicError_def split: if_splits option.splits)
  show ?thesis
    using assms
    by (auto simp: redeemChallenge_def Let_def challengeUser_def clearMFACookie_def decoded_def
        failure_simps success_simps branch_run response_Inl originChecked_Inl dest!: o l c g)
qed

text \<open>A wrong code costs the whole challenge: after a refused code or recovery code no session exists
  that was not there before, and the presented challenge is spent, so a stolen password gives one guess
  per sign-in and not a window of guesses.\<close>

theorem wrong_code_burns_challenge:
  assumes "handleTOTPVerify a r (Inr req) s = (Inl (api CodeInvalidTOTPCode), s') \<or>
      handleTOTPRecovery a r (Inr req) s = (Inl (api CodeInvalidRecoveryCode), s')"
    and "soundLimiter (au_cfg a)" and "wfTables (db s)"
  shows "set (sessions (db s')) \<subseteq> set (sessions (db s)) \<and>
     \<not> tokenUsable (MFATokenKind, cf_hash (au_cfg a) (requestMFAToken (au_edge a) r (vr_MFAToken req))) (db s')"
proof -
  obtain u i s1 e where rd: "redeemChallenge a r (Inr req) s = (Inr (u, i), s1)"
    and k: "verifySecondFactor a r u i s1 = (Inl e, s') \<or> recoverFactor a r u i s1 = (Inl e, s')"
    using assms(1) redeemChallenge_Inl
    by (fastforce simp: handleTOTPVerify_def handleTOTPRecovery_def failure_simps prod_run)
  note rd' = redeemChallenge_Inr [OF rd assms(2,3)]
  have "set (sessions (db s')) \<subseteq> set (sessions (db s1))" using k factor_Inl by blast
  moreover have "\<not> tokenUsable (MFATokenKind, cf_hash (au_cfg a) (requestMFAToken (au_edge a) r (vr_MFAToken req))) (db s1)"
    using rd' by auto
  ultimately show ?thesis using rd' tokenUsable_spent_stays k by auto
qed

section \<open>Recovery and enrolment\<close>

lemma TOTP_Delete_run:
  "TOTP_Delete u s = (q, s') \<Longrightarrow> faults s = [] \<Longrightarrow>
     totps (db s') = deleteWhere (\<lambda>p. tp_UserID p = u) (totps (db s)) \<and> recovery (db s') = recovery (db s) \<and> faults s' = []"
  by (auto simp: TOTP_Delete_def deleteRows_def stmt_def andThen_def requireAffected_def ensure_def split: if_splits)

lemma dropFactor_nofault:
  assumes "dropFactor u d s = (Inr x, s')" and "faults s = []"
  shows "(\<forall>p \<in> set (totps (db s')). tp_UserID p \<noteq> u) \<and> (\<forall>c \<in> set (recovery (db s')). rc_UserID c \<noteq> u)"
proof -
  obtain q s1 where 1: "TOTP_Delete u s = (q, s1)" and
    2: "s' = (snd (Recovery_DeleteByUser u s1))\<lparr>audit := audit (snd (Recovery_DeleteByUser u s1)) @ [Emitted ''auth.totp_disabled'' u d]\<rparr>"
    using assms(1)
    by (auto simp: dropFactor_def success_simps branch_run emit_def ignoring_def)
  note d = TOTP_Delete_run [OF 1 assms(2)]
  then show ?thesis using 2 by (auto simp: Recovery_DeleteByUser_def deleteRows_def stmt_def)
qed

lemma issue_keeps:
  assumes "issueSession a r u m s = (x, s')"
  shows "totps (db s') = totps (db s)" "recovery (db s') = recovery (db s)"
proof -
  show "totps (db s') = totps (db s)"
    by (rule dbInv_field_same [where f = totps, OF free_issueSession assms]) (simp add: sessionFree_def)
  show "recovery (db s') = recovery (db s)"
    by (rule dbInv_field_same [where f = recovery, OF free_issueSession assms]) (simp add: sessionFree_def)
qed

text \<open>A recovery code is spent and takes the factor with it: the sign-in needs a stored code of this
  very user, and afterwards the user has neither the enrolment nor any other recovery code, so a leaked
  list is worthless, when the database answers.\<close>

theorem recovery_removes_factor:
  assumes "handleTOTPRecovery a r body s = (Inr (user, sess), s')" and "soundLimiter (au_cfg a)"
    and "wfTables (db s)" and "faults s = []"
  shows "(\<exists>req. body = Inr req \<and> \<lparr>rc_UserID = u_ID user,
       rc_CodeHash = cf_hash (au_cfg a) (NormalizeRecoveryCode (vr_Code req))\<rparr> \<in> set (recovery (db s))) \<and>
     (\<forall>p \<in> set (totps (db s')). tp_UserID p \<noteq> u_ID user) \<and>
     (\<forall>c \<in> set (recovery (db s')). rc_UserID c \<noteq> u_ID user) \<and>
     sess \<in> set (sessions (db s')) \<and> se_UserID sess = u_ID user"
proof -
  obtain u input s1 where rd: "redeemChallenge a r body s = (Inr (u, input), s1)"
    and rc: "recoverFactor a r u input s1 = (Inr (user, sess), s')"
    using assms(1) by (auto simp: handleTOTPRecovery_def success_simps prod_run)
  obtain req where k: "body = Inr req" "input = vr_Code req" "recovery (db s1) = recovery (db s)" "faults s1 = []"
    using redeemChallenge_Inr [OF rd assms(2,3)] assms(4) by blast
  let ?h = "cf_hash (au_cfg a) (NormalizeRecoveryCode input)"
  obtain s2 s3 where cs: "Recovery_Consume (u_ID u) ?h s1 = (Inr True, s2)"
    and dr: "dropFactor (u_ID u) [(''reason'', ''recovery_code'')] s2 = (Inr (), s3)"
    and iss: "issueSession a (Some r) u ''totp-recovery'' s3 = (Inr sess, s')" and u: "user = u"
    using rc by (auto simp: recoverFactor_def success_simps branch_run)
  have "recoveryUsable (u_ID u, ?h) (db s1)"
  proof -
    have "claimRecovery (u_ID u, ?h) 0 s1 = (Inr True, s2)" using cs by (simp add: claimRecovery_def)
    moreover have "wfTables (db s1)" by (rule dbInvD [OF redeem_wf [OF assms(2)] rd assms(3)])
    ultimately show ?thesis using rec.claim_needs [of s1 "(u_ID u, ?h)" 0 True s2] by (simp add: isTrue_def)
  qed
  then have mem: "\<lparr>rc_UserID = u_ID u, rc_CodeHash = ?h\<rparr> \<in> set (recovery (db s))"
    using k(3) by (simp add: recoveryUsable_def)
  have nf: "faults s2 = []"
    using cs k(4) by (auto simp: Recovery_Consume_def success_simps sql_success)
  show ?thesis
    using mem k(1,2) u dropFactor_nofault [OF dr nf] issue_keeps [OF iss] issueSession_Inr [OF iss] by auto
qed

text \<open>A confirmed factor is never replaced by an enrolment: whatever the endpoint answers and wherever
  the database fails, every confirmed enrolment of every user is as it was.\<close>

theorem enrolment_keeps_confirmed:
  assumes "handleTOTPEnrol a r s = (res, s')" and "soundLimiter (au_cfg a)" and "wfTables (db s)"
    and "claimant a (bearerToken r) = None" and "p \<in> set (totps (db s))" and "tp_ConfirmedAt p \<noteq> None"
  shows "p \<in> set (totps (db s'))"
proof -
  let ?Q = "\<lambda>t. unique tp_UserID (totps t) \<and> p \<in> set (totps t)"
  have start: "dbInv ?Q (startEnrolment a user)" if ne: "tp_UserID p \<noteq> u_ID user" for user
    unfolding startEnrolment_def NewSecret_def TOTP_Upsert_def
    by (intro db_intros dbInv_updateRows dbInv_insertRow) (use ne in \<open>auto simp: set_updateWhere\<close>)
  have guard: "dbInv ?Q (guardEnrolment a user)" for user
    unfolding dbInv_def keeps_def
  proof (intro allI impI)
    fix t :: sys assume q: "?Q (db t)"
    obtain x u where get: "TOTP_Get (u_ID user) t = (x, u)" by fastforce
    have db: "db u = db t" by (rule dbInv_same [OF read_any(6) get])
    show "?Q (db (snd (guardEnrolment a user t)))"
    proof (cases "tp_UserID p = u_ID user")
      case True
      then have "find (\<lambda>y. tp_UserID y = u_ID user) (totps (db t)) = Some p"
        using q by (intro find_unique) (auto dest: distinct_map_unique)
      then have "x = Inr p \<or> x = Inl ErrDriver"
        using get by (auto simp: TOTP_Get_def selectOne_def stmt_def split: if_splits)
      then show ?thesis
        using get db q assms(6) by (auto simp: guardEnrolment_def caught_def fail_def)
    next
      case False
      have "?Q (db (snd (startEnrolment a user u)))"
        using start [OF False] q db unfolding dbInv_def keeps_def by simp
      then show ?thesis
        using get db q by (auto simp: guardEnrolment_def caught_def fail_def split: sum.split)
    qed
  qed
  have "dbInv ?Q (handleTOTPEnrol a r)"
    unfolding handleTOTPEnrol_def
    by (intro db_intros guard dbInv_isolated [OF isolated_allow [OF assms(2)]] assms(4))
      (simp_all add: sessionFree_def)
  from dbInvD [OF this assms(1)] show ?thesis using assms(5) wf_totps [OF assms(3)] by simp
qed

section \<open>Concrete runs\<close>

definition w_factor :: tables where
  "w_factor = w_core\<lparr>
     tokens := [\<lparr>tk_ID = ''t9'', tk_UserID = Some ''u2'', tk_Kind = ''mfa'', tk_Identifier = ''u2'',
       tk_TokenHash = ''#chal'', tk_CreatedAt = 50, tk_ExpiresAt = 500, tk_ConsumedAt = None\<rparr>],
     totps := [\<lparr>tp_UserID = ''u2'', tp_Secret = ''AEBAG'', tp_ConfirmedAt = Some 60, tp_LastStep = 0,
       tp_CreatedAt = 50, tp_UpdatedAt = 60\<rparr>],
     recovery := [\<lparr>rc_UserID = ''u2'', rc_CodeHash = ''#abcde''\<rparr>, \<lparr>rc_UserID = ''u2'', rc_CodeHash = ''#fghjk''\<rparr>]\<rparr>"

lemma wf_w_factor: "wfTables w_factor"
  by (simp add: wf_eval w_factor_def w_core_def w_eval bob_def w_session_def)

lemma sound_w_auth: "soundLimiter (au_cfg w_auth)"
  by (rule sound_storelimit) (simp add: w_auth_def w_cfg_def)

definition w_verify :: "string \<Rightarrow> totpVerifyRequest" where
  "w_verify c = \<lparr>vr_Code = c, vr_MFAToken = ''chal''\<rparr>"

theorem second_factor_required_witness:
  "\<exists>k \<in> set (tokens w_factor). tk_Kind k = MFATokenKind \<and> tk_UserID k = Some ''u2'' \<and>
     \<not> tokenUsable (MFATokenKind, tk_TokenHash k)
        (db (snd (handleTOTPVerify w_auth (w_request ''https://app.io'' []) (Inr (w_verify ''000000'')) (world w_factor))))"
proof -
  let ?r = "w_request ''https://app.io'' []"
  let ?b = "Inr (w_verify ''000000'')"
  have "map_sum (\<lambda>e. ()) (\<lambda>(u, se). u) (fst (handleTOTPVerify w_auth ?r ?b (world w_factor))) = Inr bob" by code_simp
  then obtain se s' where run: "handleTOTPVerify w_auth ?r ?b (world w_factor) = (Inr (bob, se), s')"
    by (rule run_InrE) auto
  show ?thesis
    using second_factor_required [OF run sound_w_auth] run by (auto simp: wf_w_factor bob_def)
qed

theorem wrong_code_burns_challenge_witness:
  "\<not> tokenUsable (MFATokenKind, ''#chal'')
     (db (snd (handleTOTPVerify w_auth (w_request ''https://app.io'' []) (Inr (w_verify ''111111'')) (world w_factor))))"
proof -
  let ?r = "w_request ''https://app.io'' []"
  have "fst (handleTOTPVerify w_auth ?r (Inr (w_verify ''111111'')) (world w_factor)) = Inl (api CodeInvalidTOTPCode)"
    by code_simp
  then obtain s' where run: "handleTOTPVerify w_auth ?r (Inr (w_verify ''111111'')) (world w_factor) =
      (Inl (api CodeInvalidTOTPCode), s')" by (metis prod.collapse)
  have "cf_hash (au_cfg w_auth) (requestMFAToken (au_edge w_auth) ?r (vr_MFAToken (w_verify ''111111''))) = ''#chal''"
    by code_simp
  then show ?thesis
    using wrong_code_burns_challenge [OF disjI1 [OF run] sound_w_auth] run by (simp add: wf_w_factor)
qed

theorem recovery_removes_factor_witness:
  "recovery (db (snd (handleTOTPRecovery w_auth (w_request ''https://app.io'' []) (Inr (w_verify ''ABC-de'')) (world w_factor)))) = []"
proof -
  let ?r = "w_request ''https://app.io'' []"
  let ?b = "Inr (w_verify ''ABC-de'')"
  have "map_sum (\<lambda>e. ()) (\<lambda>(u, se). u) (fst (handleTOTPRecovery w_auth ?r ?b (world w_factor))) = Inr bob"
    "list_all (\<lambda>c. rc_UserID c = u_ID bob) (recovery (db (snd (handleTOTPRecovery w_auth ?r ?b (world w_factor)))))"
    by code_simp+
  note ev = this
  obtain se s' where run: "handleTOTPRecovery w_auth ?r ?b (world w_factor) = (Inr (bob, se), s')"
    using ev(1) by (rule run_InrE) auto
  have all: "\<forall>c \<in> set (recovery (db s')). rc_UserID c = u_ID bob"
    using ev(2) unfolding run list_all_iff by simp
  have "\<forall>c \<in> set (recovery (db s')). rc_UserID c \<noteq> u_ID bob"
    using recovery_removes_factor [OF run sound_w_auth] by (simp add: wf_w_factor)
  then have "recovery (db s') = []" using all by (cases "recovery (db s')") auto
  then show ?thesis using run by simp
qed

theorem enrolment_keeps_confirmed_witness:
  "totps w_factor ! 0 \<in> set (totps (db (snd (handleTOTPEnrol w_auth (w_request ''https://app.io'' []) (world w_factor)))))"
proof -
  obtain res s' where run: "handleTOTPEnrol w_auth (w_request ''https://app.io'' []) (world w_factor) = (res, s')" by fastforce
  have "totps w_factor ! 0 \<in> set (totps (db s'))"
    by (rule enrolment_keeps_confirmed [OF run sound_w_auth])
      (simp_all add: wf_w_factor, simp_all add: claimant_def w_auth_def w_factor_def)
  then show ?thesis using run by simp
qed

end
