(* ===== verification/Account_Handlers.thy ===== *)
theory Account_Handlers
  imports Second_Factor
begin

text \<open>
  The email and password routes: \<open>handlers.go\<close> (session, sign-up, sign-in, sign-out),
  \<open>handlers_tokens.go\<close> (password reset and verification of an address) and \<open>handlers_account.go\<close>
  (password change, change of the address, deletion of the account).
\<close>

definition tokenKindResetPassword :: string where "tokenKindResetPassword = ''reset-password''"
definition tokenKindChangeEmail :: string where "tokenKindChangeEmail = ''email-change''"
definition tokenKindDeleteAccount :: string where "tokenKindDeleteAccount = ''delete-account''"

definition routeKey :: "auth \<Rightarrow> httpRequest \<Rightarrow> string \<Rightarrow> string \<Rightarrow> string \<Rightarrow> Key" where
  "routeKey a r op address uid = keyOf op (clientIP (au_edge a) r) address uid"

section \<open>Sessions\<close>

definition resolveSession :: "auth \<Rightarrow> httpRequest \<Rightarrow> (sys, (Session \<times> User) option) oper" where
  "resolveSession a r =
     (let token = requestToken (au_edge a) r in
      if token = [] then ret None
      else andThen (lookupSession (au_cfg a) (cf_hash (au_cfg a) token))
             (\<lambda>l. ret (map_option (\<lambda>(s, u, _). (s, u)) l)))"

definition handleGetSession :: "auth \<Rightarrow> httpRequest \<Rightarrow> (sys, (Session \<times> User) option) oper" where
  "handleGetSession a r =
     andThen (resolveSession a r) (\<lambda>current.
     andThen (if current = None \<and> requestToken (au_edge a) r \<noteq> [] then clearCookie a else ret ()) (\<lambda>_.
     ret current))"

definition handleSignOut :: "auth \<Rightarrow> httpRequest \<Rightarrow> (sys, unit) oper" where
  "handleSignOut a r =
     andThen (originChecked a r) (\<lambda>_.
     andThen (resolveSession a r) (\<lambda>current.
     andThen (SignOut (map_option fst current)) (\<lambda>_. clearCookie a)))"

section \<open>Mails with a link\<close>

definition messageOf :: "string \<Rightarrow> User \<Rightarrow> string \<Rightarrow> string \<Rightarrow> string \<Rightarrow> time \<Rightarrow> Message" where
  "messageOf intent user to token url expires =
     \<lparr>ml_Intent = intent, ml_To = to, ml_UserID = u_ID user, ml_Token = token, ml_URL = url,
      ml_ExpiresAt = Some expires, ml_Data = []\<rparr>"

text \<open>\<open>sendVerificationEmail\<close> and \<open>sendDeleteConfirmation\<close>.\<close>

definition sendVerificationEmail :: "auth \<Rightarrow> User \<Rightarrow> string \<Rightarrow> (sys, unit) oper" where
  "sendVerificationEmail a user redirectTo =
     (case cf_sender (au_cfg a) of
        None \<Rightarrow> fail (api CodeInternal)
      | Some sender \<Rightarrow>
          andThen (issueToken (au_cfg a) \<lparr>it_Kind = tokenKindVerifyEmail, it_UserID = Some (u_ID user),
                     it_Identifier = u_EmailNormalized user, it_ReplaceExisting = True,
                     it_TTL = cf_verifyTTL (au_cfg a)\<rparr>) (\<lambda>(token, tok).
          mapFail (with_cause CodeInternal) (send sender
            (messageOf ''verify-email'' user (u_Email user) token
               (actionURL (au_cfg a) (cf_verifyURL (au_cfg a)) ''/verify-email'' token redirectTo) (tk_ExpiresAt tok)))))"

definition sendDeleteConfirmation :: "auth \<Rightarrow> User \<Rightarrow> (sys, unit) oper" where
  "sendDeleteConfirmation a user =
     (case cf_sender (au_cfg a) of
        None \<Rightarrow> fail (api CodeInternal)
      | Some sender \<Rightarrow>
          andThen (issueToken (au_cfg a) \<lparr>it_Kind = tokenKindDeleteAccount, it_UserID = Some (u_ID user),
                     it_Identifier = u_EmailNormalized user, it_ReplaceExisting = True,
                     it_TTL = cf_resetTTL (au_cfg a)\<rparr>) (\<lambda>(token, tok).
          mapFail (with_cause CodeInternal) (send sender
            (messageOf ''delete-account'' user (u_Email user) token
               (actionURL (au_cfg a) (cf_deleteURL (au_cfg a)) ''/delete-account'' token []) (tk_ExpiresAt tok)))))"

section \<open>Sign-up and sign-in\<close>

record signUpEmailRequest =
  su_Email :: string
  su_Password :: string
  su_Name :: string

text \<open>The response: the user, and the session unless the address has to be verified first.\<close>

definition finishSignUp :: "auth \<Rightarrow> httpRequest \<Rightarrow> User \<Rightarrow> (sys, User \<times> Session option) oper" where
  "finishSignUp a r user =
     andThen (if cf_requireVerification (au_cfg a) \<or> cf_sendOnSignUp (au_cfg a)
              then sendVerificationEmail a user [] else ret ()) (\<lambda>_.
     if cf_requireVerification (au_cfg a) then ret (user, None)
     else andThen (issueSession a (Some r) user ''email'') (\<lambda>sess. ret (user, Some sess)))"

definition handleSignUpEmail :: "auth \<Rightarrow> httpRequest \<Rightarrow> signUpEmailRequest res \<Rightarrow> (sys, User \<times> Session option) oper" where
  "handleSignUpEmail a r body =
     andThen (originChecked a r) (\<lambda>_.
     andThen (decoded body) (\<lambda>req.
     let normalized = Normalize (su_Email req) in
     andThen (allow a (routeKey a r OpSignUp normalized [])) (\<lambda>_.
     if \<not> Valid (cf_parseAddress (au_cfg a)) normalized then fail (api CodeInvalidRequest)
     else
       andThen (checkPassword (au_cfg a) (su_Password req)) (\<lambda>_.
       case cf_hashPassword (au_cfg a) (su_Password req) of
         Inl e \<Rightarrow> fail (with_cause CodeInternal e)
       | Inr hash \<Rightarrow>
           andThen (createUser (au_cfg a) \<lparr>ci_Email = TrimSpace (su_Email req), ci_Password = [],
                      ci_DisplayName = TrimSpace (su_Name req), ci_ImageURL = [], ci_EmailVerified = False\<rparr> hash)
             (\<lambda>user. finishSignUp a r user)))))"

record signInEmailRequest =
  sn_Email :: string
  sn_Password :: string

datatype signInResponse = SignedIn User Session | SecondFactor string

definition handleSignInEmail :: "auth \<Rightarrow> httpRequest \<Rightarrow> signInEmailRequest res \<Rightarrow> (sys, signInResponse) oper" where
  "handleSignInEmail a r body =
     andThen (originChecked a r) (\<lambda>_.
     andThen (decoded body) (\<lambda>req.
     andThen (writeRateLimited (SignIn (au_cfg a) \<lparr>si_Email = sn_Email req, si_Password = sn_Password req,
                si_ClientIP = clientIP (au_edge a) r,
                si_PreviousSessionToken = requestToken (au_edge a) r\<rparr>)) (\<lambda>out.
     case sr_Session out of
       Some sess \<Rightarrow>
         if sr_MFARequired out then ret (SecondFactor (sr_MFAToken out))
         else andThen (setCookie (eg_cookieName (au_edge a)) (sr_Token out)) (\<lambda>_. ret (SignedIn (sr_User out) sess))
     | None \<Rightarrow> ret (SecondFactor (sr_MFAToken out)))))"

section \<open>Password reset and verification\<close>

record emailOnlyRequest =
  eo_Email :: string
  eo_RedirectTo :: string

text \<open>The part after the acknowledgement is decided. Its failure is logged, and every early return is a
  failure of the model.\<close>

definition sendReset :: "auth \<Rightarrow> emailOnlyRequest \<Rightarrow> (sys, unit) oper" where
  "sendReset a req =
     (let normalized = Normalize (eo_Email req) in
      if \<not> Valid (cf_parseAddress (au_cfg a)) normalized then fail (api CodeInvalidRequest)
      else
        andThen (Users_GetByNormalizedEmail normalized) (\<lambda>user.
        case cf_sender (au_cfg a) of
          None \<Rightarrow> fail (api CodeInternal)
        | Some sender \<Rightarrow>
            andThen (issueToken (au_cfg a) \<lparr>it_Kind = tokenKindResetPassword, it_UserID = Some (u_ID user),
                       it_Identifier = u_EmailNormalized user, it_ReplaceExisting = True,
                       it_TTL = cf_resetTTL (au_cfg a)\<rparr>) (\<lambda>(token, tok).
            andThen (send sender (messageOf ''reset-password'' user (u_Email user) token
                (actionURL (au_cfg a) (cf_resetURL (au_cfg a)) ''/reset-password'' token
                   (safeRedirect (au_edge a) (eo_RedirectTo req) [])) (tk_ExpiresAt tok))) (\<lambda>_.
            emit ''auth.password_reset_requested'' (u_ID user) []))))"

definition handlePasswordForgot :: "auth \<Rightarrow> httpRequest \<Rightarrow> emailOnlyRequest res \<Rightarrow> (sys, unit) oper" where
  "handlePasswordForgot a r body =
     andThen (originChecked a r) (\<lambda>_.
     andThen (decoded body) (\<lambda>req.
     andThen (allow a (routeKey a r OpPasswordForgot (Normalize (eo_Email req)) [])) (\<lambda>_.
     ignoring (sendReset a req))))"

record passwordResetRequest =
  pw_Token :: string
  pw_Password :: string

text \<open>The part of \<open>handlePasswordReset\<close> behind the token.\<close>

definition resetWith :: "auth \<Rightarrow> string \<Rightarrow> Token \<Rightarrow> (sys, unit) oper" where
  "resetWith a password tok =
     (case tk_UserID tok of
       None \<Rightarrow> fail (api CodeInvalidToken)
     | Some uid \<Rightarrow>
         andThen (mapFail publicError (Users_GetByID uid)) (\<lambda>user.
         case cf_hashPassword (au_cfg a) password of
           Inl e \<Rightarrow> fail (with_cause CodeInternal e)
         | Inr hash \<Rightarrow>
             andThen now (\<lambda>at.
             andThen (mapFail publicError (transaction (Users_SetCredential \<lparr>cr_UserID = u_ID user,
                        cr_PasswordHash = hash, cr_CreatedAt = at, cr_UpdatedAt = at\<rparr>))) (\<lambda>_.
             andThen (ignoring (Sessions_DeleteByUser (u_ID user))) (\<lambda>_.
             andThen (runAfter ''PasswordChange'' (u_ID user)) (\<lambda>_.
             andThen (emit ''auth.password_changed'' (u_ID user) []) (\<lambda>_.
             clearCookie a)))))))"

definition handlePasswordReset :: "auth \<Rightarrow> httpRequest \<Rightarrow> passwordResetRequest res \<Rightarrow> (sys, unit) oper" where
  "handlePasswordReset a r body =
     andThen (originChecked a r) (\<lambda>_.
     andThen (decoded body) (\<lambda>req.
     andThen (checkPassword (au_cfg a) (pw_Password req)) (\<lambda>_.
     andThen (consumeToken (au_cfg a) tokenKindResetPassword (pw_Token req)) (\<lambda>tok.
     resetWith a (pw_Password req) tok))))"

definition sendVerification :: "auth \<Rightarrow> emailOnlyRequest \<Rightarrow> (sys, unit) oper" where
  "sendVerification a req =
     (let normalized = Normalize (eo_Email req) in
      if \<not> Valid (cf_parseAddress (au_cfg a)) normalized then fail (api CodeInvalidRequest)
      else
        andThen (Users_GetByNormalizedEmail normalized) (\<lambda>user.
        if u_EmailVerifiedAt user \<noteq> None then ret ()
        else sendVerificationEmail a user (safeRedirect (au_edge a) (eo_RedirectTo req) [])))"

definition handleVerificationSend :: "auth \<Rightarrow> httpRequest \<Rightarrow> emailOnlyRequest res \<Rightarrow> (sys, unit) oper" where
  "handleVerificationSend a r body =
     andThen (originChecked a r) (\<lambda>_.
     andThen (decoded body) (\<lambda>req.
     andThen (allow a (routeKey a r OpEmailVerify (Normalize (eo_Email req)) [])) (\<lambda>_.
     ignoring (sendVerification a req))))"

definition handleVerificationVerify :: "auth \<Rightarrow> httpRequest \<Rightarrow> string res \<Rightarrow> (sys, unit) oper" where
  "handleVerificationVerify a r body =
     andThen (originChecked a r) (\<lambda>_.
     andThen (decoded body) (\<lambda>token.
     andThen (resolveSession a r) (\<lambda>current.
     andThen (VerifyEmailToken (au_cfg a) token) (\<lambda>user.
     case current of
       Some (sess, currentUser) \<Rightarrow>
         if u_ID currentUser = u_ID user
         then andThen (issueSession a None user ''email-verification'') (\<lambda>_. ret ()) else ret ()
     | None \<Rightarrow> ret ()))))"

section \<open>The account of the signed-in user\<close>

record passwordChangeRequest =
  pc_CurrentPassword :: string
  pc_NewPassword :: string
  pc_RevokeOtherSessions :: "bool option"

definition handlePasswordChange :: "auth \<Rightarrow> httpRequest \<Rightarrow> passwordChangeRequest res \<Rightarrow> (sys, unit) oper" where
  "handlePasswordChange a r body =
     andThen (originChecked a r) (\<lambda>_.
     andThen (requireSessionOpen a r) (\<lambda>(sess, user).
     andThen (decoded body) (\<lambda>req.
     writeRateLimited (ChangePassword (au_cfg a) \<lparr>cp_UserID = u_ID user,
       cp_CurrentPassword = pc_CurrentPassword req, cp_NewPassword = pc_NewPassword req,
       cp_KeepSessionID = se_ID sess, cp_KeepOtherSessions = (pc_RevokeOtherSessions req = Some False),
       cp_ClientIP = clientIP (au_edge a) r\<rparr>))))"

text \<open>The check of the current password for a user that has one; \<open>None\<close> means that the user has no
  password.\<close>

definition proveCurrent :: "auth \<Rightarrow> User \<Rightarrow> string \<Rightarrow> string \<Rightarrow> (sys, Credential option) oper" where
  "proveCurrent a user password reason =
     andThen (optional (Users_GetCredential (u_ID user))) (\<lambda>cred.
     case cred of
       None \<Rightarrow> ret None
     | Some c \<Rightarrow>
         (case cf_verifyPassword (au_cfg a) password (cr_PasswordHash c) of
            Inl e \<Rightarrow> fail (with_cause CodeInternal e)
          | Inr (ok, _) \<Rightarrow>
              if \<not> ok then andThen (emit ''auth.sign_in_failed'' (u_ID user) [(''reason'', reason)])
                             (\<lambda>_. fail (api CodeInvalidCredentials))
              else ret (Some c)))"

definition deleteUser :: "User \<Rightarrow> (sys, unit) oper" where
  "deleteUser user =
     andThen (emit ''auth.user_deleted'' (u_ID user) [(''email'', u_Email user)]) (\<lambda>_.
     mapFail publicError (Users_Delete (u_ID user)))"

text \<open>The response is true when the account is gone and false when a confirmation is needed.\<close>

definition handleUserDelete :: "auth \<Rightarrow> httpRequest \<Rightarrow> string res \<Rightarrow> (sys, bool) oper" where
  "handleUserDelete a r body =
     andThen (originChecked a r) (\<lambda>_.
     andThen (requireSession a r) (\<lambda>(sess, user).
     andThen (decoded body) (\<lambda>password.
     andThen (allow a (routeKey a r OpUserDelete [] (u_ID user))) (\<lambda>_.
     andThen (proveCurrent a user password ''user_delete_denied'') (\<lambda>cred.
     case cred of
       None \<Rightarrow> andThen (sendDeleteConfirmation a user) (\<lambda>_. ret False)
     | Some c \<Rightarrow>
         andThen (deleteUser user) (\<lambda>_.
         andThen (clearCookie a) (\<lambda>_. ret True)))))))"

text \<open>The user that a consumed token names.\<close>

definition tokenUser :: "auth \<Rightarrow> string \<Rightarrow> string \<Rightarrow> (sys, User \<times> Token) oper" where
  "tokenUser a kind token =
     andThen (consumeToken (au_cfg a) kind token) (\<lambda>tok.
     case tk_UserID tok of
       None \<Rightarrow> fail (api CodeInvalidToken)
     | Some uid \<Rightarrow> andThen (mapFail publicError (Users_GetByID uid)) (\<lambda>user. ret (user, tok)))"

definition handleUserDeleteVerify :: "auth \<Rightarrow> httpRequest \<Rightarrow> string res \<Rightarrow> (sys, unit) oper" where
  "handleUserDeleteVerify a r body =
     andThen (originChecked a r) (\<lambda>_.
     andThen (decoded body) (\<lambda>token.
     andThen (tokenUser a tokenKindDeleteAccount token) (\<lambda>(user, tok).
     andThen (deleteUser user) (\<lambda>_. clearCookie a))))"

record emailChangeRequest =
  ec_NewEmail :: string
  ec_CurrentPassword :: string

definition changeData :: "User \<Rightarrow> string \<Rightarrow> (string \<times> string) list" where
  "changeData user normalized = [(''oldEmail'', u_Email user), (''newEmail'', normalized)]"

text \<open>The part behind the acknowledgement: the new address gets the token, and the old one a notice
  without one. A taken address gets nothing.\<close>

definition sendEmailChange :: "auth \<Rightarrow> User \<Rightarrow> string \<Rightarrow> (sys, unit) oper" where
  "sendEmailChange a user normalized =
     (case cf_sender (au_cfg a) of
        None \<Rightarrow> fail (api CodeInternal)
      | Some sender \<Rightarrow>
          caught (Users_GetByNormalizedEmail normalized) (\<lambda>taken.
          if (case taken of Inr _ \<Rightarrow> True | Inl e \<Rightarrow> \<not> isNotFound e) then fail (api CodeInternal)
          else
            andThen (issueToken (au_cfg a) \<lparr>it_Kind = tokenKindChangeEmail, it_UserID = Some (u_ID user),
                       it_Identifier = normalized, it_ReplaceExisting = True,
                       it_TTL = cf_verifyTTL (au_cfg a)\<rparr>) (\<lambda>(token, tok).
            andThen (send sender ((messageOf ''email-change'' user normalized token
                (actionURL (au_cfg a) (cf_changeURL (au_cfg a)) ''/change-email'' token []) (tk_ExpiresAt tok))
                \<lparr>ml_Data := changeData user normalized\<rparr>)) (\<lambda>_.
            andThen (ignoring (send sender \<lparr>ml_Intent = ''email-change-notice'', ml_To = u_Email user,
                ml_UserID = u_ID user, ml_Token = [], ml_URL = [], ml_ExpiresAt = None,
                ml_Data = changeData user normalized\<rparr>)) (\<lambda>_.
            emit ''auth.email_change_requested'' (u_ID user) [])))))"

definition handleEmailChange :: "auth \<Rightarrow> httpRequest \<Rightarrow> emailChangeRequest res \<Rightarrow> (sys, unit) oper" where
  "handleEmailChange a r body =
     andThen (originChecked a r) (\<lambda>_.
     andThen (requireSession a r) (\<lambda>(sess, user).
     andThen (decoded body) (\<lambda>req.
     andThen (allow a (routeKey a r OpEmailChange [] (u_ID user))) (\<lambda>_.
     let normalized = Normalize (ec_NewEmail req) in
     if \<not> Valid (cf_parseAddress (au_cfg a)) normalized then fail (api CodeInvalidRequest)
     else
       andThen (proveCurrent a user (ec_CurrentPassword req) ''email_change_denied'') (\<lambda>_.
       ignoring (sendEmailChange a user normalized))))))"

definition storeNewEmail :: "User \<Rightarrow> string \<Rightarrow> time \<Rightarrow> (sys, User) oper" where
  "storeNewEmail user address at =
     (let updated = user\<lparr>u_Email := address, u_EmailNormalized := address, u_EmailVerifiedAt := Some at,
                         u_UpdatedAt := at\<rparr>
      in caught (Users_Update updated) (\<lambda>res. case res of
           Inl e \<Rightarrow> if isConflict e then fail (api CodeEmailAlreadyExists) else fail (publicError e)
         | Inr _ \<Rightarrow> ret updated))"

text \<open>The session that survives the change: the one of the request, if it belongs to the user.\<close>

definition keptSession :: "auth \<Rightarrow> httpRequest \<Rightarrow> User \<Rightarrow> (sys, string) oper" where
  "keptSession a r user =
     caught (resolveSession a r) (\<lambda>res. case res of
         Inr (Some (sess, _)) \<Rightarrow> ret (if se_UserID sess = u_ID user then se_ID sess else [])
       | _ \<Rightarrow> ret [])"

definition handleEmailChangeVerify :: "auth \<Rightarrow> httpRequest \<Rightarrow> string res \<Rightarrow> (sys, unit) oper" where
  "handleEmailChangeVerify a r body =
     andThen (originChecked a r) (\<lambda>_.
     andThen (decoded body) (\<lambda>token.
     andThen (tokenUser a tokenKindChangeEmail token) (\<lambda>(user, tok).
     andThen now (\<lambda>at.
     andThen (storeNewEmail user (tk_Identifier tok) at) (\<lambda>updated.
     andThen (keptSession a r updated) (\<lambda>keep.
     andThen (revokeOtherSessions (u_ID updated) keep) (\<lambda>_.
     emit ''auth.email_changed'' (u_ID updated) [])))))))"

section \<open>The token of a link\<close>

lemma tokenUser_Inr:
  assumes "tokenUser a kd p s = (Inr (user, tok), s')" and "wfTables (db s)"
  shows "\<exists>k \<in> set (tokens (db s)). tk_Kind k = kd \<and> tk_TokenHash k = cf_hash (au_cfg a) p \<and> tk_ConsumedAt k = None \<and>
      clock s < tk_ExpiresAt k \<and> tk_UserID k = Some (u_ID user) \<and> tk_Identifier tok = tk_Identifier k \<and>
      user \<in> set (users (db s)) \<and> \<not> tokenUsable (kd, cf_hash (au_cfg a) p) (db s') \<and>
      db s' = (db s)\<lparr>tokens := tokens (db s')\<rparr> \<and> clock s' = clock s \<and> (faults s = [] \<longrightarrow> faults s' = [])"
proof -
  obtain uid s1 where cs: "consumeToken (au_cfg a) kd p s = (Inr tok, s1)" and uid: "tk_UserID tok = Some uid"
    and us: "Users_GetByID uid s1 = (Inr user, s')"
    using assms(1) by (auto simp: tokenUser_def success_simps split: option.splits)
  have u: "user \<in> set (users (db s1))" "u_ID user = uid" "db s' = db s1" "clock s' = clock s1"
    "faults s1 = [] \<longrightarrow> faults s' = []"
    using us by (auto simp: Users_GetByID_def sql_success tick_def dest!: find_SomeD)
  have nf: "faults s = [] \<longrightarrow> faults s1 = []" using envKeptD(3) [OF env_consumeToken cs] by blast
  obtain k where k: "k \<in> set (tokens (db s))" "tk_Kind k = kd" "tk_TokenHash k = cf_hash (au_cfg a) p"
    "tk_ConsumedAt k = None" "clock s < tk_ExpiresAt k" "tok = k\<lparr>tk_ConsumedAt := Some (clock s)\<rparr>"
    "\<not> tokenUsable (kd, cf_hash (au_cfg a) p) (db s1)" "db s1 = (db s)\<lparr>tokens := tokens (db s1)\<rparr>" "clock s1 = clock s"
    using consumeToken_Inr [OF cs assms(2)] by metis
  have "users (db s1) = users (db s)"
    using k(8) by (metis tables.select_convs(1) tables.surjective tables.update_convs(5))
  then show ?thesis using k u uid nf by (intro bexI [OF _ k(1)]) auto
qed

text \<open>The reset is \<open>tokenUser\<close> with the rest of the handler behind it.\<close>

lemma SetCredential_Inr:
  assumes "Users_SetCredential c s = (Inr x, s')"
  shows "db s' = (db s)\<lparr>credentials := credentials (db s')\<rparr> \<and>
    (\<forall>r \<in> set (credentials (db s')). cr_UserID r = cr_UserID c \<longrightarrow> cr_PasswordHash r = cr_PasswordHash c) \<and>
    cr_UserID c \<in> cr_UserID ` set (credentials (db s')) \<and>
    {r \<in> set (credentials (db s')). cr_UserID r \<noteq> cr_UserID c} = {r \<in> set (credentials (db s)). cr_UserID r \<noteq> cr_UserID c}"
  using assms
  by (auto simp: Users_SetCredential_def success_simps sql_success countWhere_pos image_updateWhere set_updateWhere
      split: if_splits intro: rev_image_eqI)

lemma DeleteByUser_nofault:
  "faults s = [] \<Longrightarrow> Sessions_DeleteByUser u s = (r, s') \<Longrightarrow>
     db s' = (db s)\<lparr>sessions := deleteWhere (\<lambda>x. se_UserID x = u) (sessions (db s))\<rparr> \<and> faults s' = []"
  by (auto simp: Sessions_DeleteByUser_def deleteRows_def stmt_def)



section \<open>Requests for a mail reveal nothing\<close>

lemma mailed_sendVerificationEmail:
  assumes "\<And>m. ml_To m = u_Email u \<Longrightarrow> ml_UserID m = u_ID u \<Longrightarrow> P m"
  shows "keeps (mailed P) (sendVerificationEmail a u to)"
  unfolding sendVerificationEmail_def messageOf_def
  by (intro keeps_intros assms) simp_all

text \<open>The work behind the acknowledgement, by route.\<close>

definition mailRoute :: "auth \<Rightarrow> string \<Rightarrow> emailOnlyRequest \<Rightarrow> (sys, unit) oper" where
  "mailRoute a op req = (if op = OpPasswordForgot then sendReset a req else sendVerification a req)"

lemma mailRoute_owner:
  assumes "\<And>u m. u \<in> set (users (db s)) \<Longrightarrow> u_EmailNormalized u = Normalize (eo_Email req) \<Longrightarrow>
      ml_To m = u_Email u \<Longrightarrow> ml_UserID m = u_ID u \<Longrightarrow> P m"
    and "mailed P s"
  shows "mailed P (snd (mailRoute a op req s))"
proof (cases "Valid (cf_parseAddress (au_cfg a)) (Normalize (eo_Email req))")
  case True
  obtain g s1 where g: "Users_GetByNormalizedEmail (Normalize (eo_Email req)) s = (g, s1)" by fastforce
  have m1: "mailed P s1" using keepsD' [OF mailed_store(1) assms(2) g] .
  show ?thesis
  proof (cases g)
    case (Inl e)
    then show ?thesis
      using g True m1 by (simp add: mailRoute_def sendReset_def sendVerification_def Let_def andThen_def)
  next
    case (Inr u)
    have u: "u \<in> set (users (db s))" "u_EmailNormalized u = Normalize (eo_Email req)"
      using g Inr by (auto simp: Users_GetByNormalizedEmail_def sql_success dest!: find_SomeD)
    note good = assms(1) [OF u]
    show ?thesis
    proof (cases "op = OpPasswordForgot")
      case op: True
      have "keeps (mailed P) (case cf_sender (au_cfg a) of
          None \<Rightarrow> fail (api CodeInternal)
        | Some sender \<Rightarrow>
            andThen (issueToken (au_cfg a) \<lparr>it_Kind = tokenKindResetPassword, it_UserID = Some (u_ID u),
                       it_Identifier = u_EmailNormalized u, it_ReplaceExisting = True,
                       it_TTL = cf_resetTTL (au_cfg a)\<rparr>) (\<lambda>(token, tok).
            andThen (send sender (messageOf ''reset-password'' u (u_Email u) token
                (actionURL (au_cfg a) (cf_resetURL (au_cfg a)) ''/reset-password'' token
                   (safeRedirect (au_edge a) (eo_RedirectTo req) [])) (tk_ExpiresAt tok))) (\<lambda>_.
            emit ''auth.password_reset_requested'' (u_ID u) [])))"
        unfolding messageOf_def by (intro keeps_intros good) simp_all
      from keepsD [OF this m1] show ?thesis
        using g Inr True op by (simp add: mailRoute_def sendReset_def Let_def andThen_def [of "Users_GetByNormalizedEmail _"])
    next
      case False
      have "keeps (mailed P) (if u_EmailVerifiedAt u \<noteq> None then ret ()
        else sendVerificationEmail a u (safeRedirect (au_edge a) (eo_RedirectTo req) []))"
        by (intro keeps_intros mailed_sendVerificationEmail good)
      from keepsD [OF this m1] show ?thesis
        using g Inr True False by (simp add: mailRoute_def sendVerification_def Let_def andThen_def [of "Users_GetByNormalizedEmail _"])
    qed
  qed
next
  case False
  then show ?thesis using assms(2) by (simp add: mailRoute_def sendReset_def sendVerification_def Let_def fail_def)
qed

lemma mailRoute_handlers:
  assumes "h = handlePasswordForgot \<and> op = OpPasswordForgot \<or> h = handleVerificationSend \<and> op = OpEmailVerify"
  shows "h a r body = andThen (originChecked a r) (\<lambda>_. andThen (decoded body) (\<lambda>req.
     andThen (allow a (routeKey a r op (Normalize (eo_Email req)) [])) (\<lambda>_. ignoring (mailRoute a op req))))"
  using assms
  by (auto simp: handlePasswordForgot_def handleVerificationSend_def mailRoute_def OpPasswordForgot_def OpEmailVerify_def)



section \<open>The change of the address\<close>

lemma touched_subset [db_intros]:
  "dbInv (\<lambda>t. untouched ` set (sessions t) \<subseteq> S) (Sessions_Touch i at)"
  "dbInv (\<lambda>t. untouched ` set (sessions t) \<subseteq> S) (Sessions_Delete i)"
  unfolding Sessions_Touch_def Sessions_Delete_def
  by (intro db_intros dbInv_updateRows dbInv_deleteRows; auto simp: set_updateWhere untouched_def)+

lemma touched_lookup: "dbInv (\<lambda>t. untouched ` set (sessions t) \<subseteq> S) (lookupSession cfg h)"
  unfolding lookupSession_def admitSession_def readSessionAndUser_def by (intro db_intros)

lemma dbInv_keptSession:
  assumes "dbInv Q (lookupSession (au_cfg a) (cf_hash (au_cfg a) (requestToken (au_edge a) r)))"
  shows "dbInv Q (keptSession a r u)"
  unfolding keptSession_def resolveSession_def Let_def
  by (intro dbInv_caught dbInv_if dbInv_andThen dbInv_ret dbInv_sum dbInv_option dbInv_prod assms)

lemma keptSession_frames:
  "dbInv (\<lambda>t. untouched ` set (sessions t) \<subseteq> S) (keptSession a r u)"
  "sessionFree Q \<Longrightarrow> dbInv Q (keptSession a r u)" "dbInv wfTables (keptSession a r u)"
  by (rule dbInv_keptSession, rule touched_lookup free_lookup wf_lookupSession, assumption?)+

lemma env_lookup [env_intros]: "envKept (lookupSession cfg h)"
  unfolding lookupSession_def admitSession_def by (intro env_intros)

lemma env_keptSession [env_intros]: "envKept (keptSession a r u)"
  unfolding keptSession_def resolveSession_def Let_def by (intro env_intros)

lemma keptSession_Inr:
  assumes "keptSession a r u s = (Inr keep, s')" and "keep \<noteq> []"
  shows "\<exists>row \<in> set (sessions (db s)). se_ID row = keep \<and>
     se_TokenHash row = cf_hash (au_cfg a) (requestToken (au_edge a) r)"
proof -
  obtain se v t where rs: "resolveSession a r s = (Inr (Some (se, v)), t)" and id: "se_ID se = keep"
    using assms by (auto simp: keptSession_def branch_run success_simps split: if_splits)
  then obtain org m where "lookupSession (au_cfg a) (cf_hash (au_cfg a) (requestToken (au_edge a) r)) s = (Inr (Some (se, v, org, m)), t)"
    by (cases t) (auto simp: resolveSession_def Let_def success_simps branch_run map_option_case split: option.splits)
  from lookupSession_Inr [OF this] id show ?thesis by auto
qed

lemma storeNewEmail_Inr:
  assumes "storeNewEmail u address at s = (Inr v, s')"
  shows "v = u\<lparr>u_Email := address, u_EmailNormalized := address, u_EmailVerifiedAt := Some at, u_UpdatedAt := at\<rparr> \<and>
     Users_Update v s = (Inr (), s')"
  using assms by (auto simp: storeNewEmail_def Let_def success_simps branch_run)

lemma env_storeNewEmail: "envKept (storeNewEmail u address at)"
  unfolding storeNewEmail_def Let_def by (intro env_intros)


section \<open>The deletion of the account\<close>

text \<open>No row of the core and of the plugins refers to the user.\<close>

definition erased :: "string \<Rightarrow> tables \<Rightarrow> bool" where
  "erased uid t \<longleftrightarrow> uid \<notin> userIDs (users t) \<and>
     (\<forall>c \<in> set (credentials t). cr_UserID c \<noteq> uid) \<and> (\<forall>x \<in> set (accounts t). ac_UserID x \<noteq> uid) \<and>
     (\<forall>x \<in> set (sessions t). se_UserID x \<noteq> uid) \<and> (\<forall>k \<in> set (tokens t). tk_UserID k \<noteq> Some uid) \<and>
     (\<forall>p \<in> set (totps t). tp_UserID p \<noteq> uid) \<and> (\<forall>x \<in> set (recovery t). rc_UserID x \<noteq> uid) \<and>
     (\<forall>k \<in> set (api_keys t). ak_UserID k \<noteq> uid) \<and> (\<forall>m \<in> set (members t). mb_UserID m \<noteq> uid) \<and>
     (\<forall>g \<in> set (op_grants t). gr_UserID g \<noteq> Some uid) \<and> (\<forall>c \<in> set (op_consents t). cs_UserID c \<noteq> uid)"

lemma erased_gone: "wfTables t \<Longrightarrow> uid \<notin> userIDs (users t) \<Longrightarrow> erased uid t"
  unfolding erased_def wfTables_def okRows_def refOpt_def by (auto split: option.splits)

lemma proveCurrent_Inr:
  assumes "proveCurrent a u password reason s = (Inr x, s')"
  shows "db s' = db s \<and> (case x of
      None \<Rightarrow> \<forall>c \<in> set (credentials (db s)). cr_UserID c \<noteq> u_ID u
    | Some c \<Rightarrow> c \<in> set (credentials (db s)) \<and> cr_UserID c = u_ID u \<and>
        (\<exists>params. cf_verifyPassword (au_cfg a) password (cr_PasswordHash c) = Inr (True, params)))"
  using assms
  by (auto simp: proveCurrent_def success_simps optional_Inr branch_run Users_GetCredential_def sql_success
      selectOne_def stmt_def find_None_set split: if_splits option.splits dest!: find_SomeD)

lemma wf_requireSession: "claimant a (bearerToken r) = None \<Longrightarrow> dbInv wfTables (requireSessionState a r g)"
  unfolding requireSessionState_def resolvePrincipal_def readPrincipal_def sessionByToken_def Let_def
  by (simp only: option.case) (intro db_intros)

lemma wf_deleteUser [db_intros]: "dbInv wfTables (deleteUser u)"
  unfolding deleteUser_def by (intro db_intros)

lemma users_sendDelete [db_intros]: "dbInv (\<lambda>t. P (users t)) (sendDeleteConfirmation a u)"
  unfolding sendDeleteConfirmation_def issueToken_def Tokens_Create_def Tokens_DeleteByIdentifier_def Let_def
  by (intro db_intros dbInv_deleteRows dbInv_insertRow) simp_all



section \<open>Concrete runs\<close>

definition w_account :: tables where
  "w_account = w_core\<lparr>tokens :=
     [\<lparr>tk_ID = ''t1'', tk_UserID = Some ''u2'', tk_Kind = tokenKindResetPassword, tk_Identifier = ''bob@x.io'',
       tk_TokenHash = ''#rst'', tk_CreatedAt = 50, tk_ExpiresAt = 500, tk_ConsumedAt = None\<rparr>,
      \<lparr>tk_ID = ''t2'', tk_UserID = Some ''u2'', tk_Kind = tokenKindChangeEmail, tk_Identifier = ''bob@y.io'',
       tk_TokenHash = ''#chg'', tk_CreatedAt = 50, tk_ExpiresAt = 500, tk_ConsumedAt = None\<rparr>]\<rparr>"

lemma wf_w_account: "wfTables w_account"
  by (simp add: wf_eval w_account_def w_core_def w_eval bob_def w_session_def tokenKindResetPassword_def
      tokenKindChangeEmail_def)





end
