(* ===== verification/OAuth_Login.thy ===== *)
theory OAuth_Login
  imports Second_Factor
begin

text \<open>
  The sign-in with a provider and the linked accounts: \<open>handlers_oauth.go\<close>. A provider is the interface
  of \<open>oauth/oauth.go\<close>, a parameter: the URL it builds and the identity that it returns for a code.

  The query of a request is the function that \<open>url.Values.Get\<close> is, and the value of a handler is the
  target of the redirect.
\<close>

section \<open>Providers\<close>

record Identity =
  id_ProviderAccountID :: string
  id_Email :: string
  id_EmailVerified :: bool
  id_DisplayName :: string
  id_ImageURL :: string
  id_Username :: string

record AuthRequest =
  ar_State :: string
  ar_RedirectURI :: string
  ar_CodeChallenge :: string
  ar_Nonce :: string

record ExchangeRequest =
  ex_Code :: string
  ex_RedirectURI :: string
  ex_CodeVerifier :: string
  ex_Nonce :: string

record oauthProvider =
  pv_ID :: string
  pv_SupportsPKCE :: bool
  pv_Validate :: "err option"
  pv_AuthCodeURL :: "AuthRequest \<Rightarrow> string res"
  pv_Exchange :: "ExchangeRequest \<Rightarrow> Identity option res"

text \<open>\<open>oe_challenge\<close> stands for \<open>crypto.PKCEChallenge\<close> (SHA-256), and \<open>oe_skipCheck\<close> is the option that
  moves the check of a provider from the start of the program to its first use.\<close>

record oauthEnv =
  oe_providers :: "(string \<times> oauthProvider) list"
  oe_skipCheck :: bool
  oe_challenge :: "string \<Rightarrow> string"

definition ErrProviderRejected :: err where
  "ErrProviderRejected = ErrOther ''authall/oauth: the provider rejected the request''"

fun isRejected :: "err \<Rightarrow> bool" where
  "isRejected (Api c (Some e)) = isRejected e"
| "isRejected (ErrOther m) = (ErrOther m = ErrProviderRejected)"
| "isRejected _ = False"

definition checkProvider :: "auth \<Rightarrow> oauthProvider \<Rightarrow> err option" where
  "checkProvider a p =
     (if cf_baseURL (au_cfg a) = [] then Some (ErrOther ''authall: an OAuth provider requires a base URL'')
      else pv_Validate p)"

definition provider :: "auth \<Rightarrow> oauthEnv \<Rightarrow> string \<Rightarrow> (sys, oauthProvider) oper" where
  "provider a x i =
     (case map_of (oe_providers x) i of
        None \<Rightarrow> fail (api CodeProviderNotFound)
      | Some p \<Rightarrow>
          if oe_skipCheck x
          then (case checkProvider a p of Some e \<Rightarrow> fail (with_cause CodeInternal e) | None \<Rightarrow> ret p)
          else ret p)"

definition callbackURI :: "auth \<Rightarrow> string \<Rightarrow> string" where
  "callbackURI a providerID =
     cf_baseURL (au_cfg a) @ cf_basePath (au_cfg a) @ ''/oauth/'' @ providerID @ ''/callback''"

section \<open>The start of a flow\<close>

definition oauthStateCookieName :: "auth \<Rightarrow> string" where
  "oauthStateCookieName a = eg_cookieName (au_edge a) @ ''.oauth_state''"

definition setOAuthStateCookie :: "auth \<Rightarrow> string \<Rightarrow> (sys, unit) oper" where
  "setOAuthStateCookie a state = setCookie (oauthStateCookieName a) state"

definition clearOAuthStateCookie :: "auth \<Rightarrow> (sys, unit) oper" where
  "clearOAuthStateCookie a = setCookie (oauthStateCookieName a) []"

definition requestBindsState :: "auth \<Rightarrow> httpRequest \<Rightarrow> string \<Rightarrow> bool" where
  "requestBindsState a r state \<longleftrightarrow>
     cookieValue (oauthStateCookieName a) r \<noteq> [] \<and> cookieValue (oauthStateCookieName a) r = state"

text \<open>The verifier and its challenge, both empty for a provider without PKCE.\<close>

definition newVerifier :: "oauthEnv \<Rightarrow> oauthProvider \<Rightarrow> (sys, string \<times> string) oper" where
  "newVerifier x p =
     (if pv_SupportsPKCE p
      then andThen (mapFail (with_cause CodeInternal) NewToken) (\<lambda>v. ret (v, oe_challenge x v))
      else ret ([], []))"

definition startOAuth ::
  "auth \<Rightarrow> oauthEnv \<Rightarrow> oauthProvider \<Rightarrow> string \<Rightarrow> string option \<Rightarrow> (sys, string) oper" where
  "startOAuth a x p redirectTo linkUserID =
     andThen (mapFail (with_cause CodeInternal) NewToken) (\<lambda>state.
     andThen (mapFail (with_cause CodeInternal) NewToken) (\<lambda>nonce.
     andThen (newVerifier x p) (\<lambda>(verifier, challenge).
     andThen now (\<lambda>at.
     andThen newUUID (\<lambda>uuid.
     andThen (mapFail (with_cause CodeInternal) (OAuthStates_Create
       \<lparr>os_ID = uuid, os_StateHash = cf_hash (au_cfg a) state, os_Provider = pv_ID p, os_Verifier = verifier,
        os_Nonce = nonce, os_RedirectTo = redirectTo, os_LinkUserID = linkUserID, os_CreatedAt = at,
        os_ExpiresAt = at + cf_stateTTL (au_cfg a), os_ConsumedAt = None\<rparr>)) (\<lambda>_.
     case pv_AuthCodeURL p \<lparr>ar_State = state, ar_RedirectURI = callbackURI a (pv_ID p),
            ar_CodeChallenge = challenge, ar_Nonce = nonce\<rparr> of
       Inl e \<Rightarrow> fail (with_cause CodeInternal e)
     | Inr url \<Rightarrow> andThen (setOAuthStateCookie a state) (\<lambda>_. ret url)))))))"

definition handleOAuthStart :: "auth \<Rightarrow> oauthEnv \<Rightarrow> string \<Rightarrow> (string \<Rightarrow> string) \<Rightarrow> (sys, string) oper" where
  "handleOAuthStart a x providerID query =
     andThen (provider a x providerID) (\<lambda>p.
     startOAuth a x p (safeRedirect (au_edge a) (query ''redirect_to'') (cf_baseURL (au_cfg a))) None)"

section \<open>The linking policy\<close>

definition accountOf :: "string \<Rightarrow> string \<Rightarrow> string \<Rightarrow> string \<Rightarrow> time \<Rightarrow> Account" where
  "accountOf uuid uid providerID providerAccountID at =
     \<lparr>ac_ID = uuid, ac_UserID = uid, ac_Provider = providerID, ac_ProviderAccountID = providerAccountID,
      ac_CreatedAt = at, ac_UpdatedAt = at\<rparr>"

definition linkAccount :: "User \<Rightarrow> string \<Rightarrow> string \<Rightarrow> (sys, unit) oper" where
  "linkAccount user providerID providerAccountID =
     andThen now (\<lambda>at.
     andThen newUUID (\<lambda>uuid.
     andThen (mapFail (\<lambda>e. if isConflict e then api CodeAccountAlreadyLinked else with_cause CodeInternal e)
       (Accounts_Create (accountOf uuid (u_ID user) providerID providerAccountID at))) (\<lambda>_.
     andThen (runAfter ''AccountLink'' (u_ID user)) (\<lambda>_.
     emit ''auth.account_linked'' (u_ID user) [(''provider'', providerID)]))))"

definition oauthUser :: "Identity \<Rightarrow> string \<Rightarrow> string \<Rightarrow> time \<Rightarrow> User" where
  "oauthUser identity normalized uuid at =
     \<lparr>u_ID = uuid, u_Email = id_Email identity, u_EmailNormalized = normalized,
      u_EmailVerifiedAt = (if id_EmailVerified identity then Some at else None),
      u_DisplayName = id_DisplayName identity, u_ImageURL = id_ImageURL identity, u_CreatedAt = at,
      u_UpdatedAt = at, u_Role = [], u_DisabledAt = None, u_MustChangePassword = False\<rparr>"

definition createUserWithAccount :: "auth \<Rightarrow> Identity \<Rightarrow> string \<Rightarrow> string \<Rightarrow> (sys, User) oper" where
  "createUserWithAccount a identity providerID normalized =
     andThen now (\<lambda>at.
     andThen newUUID (\<lambda>uid.
     andThen newUUID (\<lambda>aid.
     let user = oauthUser identity normalized uid at in
     andThen (mapFail (\<lambda>e. if isConflict e then api CodeAccountAlreadyLinked else publicError e) (transaction
       (andThen (veto (cf_beforeUserCreate (au_cfg a) user)) (\<lambda>_.
        andThen (Users_Create user) (\<lambda>_.
        andThen (Accounts_Create (accountOf aid uid providerID (id_ProviderAccountID identity) at)) (\<lambda>_.
        veto (cf_afterUserInsert (au_cfg a) user))))))) (\<lambda>_.
     andThen (runAfter ''UserCreate'' uid) (\<lambda>_.
     andThen (runAfter ''AccountLink'' uid) (\<lambda>_.
     andThen (emit ''auth.sign_up'' uid [(''provider'', providerID)]) (\<lambda>_.
     andThen (emit ''auth.account_linked'' uid [(''provider'', providerID)]) (\<lambda>_.
     ret user))))))))"

text \<open>\<open>resolveOAuthUser\<close>: a known provider account, then the link of a signed-in user, then the address.\<close>

definition resolveByEmail :: "auth \<Rightarrow> string \<Rightarrow> Identity \<Rightarrow> (sys, User) oper" where
  "resolveByEmail a providerID identity =
     (let normalized = Normalize (id_Email identity) in
      if normalized = [] then fail (api CodeOAuthFailed)
      else andThen (optional (Users_GetByNormalizedEmail normalized)) (\<lambda>existing.
        case existing of
          Some user \<Rightarrow>
            if \<not> cf_autoLink (au_cfg a) \<or> \<not> id_EmailVerified identity \<or> u_EmailVerifiedAt user = None
            then fail (api CodeEmailAlreadyExists)
            else andThen (linkAccount user providerID (id_ProviderAccountID identity)) (\<lambda>_. ret user)
        | None \<Rightarrow> createUserWithAccount a identity providerID normalized))"

definition resolveOAuthUser :: "auth \<Rightarrow> string \<Rightarrow> Identity \<Rightarrow> OAuthState \<Rightarrow> (sys, User) oper" where
  "resolveOAuthUser a providerID identity state =
     andThen (optional (Accounts_GetByProviderAccount providerID (id_ProviderAccountID identity))) (\<lambda>existing.
     case existing of
       Some account \<Rightarrow>
         if os_LinkUserID state \<noteq> None \<and> os_LinkUserID state \<noteq> Some (ac_UserID account)
         then fail (api CodeAccountAlreadyLinked)
         else mapFail publicError (Users_GetByID (ac_UserID account))
     | None \<Rightarrow>
         (case os_LinkUserID state of
            Some uid \<Rightarrow>
              andThen (mapFail publicError (Users_GetByID uid)) (\<lambda>user.
              andThen (linkAccount user providerID (id_ProviderAccountID identity)) (\<lambda>_. ret user))
          | None \<Rightarrow> resolveByEmail a providerID identity))"

section \<open>The callback\<close>

text \<open>The redirect of a finished flow: to the target, or to the target with the marker of
  \<open>withMFAMarker\<close> in its query.\<close>

datatype redirect = Target string | Marked string

text \<open>\<open>redeemState\<close>: the state must be bound to the browser and is consumed whatever follows.\<close>

definition redeemState :: "auth \<Rightarrow> oauthProvider \<Rightarrow> httpRequest \<Rightarrow> string \<Rightarrow> (sys, OAuthState) oper" where
  "redeemState a p r state =
     andThen (clearOAuthStateCookie a) (\<lambda>_.
     if \<not> requestBindsState a r state then fail (api CodeOAuthStateInvalid)
     else
       andThen now (\<lambda>at.
       andThen (mapFail (\<lambda>e. if isNotFound e then api CodeOAuthStateInvalid else with_cause CodeInternal e)
         (OAuthStates_Consume (cf_hash (au_cfg a) state) at)) (\<lambda>rec.
       if os_Provider rec \<noteq> pv_ID p then fail (api CodeOAuthStateInvalid) else ret rec)))"

text \<open>A link completes only for the signed-in user that started it.\<close>

definition checkLinker :: "auth \<Rightarrow> httpRequest \<Rightarrow> OAuthState \<Rightarrow> (sys, unit) oper" where
  "checkLinker a r rec =
     (case os_LinkUserID rec of
        None \<Rightarrow> ret ()
      | Some uid \<Rightarrow>
          andThen (if requestToken (au_edge a) r = [] then ret None
                   else lookupSession (au_cfg a) (cf_hash (au_cfg a) (requestToken (au_edge a) r))) (\<lambda>l.
          case l of
            None \<Rightarrow> fail (api CodeUnauthorized)
          | Some (_, current, _) \<Rightarrow> ensure (u_ID current = uid) (api CodeUnauthorized)))"

definition exchanged :: "auth \<Rightarrow> oauthProvider \<Rightarrow> OAuthState \<Rightarrow> string \<Rightarrow> (sys, Identity) oper" where
  "exchanged a p rec authCode =
     (case pv_Exchange p \<lparr>ex_Code = authCode, ex_RedirectURI = callbackURI a (pv_ID p),
             ex_CodeVerifier = os_Verifier rec, ex_Nonce = os_Nonce rec\<rparr> of
        Inl e \<Rightarrow> if isRejected e then fail (with_cause CodeOAuthFailed e) else fail (with_cause CodeInternal e)
      | Inr None \<Rightarrow> fail (api CodeOAuthFailed)
      | Inr (Some identity) \<Rightarrow>
          if id_ProviderAccountID identity = [] then fail (api CodeOAuthFailed) else ret identity)"

text \<open>The end of the callback: the challenge of a second factor, or the session.\<close>

definition finishOAuth :: "auth \<Rightarrow> httpRequest \<Rightarrow> string \<Rightarrow> string \<Rightarrow> User \<Rightarrow> (sys, redirect) oper" where
  "finishOAuth a r providerID redirectTo user =
     andThen (mfaChallenge (au_cfg a) user) (\<lambda>challenge.
     let target = safeRedirect (au_edge a) redirectTo (cf_baseURL (au_cfg a)) in
     case challenge of
       Some c \<Rightarrow> andThen (setMFACookie a c) (\<lambda>_. ret (Marked target))
     | None \<Rightarrow>
         andThen (issueSession a (Some r) user providerID) (\<lambda>_.
         andThen (emit ''auth.oauth_completed'' (u_ID user) [(''provider'', providerID)]) (\<lambda>_.
         ret (Target target))))"

definition handleOAuthCallback ::
  "auth \<Rightarrow> oauthEnv \<Rightarrow> httpRequest \<Rightarrow> string \<Rightarrow> (string \<Rightarrow> string) \<Rightarrow> (sys, redirect) oper" where
  "handleOAuthCallback a x r providerID query =
     andThen (provider a x providerID) (\<lambda>p.
     if query ''error'' \<noteq> [] then fail (api CodeOAuthFailed)
     else if query ''state'' = [] \<or> query ''code'' = [] then fail (api CodeOAuthStateInvalid)
     else
       andThen (redeemState a p r (query ''state'')) (\<lambda>rec.
       andThen (checkLinker a r rec) (\<lambda>_.
       andThen (exchanged a p rec (query ''code'')) (\<lambda>identity.
       andThen (resolveOAuthUser a (pv_ID p) identity rec) (\<lambda>user.
       finishOAuth a r (pv_ID p) (os_RedirectTo rec) user)))))"

section \<open>The linked accounts\<close>

definition requireUser :: "auth \<Rightarrow> httpRequest \<Rightarrow> (sys, User) oper" where
  "requireUser a r =
     andThen (if requestToken (au_edge a) r = [] then ret None
              else lookupSession (au_cfg a) (cf_hash (au_cfg a) (requestToken (au_edge a) r))) (\<lambda>l.
     case l of None \<Rightarrow> fail (api CodeUnauthorized) | Some (_, user, _) \<Rightarrow> ret user)"

definition handleAccountProviders :: "auth \<Rightarrow> httpRequest \<Rightarrow> (sys, (string \<times> string \<times> time) list \<times> bool) oper" where
  "handleAccountProviders a r =
     andThen (requireUser a r) (\<lambda>user.
     andThen (mapFail (with_cause CodeInternal) (Accounts_ListByUser (u_ID user))) (\<lambda>list.
     caught (Users_GetCredential (u_ID user)) (\<lambda>c.
     ret (map (\<lambda>x. (ac_Provider x, ac_ProviderAccountID x, ac_CreatedAt x)) list, \<not> isl c))))"

definition handleAccountLink ::
  "auth \<Rightarrow> oauthEnv \<Rightarrow> httpRequest \<Rightarrow> string \<Rightarrow> (string \<Rightarrow> string) \<Rightarrow> (sys, string) oper" where
  "handleAccountLink a x r providerID query =
     andThen (originChecked a r) (\<lambda>_.
     andThen (requireUser a r) (\<lambda>user.
     andThen (provider a x providerID) (\<lambda>p.
     startOAuth a x p (safeRedirect (au_edge a) (query ''redirect_to'') (cf_baseURL (au_cfg a))) (Some (u_ID user)))))"

text \<open>The transaction of the unlink. The write of the user row is the lock.\<close>

definition unlinkAccount :: "string \<Rightarrow> string \<Rightarrow> (sys, unit) oper" where
  "unlinkAccount uid providerID =
     transaction
       (andThen (Users_GetByID uid) (\<lambda>locked.
        andThen now (\<lambda>at.
        andThen (Users_Update (locked\<lparr>u_UpdatedAt := at\<rparr>)) (\<lambda>_.
        andThen (Accounts_ListByUser uid) (\<lambda>list.
        if \<not> list_ex (\<lambda>x. ac_Provider x = providerID) list then fail (api CodeAccountNotLinked)
        else caught (Users_GetCredential uid) (\<lambda>c.
          if isl c \<and> length list - 1 = 0 then fail (api CodeLastAuthMethod)
          else Accounts_Delete uid providerID))))))"

definition handleAccountUnlink :: "auth \<Rightarrow> oauthEnv \<Rightarrow> httpRequest \<Rightarrow> string \<Rightarrow> (sys, unit) oper" where
  "handleAccountUnlink a x r providerID =
     andThen (originChecked a r) (\<lambda>_.
     andThen (requireUser a r) (\<lambda>user.
     andThen (provider a x providerID) (\<lambda>_.
     andThen (mapFail (\<lambda>e. if isNotFound e then api CodeAccountNotLinked else publicError e)
        (unlinkAccount (u_ID user) providerID)) (\<lambda>_.
     emit ''auth.account_unlinked'' (u_ID user) [(''provider'', providerID)]))))"

section \<open>The linking policy\<close>

lemma append_rows:
  "users_update (\<lambda>rows. rows @ [u]) t = t\<lparr>users := users t @ [u]\<rparr>"
  "accounts_update (\<lambda>rows. rows @ [c]) t = t\<lparr>accounts := accounts t @ [c]\<rparr>"
  by (cases t; simp)+

lemma linkAccount_Inr:
  assumes "linkAccount u pid aid s = (Inr x, s')"
  shows "\<exists>acc. ac_UserID acc = u_ID u \<and> ac_Provider acc = pid \<and> ac_ProviderAccountID acc = aid \<and>
     db s' = (db s)\<lparr>accounts := accounts (db s) @ [acc]\<rparr> \<and> uniqAccounts (accounts (db s) @ [acc])"
  using assms
  by (intro exI [of _ "accountOf (ids s (next_id s)) (u_ID u) pid aid (clock s)"])
    (auto simp: linkAccount_def success_simps web_success Accounts_Create_def sql_success accountOf_def append_rows)

lemma createUserWithAccount_Inr:
  assumes "createUserWithAccount a ident pid n s = (Inr u, s')"
  shows "\<exists>acc. ac_UserID acc = u_ID u \<and> ac_Provider acc = pid \<and> ac_ProviderAccountID acc = id_ProviderAccountID ident \<and>
     db s' = (db s)\<lparr>users := users (db s) @ [u], accounts := accounts (db s) @ [acc]\<rparr> \<and>
     uniqUsers (users (db s) @ [u]) \<and> u_EmailNormalized u = n \<and> u_Role u = [] \<and> u_DisabledAt u = None \<and>
     (u_EmailVerifiedAt u \<noteq> None \<longleftrightarrow> id_EmailVerified ident)"
proof -
  obtain t where u: "u = oauthUser ident n (ids s (next_id s)) (clock s)"
    and tx: "transaction
       (andThen (veto (cf_beforeUserCreate (au_cfg a) u)) (\<lambda>_.
        andThen (Users_Create u) (\<lambda>_.
        andThen (Accounts_Create (accountOf (ids s (next_id s + 1)) (u_ID u) pid (id_ProviderAccountID ident) (clock s))) (\<lambda>_.
        veto (cf_afterUserInsert (au_cfg a) u))))) (s\<lparr>next_id := next_id s + 2\<rparr>) = (Inr (), t)"
    and db: "db s' = db t"
    using assms by (auto simp: createUserWithAccount_def success_simps web_success Let_def oauthUser_def)
  show ?thesis
    using tx u db
    by (intro exI [of _ "accountOf (ids s (next_id s + 1)) (u_ID u) pid (id_ProviderAccountID ident) (clock s)"],
        elim transaction_InrE)
      (auto simp: success_simps sql_success Users_Create_def Accounts_Create_def accountOf_def oauthUser_def append_rows)
qed

lemma resolveByEmail_Inr:
  assumes "resolveByEmail a pid ident s = (Inr u, s')"
  shows "\<exists>acc. ac_UserID acc = u_ID u \<and> ac_Provider acc = pid \<and> ac_ProviderAccountID acc = id_ProviderAccountID ident \<and>
     u_EmailNormalized u = Normalize (id_Email ident) \<and>
     (u \<in> set (users (db s)) \<and> cf_autoLink (au_cfg a) \<and> id_EmailVerified ident \<and> u_EmailVerifiedAt u \<noteq> None \<and>
        db s' = (db s)\<lparr>accounts := accounts (db s) @ [acc]\<rparr> \<or>
      (\<forall>v \<in> set (users (db s)). u_EmailNormalized v \<noteq> Normalize (id_Email ident)) \<and>
        db s' = (db s)\<lparr>users := users (db s) @ [u], accounts := accounts (db s) @ [acc]\<rparr> \<and>
        u_Role u = [] \<and> (u_EmailVerifiedAt u \<noteq> None \<longleftrightarrow> id_EmailVerified ident))"
proof -
  let ?n = "Normalize (id_Email ident)"
  obtain v t where g: "optional (Users_GetByNormalizedEmail ?n) s = (Inr v, t)"
    and k: "(case v of
          Some user \<Rightarrow>
            if \<not> cf_autoLink (au_cfg a) \<or> \<not> id_EmailVerified ident \<or> u_EmailVerifiedAt user = None
            then fail (api CodeEmailAlreadyExists)
            else andThen (linkAccount user pid (id_ProviderAccountID ident)) (\<lambda>_. ret user)
        | None \<Rightarrow> createUserWithAccount a ident pid ?n) t = (Inr u, s')"
    using assms unfolding resolveByEmail_def Let_def if_run andThen_Inr by (auto simp only: fail_Inr)
  have db: "db t = db s" and f: "v = find (\<lambda>u. u_EmailNormalized u = ?n) (users (db s))"
    using g by (auto simp: optional_Inr Users_GetByNormalizedEmail_def selectOne_def stmt_def split: if_splits option.splits)
  show ?thesis
  proof (cases v)
    case None
    then have "\<forall>v \<in> set (users (db s)). u_EmailNormalized v \<noteq> ?n" using f by (simp add: find_None_set)
    moreover have "createUserWithAccount a ident pid ?n t = (Inr u, s')" using k None by simp
    from createUserWithAccount_Inr [OF this, unfolded db] obtain acc where "ac_UserID acc = u_ID u"
        "ac_Provider acc = pid" "ac_ProviderAccountID acc = id_ProviderAccountID ident" "u_EmailNormalized u = ?n"
        "db s' = (db s)\<lparr>users := users (db s) @ [u], accounts := accounts (db s) @ [acc]\<rparr>" "u_Role u = []"
        "(u_EmailVerifiedAt u \<noteq> None) = id_EmailVerified ident" by blast
    ultimately show ?thesis by (intro exI [of _ acc]) blast
  next
    case (Some w)
    then have w: "w \<in> set (users (db s))" "u_EmailNormalized w = ?n" using find_SomeD [of "\<lambda>u. u_EmailNormalized u = ?n" "users (db s)" w] f by simp_all
    have "w = u" "linkAccount u pid (id_ProviderAccountID ident) t = (Inr (), s')" "cf_autoLink (au_cfg a)"
        "id_EmailVerified ident" "u_EmailVerifiedAt u \<noteq> None"
      using k Some by (auto simp: success_simps split: if_splits)
    moreover from linkAccount_Inr [OF this(2), unfolded db] obtain acc where "ac_UserID acc = u_ID u"
        "ac_Provider acc = pid" "ac_ProviderAccountID acc = id_ProviderAccountID ident"
        "db s' = (db s)\<lparr>accounts := accounts (db s) @ [acc]\<rparr>" by blast
    ultimately show ?thesis using w by (intro exI [of _ acc]) blast
  qed
qed

text \<open>Whom the callback resolves to.\<close>

lemma resolve_cases:
  assumes "resolveOAuthUser a pid ident st s = (Inr u, s')"
  shows "(\<exists>acc \<in> set (accounts (db s)). ac_Provider acc = pid \<and> ac_ProviderAccountID acc = id_ProviderAccountID ident \<and>
        ac_UserID acc = u_ID u \<and> u \<in> set (users (db s)) \<and>
        os_LinkUserID st \<in> {None, Some (u_ID u)} \<and> db s' = db s) \<or>
     (\<forall>acc \<in> set (accounts (db s)). \<not> (ac_Provider acc = pid \<and> ac_ProviderAccountID acc = id_ProviderAccountID ident)) \<and>
     (\<exists>acc. ac_UserID acc = u_ID u \<and> ac_Provider acc = pid \<and> ac_ProviderAccountID acc = id_ProviderAccountID ident \<and>
        (u \<in> set (users (db s)) \<and> db s' = (db s)\<lparr>accounts := accounts (db s) @ [acc]\<rparr> \<and>
           (os_LinkUserID st = Some (u_ID u) \<or>
            os_LinkUserID st = None \<and> cf_autoLink (au_cfg a) \<and> id_EmailVerified ident \<and> u_EmailVerifiedAt u \<noteq> None \<and>
            u_EmailNormalized u = Normalize (id_Email ident)) \<or>
         os_LinkUserID st = None \<and> (\<forall>v \<in> set (users (db s)). u_EmailNormalized v \<noteq> Normalize (id_Email ident)) \<and>
           db s' = (db s)\<lparr>users := users (db s) @ [u], accounts := accounts (db s) @ [acc]\<rparr> \<and>
           u_EmailNormalized u = Normalize (id_Email ident) \<and> u_Role u = [] \<and>
           (u_EmailVerifiedAt u \<noteq> None \<longleftrightarrow> id_EmailVerified ident)))"
proof -
  let ?p = "\<lambda>x. ac_Provider x = pid \<and> ac_ProviderAccountID x = id_ProviderAccountID ident"
  obtain v t where g: "optional (Accounts_GetByProviderAccount pid (id_ProviderAccountID ident)) s = (Inr v, t)"
    and k: "(case v of
       Some account \<Rightarrow>
         if os_LinkUserID st \<noteq> None \<and> os_LinkUserID st \<noteq> Some (ac_UserID account)
         then fail (api CodeAccountAlreadyLinked)
         else mapFail publicError (Users_GetByID (ac_UserID account))
     | None \<Rightarrow>
         (case os_LinkUserID st of
            Some uid \<Rightarrow>
              andThen (mapFail publicError (Users_GetByID uid)) (\<lambda>user.
              andThen (linkAccount user pid (id_ProviderAccountID ident)) (\<lambda>_. ret user))
          | None \<Rightarrow> resolveByEmail a pid ident)) t = (Inr u, s')"
    using assms unfolding resolveOAuthUser_def andThen_Inr by blast
  have db: "db t = db s" and f: "v = find ?p (accounts (db s))"
    using g by (auto simp: optional_Inr Accounts_GetByProviderAccount_def selectOne_def stmt_def split: if_splits option.splits)
  have get: "Users_GetByID i t = (Inr w, t') \<Longrightarrow> w \<in> set (users (db s)) \<and> u_ID w = i \<and> db t' = db s" for i w t'
    using db by (auto simp: Users_GetByID_def sql_success dest!: find_SomeD)
  show ?thesis
  proof (cases v)
    case (Some acc)
    then have "acc \<in> set (accounts (db s)) \<and> ?p acc" using find_SomeD [of ?p "accounts (db s)" acc] f by simp
    moreover have "Users_GetByID (ac_UserID acc) t = (Inr u, s')" "os_LinkUserID st \<in> {None, Some (ac_UserID acc)}"
      using k Some by (auto simp: success_simps split: if_splits)
    ultimately show ?thesis using get by metis
  next
    case None
    then have none: "\<forall>acc \<in> set (accounts (db s)). \<not> ?p acc" using f by (simp add: find_None_set)
    show ?thesis
    proof (cases "os_LinkUserID st")
      case link: (Some uid)
      obtain t' where "Users_GetByID uid t = (Inr u, t')" "linkAccount u pid (id_ProviderAccountID ident) t' = (Inr (), s')"
        using k None link by (auto simp: success_simps)
      moreover from this have "u \<in> set (users (db s))" "u_ID u = uid" "db t' = db s" using get by blast+
      moreover from linkAccount_Inr [OF \<open>linkAccount u pid _ t' = _\<close>] obtain acc where "ac_UserID acc = u_ID u"
          "ac_Provider acc = pid" "ac_ProviderAccountID acc = id_ProviderAccountID ident"
          "db s' = (db t')\<lparr>accounts := accounts (db t') @ [acc]\<rparr>" by blast
      ultimately show ?thesis using none link by (intro disjI2 conjI exI [of _ acc] disjI1) auto
    next
      case no: None
      then have "resolveByEmail a pid ident t = (Inr u, s')" using k None by simp
      from resolveByEmail_Inr [OF this] show ?thesis using none no unfolding db by blast
    qed
  qed
qed


section \<open>The callback\<close>

lemma OAuth_Consume_Inr:
  assumes "OAuthStates_Consume h at s = (Inr rec, s')" and "wfTables (db s)"
  shows "\<exists>k \<in> set (oauth_states (db s)). os_StateHash k = h \<and> os_ConsumedAt k = None \<and> at < os_ExpiresAt k \<and>
     rec = k\<lparr>os_ConsumedAt := Some at\<rparr> \<and> \<not> stateUsable h (db s') \<and> db s' = (db s)\<lparr>oauth_states := oauth_states (db s')\<rparr>"
proof -
  obtain k where k: "find (\<lambda>k. os_StateHash k = h \<and> os_ConsumedAt k = None \<and> at < os_ExpiresAt k) (oauth_states (db s)) = Some k"
      "rec = k\<lparr>os_ConsumedAt := Some at\<rparr>" "db s' = (db s)\<lparr>oauth_states := oauth_states (db s')\<rparr>"
    using assms(1) by (auto simp: OAuthStates_Consume_def sql_success)
  have "\<not> stateUsable h (db s')"
    using st.claim_spends [OF assms(2,1)] by (simp add: anyResult_def)
  then show ?thesis using find_SomeD [OF k(1)] k(2,3) by blast
qed

lemma redeemState_Inr:
  assumes "redeemState a p r state s = (Inr rec, s')" and "wfTables (db s)"
  shows "state \<noteq> [] \<and> cookieValue (oauthStateCookieName a) r = state \<and>
     (\<exists>k \<in> set (oauth_states (db s)). os_StateHash k = cf_hash (au_cfg a) state \<and> os_ConsumedAt k = None \<and>
        clock s < os_ExpiresAt k \<and> os_Provider k = pv_ID p \<and> rec = k\<lparr>os_ConsumedAt := Some (clock s)\<rparr>) \<and>
     \<not> stateUsable (cf_hash (au_cfg a) state) (db s') \<and> db s' = (db s)\<lparr>oauth_states := oauth_states (db s')\<rparr> \<and>
     clock s' = clock s"
proof -
  let ?s1 = "s\<lparr>audit := audit s @ [CookieSet (oauthStateCookieName a) []]\<rparr>"
  have b: "requestBindsState a r state"
    and c: "OAuthStates_Consume (cf_hash (au_cfg a) state) (clock s) ?s1 = (Inr rec, s')"
    and p: "os_Provider rec = pv_ID p"
    using assms(1)
    by (auto simp: redeemState_def success_simps web_success clearOAuthStateCookie_def split: if_splits)
  have "clock s' = clock s" using c by (auto simp: OAuthStates_Consume_def sql_success)
  then show ?thesis
    using OAuth_Consume_Inr [OF c] assms(2) b p by (auto simp: requestBindsState_def)
qed

lemma checkLinker_Inr:
  assumes "checkLinker a r rec s = (Inr x, s')"
  shows "\<forall>uid. os_LinkUserID rec = Some uid \<longrightarrow>
     (\<exists>row \<in> set (sessions (db s)). se_TokenHash row = cf_hash (au_cfg a) (requestToken (au_edge a) r) \<and>
        se_UserID row = uid \<and> \<not> expired (au_cfg a) (clock s) row)"
  using assms
  by (auto simp: checkLinker_def success_simps branch_run split: if_splits dest!: lookupSession_Inr)

lemma checkLinker_frame [db_intros]: "sessionFree Q \<Longrightarrow> dbInv Q (checkLinker a r rec)" "dbInv wfTables (checkLinker a r rec)"
  unfolding checkLinker_def by (intro db_intros; assumption)+

lemma exchanged_Inr:
  "exchanged a p rec c s = (Inr ident, s') \<longleftrightarrow> s' = s \<and> id_ProviderAccountID ident \<noteq> [] \<and>
     pv_Exchange p \<lparr>ex_Code = c, ex_RedirectURI = callbackURI a (pv_ID p), ex_CodeVerifier = os_Verifier rec,
       ex_Nonce = os_Nonce rec\<rparr> = Inr (Some ident)"
  by (auto simp: exchanged_def success_simps branch_run split: sum.splits option.splits if_splits)

lemma finish_frames:
  "dbInv (\<lambda>t. P (oauth_states t)) (resolveOAuthUser a pid ident st)"
  "dbInv (\<lambda>t. P (oauth_states t)) (finishOAuth a r pid to u)" "dbInv (\<lambda>t. Q (accounts t)) (finishOAuth a r pid to u)"
  "dbInv (\<lambda>t. R (totps t)) (resolveOAuthUser a pid ident st)"
  unfolding resolveOAuthUser_def resolveByEmail_def createUserWithAccount_def linkAccount_def finishOAuth_def
    mfaChallenge_def totpConfirmed_def issueToken_def setMFACookie_def Let_def Accounts_GetByProviderAccount_def
    Accounts_Create_def Users_Create_def Tokens_Create_def Tokens_DeleteByIdentifier_def
  by (intro db_intros dbInv_deleteRows dbInv_insertRow; simp add: sessionFree_def)+


lemma env_checkLinker: "envKept (checkLinker a r rec)"
  unfolding checkLinker_def lookupSession_def admitSession_def by (intro env_intros)

lemma env_resolve: "envKept (resolveOAuthUser a pid ident st)"
  unfolding resolveOAuthUser_def resolveByEmail_def createUserWithAccount_def linkAccount_def Let_def
    Accounts_GetByProviderAccount_def Accounts_Create_def
  by (intro env_intros)

lemma resolve_owns:
  assumes "resolveOAuthUser a pid ident st s = (Inr u, s')"
  shows "\<exists>acc \<in> set (accounts (db s')). ac_Provider acc = pid \<and>
     ac_ProviderAccountID acc = id_ProviderAccountID ident \<and> ac_UserID acc = u_ID u"
  using resolve_cases [OF assms] by fastforce

lemma finishOAuth_Inr:
  assumes "finishOAuth a r pid to u s = (Inr target, s')" and "distinct (map tp_UserID (totps (db s)))"
  shows "case target of
      Target _ \<Rightarrow> \<not> (cf_totpEnabled (au_cfg a) \<and> confirmedFactor (u_ID u) (db s)) \<and>
        (\<exists>sess \<in> set (sessions (db s')). se_UserID sess = u_ID u \<and> se_CreatedAt sess = clock s)
    | Marked _ \<Rightarrow> cf_totpEnabled (au_cfg a) \<and> confirmedFactor (u_ID u) (db s)"
proof -
  obtain c t where m: "mfaChallenge (au_cfg a) u s = (Inr c, t)"
    and k: "(case c of
       Some c \<Rightarrow> andThen (setMFACookie a c) (\<lambda>_. ret (Marked (safeRedirect (au_edge a) to (cf_baseURL (au_cfg a)))))
     | None \<Rightarrow>
         andThen (issueSession a (Some r) u pid) (\<lambda>_.
         andThen (emit ''auth.oauth_completed'' (u_ID u) [(''provider'', pid)]) (\<lambda>_.
         ret (Target (safeRedirect (au_edge a) to (cf_baseURL (au_cfg a))))))) t = (Inr target, s')"
    using assms(1) unfolding finishOAuth_def Let_def andThen_Inr by blast
  note ch = mfaChallenge_Inr [OF m assms(2)]
  show ?thesis
  proof (cases c)
    case None
    then obtain sess t' where "issueSession a (Some r) u pid t = (Inr sess, t')" "db s' = db t'"
        "target = Target (safeRedirect (au_edge a) to (cf_baseURL (au_cfg a)))"
      using k by (auto simp: success_simps web_success)
    then show ?thesis using ch None issueSession_Inr by fastforce
  next
    case (Some z)
    then show ?thesis using k ch by (auto simp: success_simps web_success setMFACookie_def)
  qed
qed

text \<open>C6. A provider flow completes only in the browser that started it and only once: the callback succeeds
  only when the binding cookie carries the presented state, a pending and unexpired state of this provider
  is spent, and the provider vouches for an identity under the stored verifier and nonce. A link
  completes only under a live session of the user that started it. The result is a session, or a
  challenge exactly for users with a confirmed second factor, of the owner of the provider account.\<close>

theorem oauth_callback_sound:
  assumes "handleOAuthCallback a x r pid query s = (Inr target, s')" and "wfTables (db s)"
  shows "\<exists>p k ident (u :: User). map_of (oe_providers x) pid = Some p \<and> query ''state'' \<noteq> [] \<and>
     cookieValue (oauthStateCookieName a) r = query ''state'' \<and> k \<in> set (oauth_states (db s)) \<and>
     os_StateHash k = cf_hash (au_cfg a) (query ''state'') \<and> os_ConsumedAt k = None \<and> clock s < os_ExpiresAt k \<and>
     os_Provider k = pv_ID p \<and> \<not> stateUsable (os_StateHash k) (db s') \<and>
     pv_Exchange p \<lparr>ex_Code = query ''code'', ex_RedirectURI = callbackURI a (pv_ID p),
       ex_CodeVerifier = os_Verifier k, ex_Nonce = os_Nonce k\<rparr> = Inr (Some ident) \<and>
     (\<forall>uid. os_LinkUserID k = Some uid \<longrightarrow>
        (\<exists>row \<in> set (sessions (db s)). se_TokenHash row = cf_hash (au_cfg a) (requestToken (au_edge a) r) \<and>
           se_UserID row = uid \<and> \<not> expired (au_cfg a) (clock s) row)) \<and>
     (\<exists>acc \<in> set (accounts (db s')). ac_Provider acc = pv_ID p \<and>
        ac_ProviderAccountID acc = id_ProviderAccountID ident \<and> ac_UserID acc = u_ID u) \<and>
     (case target of
        Target _ \<Rightarrow> \<not> (cf_totpEnabled (au_cfg a) \<and> confirmedFactor (u_ID u) (db s)) \<and>
          (\<exists>sess \<in> set (sessions (db s')). se_UserID sess = u_ID u \<and> se_CreatedAt sess = clock s)
      | Marked _ \<Rightarrow> cf_totpEnabled (au_cfg a) \<and> confirmedFactor (u_ID u) (db s))"
proof -
  obtain p s0 rec s1 s2 ident u s4 where pv: "provider a x pid s = (Inr p, s0)"
    and rd: "redeemState a p r (query ''state'') s0 = (Inr rec, s1)"
    and ck: "checkLinker a r rec s1 = (Inr (), s2)" and ex: "exchanged a p rec (query ''code'') s2 = (Inr ident, s2)"
    and rs: "resolveOAuthUser a (pv_ID p) ident rec s2 = (Inr u, s4)"
    and fin: "finishOAuth a r (pv_ID p) (os_RedirectTo rec) u s4 = (Inr target, s')"
    using assms(1)
    by (auto simp: handleOAuthCallback_def success_simps if_run exchanged_Inr)
  have p: "map_of (oe_providers x) pid = Some p" "s0 = s"
    using pv by (auto simp: provider_def success_simps branch_run split: option.splits if_splits)
  obtain k where k: "query ''state'' \<noteq> []" "cookieValue (oauthStateCookieName a) r = query ''state''"
      "k \<in> set (oauth_states (db s))" "os_StateHash k = cf_hash (au_cfg a) (query ''state'')" "os_ConsumedAt k = None"
      "clock s < os_ExpiresAt k" "os_Provider k = pv_ID p" "rec = k\<lparr>os_ConsumedAt := Some (clock s)\<rparr>"
      "\<not> stateUsable (os_StateHash k) (db s1)" "db s1 = (db s)\<lparr>oauth_states := oauth_states (db s1)\<rparr>" "clock s1 = clock s"
    using redeemState_Inr [OF rd [unfolded p(2)] assms(2)] by metis
  have e1: "sessions (db s1) = sessions (db s)" "totps (db s1) = totps (db s)"
    using k(10) by (metis tables.select_convs tables.surjective tables.update_convs(6))+
  have e2: "oauth_states (db s2) = oauth_states (db s1)" "totps (db s2) = totps (db s1)"
    by (rule dbInv_field_same [OF checkLinker_frame(1) ck], simp add: sessionFree_def)+
  have "oauth_states (db s4) = oauth_states (db s2)" by (rule dbInv_field_same [OF finish_frames(1) rs])
  moreover have "oauth_states (db s') = oauth_states (db s4)" by (rule dbInv_field_same [OF finish_frames(2) fin])
  ultimately have spent: "\<not> stateUsable (os_StateHash k) (db s')" using k(9) e2(1) by (simp add: stateUsable_def)
  have "accounts (db s') = accounts (db s4)" by (rule dbInv_field_same [OF finish_frames(3) fin])
  moreover have "\<exists>acc \<in> set (accounts (db s4)). ac_Provider acc = pv_ID p \<and>
      ac_ProviderAccountID acc = id_ProviderAccountID ident \<and> ac_UserID acc = u_ID u" by (rule resolve_owns [OF rs])
  ultimately have owns: "\<exists>acc \<in> set (accounts (db s')). ac_Provider acc = pv_ID p \<and>
      ac_ProviderAccountID acc = id_ProviderAccountID ident \<and> ac_UserID acc = u_ID u" by simp
  have t4: "totps (db s4) = totps (db s)"
    using dbInv_field_same [OF finish_frames(4) rs] e1(2) e2(2) by simp
  have c4: "clock s4 = clock s"
    using envKeptD(1) [OF env_checkLinker ck] envKeptD(1) [OF env_resolve rs] k(11) by simp
  have "distinct (map tp_UserID (totps (db s4)))" using wf_totps [OF assms(2)] t4 by simp
  from finishOAuth_Inr [OF fin this] have out: "case target of
        Target _ \<Rightarrow> \<not> (cf_totpEnabled (au_cfg a) \<and> confirmedFactor (u_ID u) (db s)) \<and>
          (\<exists>sess \<in> set (sessions (db s')). se_UserID sess = u_ID u \<and> se_CreatedAt sess = clock s)
      | Marked _ \<Rightarrow> cf_totpEnabled (au_cfg a) \<and> confirmedFactor (u_ID u) (db s)"
    by (simp only: c4 confirmedFactor_totps [OF t4])
  have link: "\<forall>uid. os_LinkUserID k = Some uid \<longrightarrow>
        (\<exists>row \<in> set (sessions (db s)). se_TokenHash row = cf_hash (au_cfg a) (requestToken (au_edge a) r) \<and>
           se_UserID row = uid \<and> \<not> expired (au_cfg a) (clock s) row)"
    using checkLinker_Inr [OF ck] k(8,11) e1(1) by simp
  have exch: "pv_Exchange p \<lparr>ex_Code = query ''code'', ex_RedirectURI = callbackURI a (pv_ID p),
       ex_CodeVerifier = os_Verifier k, ex_Nonce = os_Nonce k\<rparr> = Inr (Some ident)"
    using ex k(8) by (simp add: exchanged_Inr)
  show ?thesis
    using p(1) k(1-7) spent exch link owns out by blast
qed

section \<open>The unlink\<close>

text \<open>C14. Nobody locks himself out: an unlink that succeeds removes exactly the account of the provider from
  the user of the request, and the user still has a password or another linked account. A refused or
  failed unlink removes nothing.\<close>

theorem unlink_keeps_a_method:
  assumes "unlinkAccount uid pid s = (res, s')" and "wfTables (db s)" and "\<not> in_tx s"
  shows "case res of
      Inl _ \<Rightarrow> db s' = db s
    | Inr _ \<Rightarrow> accounts (db s') = deleteWhere (\<lambda>x. ac_UserID x = uid \<and> ac_Provider x = pid) (accounts (db s)) \<and>
        (\<exists>x \<in> set (accounts (db s)). ac_UserID x = uid \<and> ac_Provider x = pid) \<and>
        ((\<exists>c \<in> set (credentials (db s')). cr_UserID c = uid) \<or> (\<exists>x \<in> set (accounts (db s')). ac_UserID x = uid))"
proof (cases res)
  case (Inl e)
  then show ?thesis using assms transaction_Inl_db unfolding unlinkAccount_def by fastforce
next
  case (Inr y)
  let ?mine = "filter (\<lambda>x. ac_UserID x = uid) (accounts (db s))"
  obtain s0 s5 where e0: "db s0 = db s" "db s' = db s5" and body:
    "andThen (Users_GetByID uid) (\<lambda>locked.
        andThen now (\<lambda>at.
        andThen (Users_Update (locked\<lparr>u_UpdatedAt := at\<rparr>)) (\<lambda>_.
        andThen (Accounts_ListByUser uid) (\<lambda>list.
        if \<not> list_ex (\<lambda>x. ac_Provider x = pid) list then fail (api CodeAccountNotLinked)
        else caught (Users_GetCredential uid) (\<lambda>c.
          if isl c \<and> length list - 1 = 0 then fail (api CodeLastAuthMethod)
          else Accounts_Delete uid pid))))) s0 = (Inr y, s5)"
    using assms(1) unfolding Inr unlinkAccount_def by (auto elim: transaction_InrE)
  obtain locked s1 s2 list t where g: "Users_GetByID uid s0 = (Inr locked, s1)"
    and up: "Users_Update (locked\<lparr>u_UpdatedAt := clock s1\<rparr>) s1 = (Inr (), s2)"
    and ls: "Accounts_ListByUser uid s2 = (Inr list, t)" and has': "list_ex (\<lambda>x. ac_Provider x = pid) list"
    and rest: "caught (Users_GetCredential uid) (\<lambda>c.
          if isl c \<and> length list - 1 = 0 then fail (api CodeLastAuthMethod)
          else Accounts_Delete uid pid) t = (Inr y, s5)"
    using body by (auto simp: andThen_Inr now_Inr if_run fail_Inr)
  have t: "accounts (db t) = accounts (db s)" "credentials (db t) = credentials (db s)"
    using g ls Update_user_Inr [OF up] e0(1) by (auto simp: Users_GetByID_def Accounts_ListByUser_def sql_success)
  have list: "list = orderBy ac_Provider ?mine"
    using g ls Update_user_Inr [OF up] e0(1) by (auto simp: Users_GetByID_def Accounts_ListByUser_def sql_success)
  have has: "\<exists>x \<in> set ?mine. ac_Provider x = pid" using has' by (auto simp: list list_ex_iff orderBy_def)
  obtain c b where c: "Users_GetCredential uid t = (c, b)" and guard: "\<not> (isl c \<and> length ?mine - 1 = 0)"
    and ad: "Accounts_Delete uid pid b = (Inr y, s5)"
    using rest by (auto simp: caught_run if_run fail_Inr list orderBy_def)
  have del: "accounts (db s') = deleteWhere (\<lambda>x. ac_UserID x = uid \<and> ac_Provider x = pid) (accounts (db b))"
      "credentials (db s') = credentials (db b)"
    using ad e0(2) by (auto simp: Accounts_Delete_def success_simps sql_success)
  have b: "accounts (db b) = accounts (db s)" "credentials (db b) = credentials (db s)"
    using dbInv_same [OF read_any(8) c] t by simp_all
  have "(\<exists>c \<in> set (credentials (db s')). cr_UserID c = uid) \<or> (\<exists>x \<in> set (accounts (db s')). ac_UserID x = uid)"
  proof (cases "isl c")
    case False
    then show ?thesis
      using c t b del(2) by (auto simp: Users_GetCredential_def selectOne_def stmt_def split: if_splits option.splits dest!: find_SomeD)
  next
    case True
    then have "2 \<le> length ?mine" using guard by linarith
    moreover have "distinct (map (\<lambda>x. (ac_UserID x, ac_Provider x)) (accounts (db s)))"
      using assms(2) by (simp add: wfTables_def okRows_def uniqAccounts_def)
    then have "distinct (map (\<lambda>x. (ac_UserID x, ac_Provider x)) ?mine)" by (rule distinct_map_filter)
    ultimately obtain v w rest where vw: "?mine = v # w # rest" "(ac_UserID v, ac_Provider v) \<noteq> (ac_UserID w, ac_Provider w)"
      by (cases ?mine; cases "tl ?mine") auto
    then have "v \<in> set ?mine" "w \<in> set ?mine" by simp_all
    then show ?thesis using vw(2) del(1) b(1) by auto
  qed
  then show ?thesis using Inr del b has by auto
qed


section \<open>Concrete runs\<close>

definition w_oauth :: tables where
  "w_oauth = w_core\<lparr>users := [ann, bob\<lparr>u_EmailVerifiedAt := Some 5\<rparr>], oauth_states :=
     [\<lparr>os_ID = ''s2'', os_StateHash = ''#st'', os_Provider = ''github'', os_Verifier = ''v'', os_Nonce = ''n'',
       os_RedirectTo = [], os_LinkUserID = None, os_CreatedAt = 50, os_ExpiresAt = 500, os_ConsumedAt = None\<rparr>],
     accounts := [accountOf ''a1'' ''u1'' ''github'' ''77'' 1, accountOf ''a2'' ''u2'' ''google'' ''g1'' 1]\<rparr>"

lemma wf_w_oauth: "wfTables w_oauth"
  by (simp add: wf_eval w_oauth_def w_core_def w_eval bob_def w_session_def accountOf_def)

definition w_identity :: Identity where
  "w_identity = \<lparr>id_ProviderAccountID = ''99'', id_Email = ''Bob@x.io'', id_EmailVerified = True, id_DisplayName = ''Bob'',
     id_ImageURL = [], id_Username = ''bob''\<rparr>"

definition w_env :: oauthEnv where
  "w_env = \<lparr>oe_providers = [(''github'', \<lparr>pv_ID = ''github'', pv_SupportsPKCE = True, pv_Validate = None,
       pv_AuthCodeURL = (\<lambda>q. Inr (''https://github/'' @ ar_State q)),
       pv_Exchange = (\<lambda>q. if ex_Code q = ''cd'' then Inr (Some w_identity) else Inl ErrProviderRejected)\<rparr>)],
     oe_skipCheck = True, oe_challenge = (\<lambda>v. ''h'' @ v)\<rparr>"

definition w_callback :: httpRequest where
  "w_callback = (w_request [] [])\<lparr>rq_Method := ''GET'', rq_Cookies := [(''sid.oauth_state'', ''st'')]\<rparr>"

definition w_query :: "string \<Rightarrow> string" where
  "w_query n = (if n = ''state'' then ''st'' else if n = ''code'' then ''cd'' else [])"


theorem oauth_callback_sound_witness:
  "\<not> stateUsable ''#st'' (db (snd (handleOAuthCallback w_auth w_env w_callback ''github'' w_query (world w_oauth))))"
proof -
  let ?t = "Target ''https://app.io''"
  have "map_sum (\<lambda>e. ()) (\<lambda>v. v) (fst (handleOAuthCallback w_auth w_env w_callback ''github'' w_query (world w_oauth))) = Inr ?t"
    by code_simp
  then obtain s' where run: "handleOAuthCallback w_auth w_env w_callback ''github'' w_query (world w_oauth) = (Inr ?t, s')"
    by (rule run_InrE) auto
  have "cf_hash (au_cfg w_auth) (w_query ''state'') = ''#st''" by code_simp
  then show ?thesis using oauth_callback_sound [OF run] run by (auto simp: wf_w_oauth)
qed

theorem unlink_keeps_a_method_witness:
  "\<exists>c \<in> set (credentials (db (snd (unlinkAccount ''u2'' ''google'' (world w_oauth))))). cr_UserID c = ''u2''"
proof -
  have "fst (unlinkAccount ''u2'' ''google'' (world w_oauth)) = Inr ()"
    "accounts (db (snd (unlinkAccount ''u2'' ''google'' (world w_oauth)))) = [accountOf ''a1'' ''u1'' ''github'' ''77'' 1]"
    by code_simp+
  moreover then obtain s' where run: "unlinkAccount ''u2'' ''google'' (world w_oauth) = (Inr (), s')"
    by (metis prod.collapse)
  ultimately show ?thesis using unlink_keeps_a_method [OF run] by (simp add: wf_w_oauth accountOf_def)
qed

end
