(* ===== verification/Roles.thy ===== *)
theory Roles
  imports Handler_Base
begin

text \<open>
  Roles and the guards of the application's own routes: the role service of \<open>roles_core.go\<close>, the plugin
  \<open>plugins/roles\<close> and the middleware of \<open>middleware.go\<close>. A guarded route is an operation that continues
  with the handler of the application.
\<close>

section \<open>The hierarchy\<close>

text \<open>\<open>ho_crossOrigin\<close> is set unless the origin check of the host routes is off. \<open>None\<close> is the hierarchy
  of an instance without the roles plugin.\<close>

record host =
  ho_auth :: auth
  ho_crossOrigin :: bool
  ho_hierarchy :: "string list option"

definition RoleNames :: "host \<Rightarrow> string list" where
  "RoleNames h = (case ho_hierarchy h of None \<Rightarrow> [] | Some names \<Rightarrow> names)"

primrec rankFrom :: "int \<Rightarrow> string \<Rightarrow> string list \<Rightarrow> int" where
  "rankFrom i role [] = -1"
| "rankFrom i role (name # names) = (if name = role then i else rankFrom (i + 1) role names)"

definition Rank :: "host \<Rightarrow> string \<Rightarrow> int" where
  "Rank h role = rankFrom 0 (if role = [] then au_defaultRole (ho_auth h) else role) (RoleNames h)"

definition RoleAtLeast :: "host \<Rightarrow> string \<Rightarrow> string \<Rightarrow> bool" where
  "RoleAtLeast h role minimum =
     (let minRank = Rank h minimum in if minRank < 0 then False else Rank h role \<ge> minRank)"

definition SetRoles :: "host \<Rightarrow> string list \<Rightarrow> string \<Rightarrow> host res" where
  "SetRoles h names defaultRole =
     (if names = [] then Inl (ErrOther ''authall: the role hierarchy is empty'')
      else if [] \<in> set names then Inl (ErrOther ''authall: a role name is empty'')
      else if \<not> distinct names then Inl (ErrOther ''authall: a role is listed twice'')
      else if defaultRole \<notin> set names then Inl (ErrOther ''authall: the default role is not in the hierarchy'')
      else if ho_hierarchy h \<noteq> None then Inl (ErrOther ''authall: a role hierarchy is already installed'')
      else Inr (h\<lparr>ho_hierarchy := Some names, ho_auth := (ho_auth h)\<lparr>au_defaultRole := defaultRole\<rparr>\<rparr>))"

text \<open>\<open>Register\<close> of the plugin: the default role is the lowest one.\<close>

definition rolesRegister :: "host \<Rightarrow> string list \<Rightarrow> string \<Rightarrow> host res" where
  "rolesRegister h names defaultRole =
     (if names = [] then Inl (ErrOther ''authall/roles: the hierarchy needs at least one role'')
      else SetRoles h names (if defaultRole = [] then hd names else defaultRole))"

section \<open>The guards of the host routes\<close>

definition isSafeMethod :: "string \<Rightarrow> bool" where
  "isSafeMethod m \<longleftrightarrow> m \<in> {''GET'', ''HEAD'', ''OPTIONS''}"

text \<open>\<open>http.CrossOriginProtection.Check\<close> of the standard library, with the trusted origins that \<open>New\<close>
  adds.\<close>

definition crossOriginCheck :: "edge \<Rightarrow> httpRequest \<Rightarrow> bool" where
  "crossOriginCheck eg r \<longleftrightarrow>
     isSafeMethod (rq_Method r) \<or>
     (let site = rq_Headers r ''Sec-Fetch-Site''; origin = rq_Headers r ''Origin'';
          exempt = (origin \<in> set (eg_trustedOrigins eg))
      in if site = ''same-origin'' \<or> site = ''none'' then True
         else if site \<noteq> [] then exempt
         else origin = [] \<or>
           (case eg_parseURL eg origin of None \<Rightarrow> False | Some u \<Rightarrow> pu_Host u = rq_Host r) \<or> exempt)"

definition checkHostOrigin :: "host \<Rightarrow> httpRequest \<Rightarrow> Principal \<Rightarrow> unit res" where
  "checkHostOrigin h r p =
     (let eg = au_edge (ho_auth h) in
      if \<not> ho_crossOrigin h \<or> \<not> pr_ViaCookie p then Inr ()
      else if \<not> crossOriginCheck eg r
      then Inl (with_cause CodeOriginNotAllowed (ErrOther ''cross-origin request detected''))
      else if eg_strictOrigin eg \<and> \<not> isSafeMethod (rq_Method r) \<and> TrimSpace (rq_Headers r ''Origin'') = [] \<and>
              \<not> strictOriginOK r
      then Inl (api CodeOriginNotAllowed)
      else Inr ())"

definition RequireAuth :: "host \<Rightarrow> httpRequest \<Rightarrow> (Principal \<Rightarrow> (sys, 'a) oper) \<Rightarrow> (sys, 'a) oper" where
  "RequireAuth h r next =
     andThen (resolvePrincipal (ho_auth h) r) (\<lambda>p. case p of
         None \<Rightarrow> fail (api CodeUnauthorized)
       | Some q \<Rightarrow>
           (case checkHostOrigin h r q of
              Inl e \<Rightarrow> fail e
            | Inr _ \<Rightarrow>
                if u_MustChangePassword (pr_User q) then fail (api CodePasswordChangeRequired) else next q))"

definition LoadSession :: "host \<Rightarrow> httpRequest \<Rightarrow> (Principal option \<Rightarrow> (sys, 'a) oper) \<Rightarrow> (sys, 'a) oper" where
  "LoadSession h r next =
     caught (resolvePrincipal (ho_auth h) r) (\<lambda>p. case p of
         Inl e \<Rightarrow> next None
       | Inr None \<Rightarrow> next None
       | Inr (Some q) \<Rightarrow>
           (case checkHostOrigin h r q of Inl e \<Rightarrow> fail e | Inr _ \<Rightarrow> next (Some q)))"

text \<open>\<open>Require\<close> of the plugin. \<open>None\<close> is the panic on a minimum that no role has. The handler gets the
  principal and the role of the context.\<close>

definition Require ::
  "host \<Rightarrow> string \<Rightarrow> httpRequest \<Rightarrow> (Principal \<Rightarrow> string \<Rightarrow> (sys, 'a) oper) \<Rightarrow> (sys, 'a) oper option" where
  "Require h minimum r next =
     (if minimum \<notin> set (RoleNames h) then None
      else Some (RequireAuth h r (\<lambda>p.
        if \<not> RoleAtLeast h (pr_Role p) minimum then fail (api CodeInsufficientRole)
        else next p (pr_Role p))))"

text \<open>\<open>roles.AtLeast\<close> in a handler: no role check ran without a role in the context.\<close>

definition contextAtLeast :: "(string \<times> host) option \<Rightarrow> string \<Rightarrow> bool" where
  "contextAtLeast value minimum = (case value of None \<Rightarrow> False | Some (role, h) \<Rightarrow> RoleAtLeast h role minimum)"

section \<open>The order of the roles\<close>

lemma rankFrom_absent: "role \<notin> set names \<Longrightarrow> rankFrom i role names = -1"
  by (induction names arbitrary: i) auto

lemma rankFrom_nth: "distinct names \<Longrightarrow> n < length names \<Longrightarrow> rankFrom i (names ! n) names = i + int n"
proof (induction names arbitrary: i n)
  case (Cons x xs)
  show ?case
  proof (cases n)
    case (Suc m)
    then have "xs ! m \<noteq> x" using Cons.prems by (metis distinct.simps(2) length_Cons not_less_eq nth_mem)
    then show ?thesis using Cons.IH [of m "i + 1"] Cons.prems Suc by auto
  qed simp
qed simp

text \<open>The hierarchy that registration installs decides every role question: a role is at least a minimum
  exactly when both are configured and the minimum stands at the same or an earlier place. The empty role is
  the default role, and a name that the configuration does not hold has and satisfies nothing.\<close>

theorem role_order:
  assumes "rolesRegister h names d = Inr h'"
  shows "RoleAtLeast h' role minimum \<longleftrightarrow>
    (let eff = (\<lambda>x. if x = [] then (if d = [] then hd names else d) else x) in
     \<exists>i j. i \<le> j \<and> j < length names \<and> names ! i = eff minimum \<and> names ! j = eff role)"
proof -
  let ?d = "if d = [] then hd names else d"
  let ?eff = "\<lambda>x. if x = [] then ?d else x"
  have h': "RoleNames h' = names" "au_defaultRole (ho_auth h') = ?d" "distinct names"
    using assms by (auto simp: rolesRegister_def SetRoles_def RoleNames_def split: if_splits)
  have rank: "Rank h' x = rankFrom 0 (?eff x) names" for x
    unfolding Rank_def h'(1,2) by (rule arg_cong [where f = "\<lambda>z. rankFrom 0 z names"]) simp
  have pos: "0 \<le> Rank h' x \<longleftrightarrow> (\<exists>n < length names. names ! n = ?eff x \<and> Rank h' x = int n)" for x
  proof (cases "?eff x \<in> set names")
    case True
    then obtain n where "n < length names" "names ! n = ?eff x" by (auto simp: in_set_conv_nth)
    then show ?thesis using rankFrom_nth [OF h'(3), of n 0] rank by auto
  next
    case False
    then show ?thesis using rankFrom_absent [OF False, of 0] rank by (auto simp: in_set_conv_nth)
  qed
  have at: "Rank h' x = int n" if "n < length names" "names ! n = ?eff x" for n x
    using rankFrom_nth [OF h'(3) that(1), of 0] rank that(2) by simp
  show ?thesis
    unfolding RoleAtLeast_def Let_def
  proof (intro iffI)
    assume "if Rank h' minimum < 0 then False else Rank h' minimum \<le> Rank h' role"
    then have "0 \<le> Rank h' minimum" "0 \<le> Rank h' role" "Rank h' minimum \<le> Rank h' role" by (auto split: if_splits)
    then show "\<exists>i j. i \<le> j \<and> j < length names \<and> names ! i = ?eff minimum \<and> names ! j = ?eff role"
      unfolding pos by (elim exE conjE) (rule exI, rule exI, intro conjI, auto)
  next
    assume "\<exists>i j. i \<le> j \<and> j < length names \<and> names ! i = ?eff minimum \<and> names ! j = ?eff role"
    then obtain i j where "i \<le> j" "j < length names" "names ! i = ?eff minimum" "names ! j = ?eff role" by blast
    then show "if Rank h' minimum < 0 then False else Rank h' minimum \<le> Rank h' role"
      using at [of i minimum] at [of j role] by auto
  qed
qed


section \<open>What a guarded route knows\<close>

lemma principalOf_parts:
  "principalOf a c l = Some p \<Longrightarrow> pr_Role p = effectiveRole a (pr_User p) \<and> pr_ViaCookie p = c"
  by (auto simp: principalOf_def withOrganization_def sessionPrincipal_def split: option.splits if_splits)

lemma readPrincipal_cookie:
  assumes "readPrincipal a r s = (Inr (Some p), t)" and "claimant a (bearerToken r) = None"
  shows "pr_Role p = effectiveRole a (pr_User p) \<and>
     pr_ViaCookie p = (cookieValue (eg_cookieName (au_edge a)) r \<noteq> [])"
  using assms
  by (auto simp: readPrincipal_def Let_def success_simps split: if_splits dest!: principalOf_parts [OF sym])


section \<open>The cache and the transport of a credential\<close>

text \<open>The principal of a credential is cached without the way that carried it.\<close>

definition w_host :: host where
  "w_host = \<lparr>ho_auth = w_auth, ho_crossOrigin = True, ho_hierarchy = Some [''user'', ''admin'']\<rparr>"

definition w_bearer :: httpRequest where
  "w_bearer = (w_request [] [])\<lparr>rq_Cookies := [],
     rq_Headers := (\<lambda>h. if h = ''Authorization'' then ''Bearer tok'' else [])\<rparr>"

definition w_forged :: httpRequest where
  "w_forged = (w_request ''https://evil.io'' [])\<lparr>
     rq_Headers := (\<lambda>h. if h = ''Origin'' then ''https://evil.io'' else if h = ''Sec-Fetch-Site'' then ''cross-site'' else [])\<rparr>"

definition cachingWorld :: sys where
  "cachingWorld = (world w_core)\<lparr>principals := Some []\<rparr>"


theorem role_order_witness:
  "\<exists>h'. rolesRegister (w_host\<lparr>ho_hierarchy := None\<rparr>) [''viewer'', ''editor'', ''admin''] [] = Inr h' \<and>
     RoleAtLeast h' ''admin'' ''editor'' \<and> \<not> RoleAtLeast h' [] ''editor''"
proof -
  let ?h = "w_host\<lparr>ho_hierarchy := None\<rparr>"
  let ?n = "[''viewer'', ''editor'', ''admin'']"
  obtain h' where run: "rolesRegister ?h ?n [] = Inr h'"
    by (simp add: rolesRegister_def SetRoles_def w_host_def)
  have "\<exists>i j. i \<le> j \<and> j < length ?n \<and> ?n ! i = ''editor'' \<and> ?n ! j = ''admin''"
    by (rule exI [of _ 1], rule exI [of _ 2]) simp
  moreover have "\<not> (\<exists>i j. i \<le> j \<and> j < length ?n \<and> ?n ! i = ''editor'' \<and> ?n ! j = ''viewer'')"
    by (auto simp: less_Suc_eq nth_Cons split: nat.splits)
  ultimately show ?thesis using role_order [OF run] run by simp
qed


end
