(* ===== verification/Api_Keys.thy ===== *)
theory Api_Keys
  imports Roles
begin

text \<open>
  Machine credentials: the plugin \<open>plugins/apikeys\<close>. A key authenticates as a bearer value through the
  credential resolvers of \<open>principal.go\<close>. The organizations of a key are the interface
  \<open>OrganizationResolver\<close>, a record of functions that another plugin fills.
\<close>

section \<open>The plugin\<close>

record keyResolver =
  kr_KeyCredential :: "string \<Rightarrow> string \<Rightarrow> string \<Rightarrow> (sys, Organization \<times> Membership \<times> string list) oper"
  kr_KnownRole :: "string \<Rightarrow> string \<Rightarrow> (sys, bool) oper"

record keyPlugin =
  kp_prefix :: string
  kp_maxTTL :: duration
  kp_requireExpiry :: bool
  kp_touchInterval :: duration
  kp_adminRole :: string
  kp_organizations :: "keyResolver option"
  kp_scopes :: "string list"
  kp_defaultScopes :: "string list"
  kp_defaultsSet :: bool
  kp_beforeCreate :: "APIKey \<Rightarrow> User \<Rightarrow> err option"

text \<open>The two patterns of the names.\<close>

definition prefixPattern :: "string \<Rightarrow> bool" where
  "prefixPattern s = (case s of [] \<Rightarrow> False
     | c # cs \<Rightarrow> is_lower c \<and> 1 \<le> length cs \<and> length cs \<le> 15 \<and>
         list_all (\<lambda>x. is_lower x \<or> is_digit x \<or> x = CHR ''_'') cs)"

definition scopePattern :: "string \<Rightarrow> bool" where
  "scopePattern s = (case s of [] \<Rightarrow> False
     | c # cs \<Rightarrow> is_lower c \<and> length cs \<le> 63 \<and>
         list_all (\<lambda>x. is_lower x \<or> is_digit x \<or> x \<in> set ''_:.-'') cs)"

definition normalizeScopes :: "string list \<Rightarrow> string list" where
  "normalizeScopes names = remdups_adj (sort names)"

definition Scopes :: "string list \<Rightarrow> keyPlugin \<Rightarrow> keyPlugin" where
  "Scopes names p = p\<lparr>kp_scopes := normalizeScopes names\<rparr>"

definition DefaultScopes :: "string list \<Rightarrow> keyPlugin \<Rightarrow> keyPlugin" where
  "DefaultScopes names p = p\<lparr>kp_defaultScopes := normalizeScopes names, kp_defaultsSet := True\<rparr>"

definition MaxTTL :: "duration \<Rightarrow> keyPlugin \<Rightarrow> keyPlugin" where
  "MaxTTL d p = p\<lparr>kp_maxTTL := d, kp_requireExpiry := True\<rparr>"

definition AllowNoExpiry :: "keyPlugin \<Rightarrow> keyPlugin" where
  "AllowNoExpiry p = p\<lparr>kp_requireExpiry := False\<rparr>"

definition checkScopes :: "keyPlugin \<Rightarrow> unit res" where
  "checkScopes p =
     (if \<not> list_all scopePattern (kp_scopes p) then Inl (ErrOther ''authall/apikeys: a scope name is malformed'')
      else if \<not> kp_defaultsSet p then Inr ()
      else if kp_defaultScopes p = []
      then Inl (ErrOther ''authall/apikeys: DefaultScopes needs at least one scope'')
      else if \<not> list_all (\<lambda>n. n \<in> set (kp_scopes p)) (kp_defaultScopes p)
      then Inl (ErrOther ''authall/apikeys: a default scope is not declared'')
      else Inr ())"

text \<open>The checks of \<open>Register\<close>; the tables and the routes are not part of the model.\<close>

definition keysRegister :: "host \<Rightarrow> keyPlugin \<Rightarrow> unit res" where
  "keysRegister h p =
     (if \<not> prefixPattern (kp_prefix p) then Inl (ErrOther ''authall/apikeys: the prefix is malformed'')
      else case checkScopes p of
             Inl e \<Rightarrow> Inl e
           | Inr _ \<Rightarrow>
               if RoleNames h = []
               then Inl (ErrOther ''authall/apikeys: the roles plugin must be enabled before the API keys plugin'')
               else Inr ())"

section \<open>Scopes\<close>

definition fallbackScopes :: "keyPlugin \<Rightarrow> string" where
  "fallbackScopes p = Join (if kp_defaultsSet p then kp_defaultScopes p else kp_scopes p) '' ''"

definition scopesOf :: "keyPlugin \<Rightarrow> string \<Rightarrow> string res" where
  "scopesOf p requested =
     (let names = normalizeScopes (Fields requested) in
      if kp_scopes p = [] then (if names \<noteq> [] then Inl (api CodeScopeUnknown) else Inr [])
      else if names = [] then Inr (fallbackScopes p)
      else if \<not> list_all (\<lambda>n. n \<in> set (kp_scopes p)) names then Inl (api CodeScopeUnknown)
      else Inr (Join names '' ''))"

definition effectiveScopes :: "keyPlugin \<Rightarrow> string \<Rightarrow> string" where
  "effectiveScopes p stored =
     (if kp_scopes p = [] then [] else if stored = [] then fallbackScopes p else stored)"

section \<open>Resolution\<close>

definition Claims :: "keyPlugin \<Rightarrow> string \<Rightarrow> bool" where
  "Claims p bearer = HasPrefix bearer (kp_prefix p)"

definition roleOf :: "host \<Rightarrow> User \<Rightarrow> string" where
  "roleOf h u = (if u_Role u = [] then au_defaultRole (ho_auth h) else u_Role u)"

definition touch :: "keyPlugin \<Rightarrow> APIKey \<Rightarrow> time \<Rightarrow> (sys, unit) oper" where
  "touch p key at =
     (if (case ak_LastUsedAt key of None \<Rightarrow> False | Some l \<Rightarrow> at - l < kp_touchInterval p) then ret ()
      else ignoring (TouchAPIKey (ak_ID key) at))"

text \<open>The organization part of \<open>Resolve\<close>.\<close>

definition orgCredential :: "keyPlugin \<Rightarrow> APIKey \<Rightarrow> User \<Rightarrow> Principal \<Rightarrow> (sys, Principal) oper" where
  "orgCredential p key user who =
     (case ak_OrgID key of
        None \<Rightarrow> ret who
      | Some orgID \<Rightarrow>
          if orgID = [] then ret who
          else case kp_organizations p of
                 None \<Rightarrow> fail (api CodeUnauthorized)
               | Some res \<Rightarrow>
                   mapFail (\<lambda>_. api CodeUnauthorized)
                     (andThen (kr_KeyCredential res orgID (u_ID user) (ak_Role key)) (\<lambda>(org, member, permissions).
                      ret (who\<lparr>pr_Organization := Some org,
                        pr_Membership := Some (member\<lparr>mb_Permissions := Join permissions '' ''\<rparr>)\<rparr>))))"

text \<open>The principal of a key before its organization. The role is the lower of the role of the key and the current
  role of the owner.\<close>

definition keyPrincipal :: "host \<Rightarrow> keyPlugin \<Rightarrow> APIKey \<Rightarrow> User \<Rightarrow> Principal" where
  "keyPrincipal h p k u =
     \<lparr>pr_User = u, pr_Session = None, pr_APIKey = Some (k\<lparr>ak_Scopes := effectiveScopes p (ak_Scopes k)\<rparr>),
      pr_Role = (if Rank h (roleOf h u) < Rank h (ak_Role k) then roleOf h u else ak_Role k),
      pr_Method = MethodAPIKey, pr_ViaCookie = False, pr_Organization = None, pr_Membership = None\<rparr>"

definition Resolve :: "host \<Rightarrow> keyPlugin \<Rightarrow> string \<Rightarrow> (sys, Principal) oper" where
  "Resolve h p bearer =
     andThen (mapFail (\<lambda>e. if isNotFound e then api CodeUnauthorized else with_cause CodeInternal e)
       (APIKeyByHash (cf_hash (au_cfg (ho_auth h)) bearer))) (\<lambda>(key, user).
     andThen now (\<lambda>at.
     if ak_RevokedAt key \<noteq> None \<or> (case ak_ExpiresAt key of None \<Rightarrow> False | Some x \<Rightarrow> \<not> at < x) \<or>
        u_DisabledAt user \<noteq> None
     then fail (api CodeUnauthorized)
     else
       andThen (orgCredential p key user (keyPrincipal h p key user)) (\<lambda>who.
       andThen (touch p key at) (\<lambda>_. ret who))))"

text \<open>The plugin as a credential resolver of the instance.\<close>

definition apiKeyResolver :: "host \<Rightarrow> keyPlugin \<Rightarrow> resolver" where
  "apiKeyResolver h p =
     \<lparr>rv_claims = Claims p, rv_perRequest = False,
      rv_resolve = (\<lambda>bearer r. andThen (Resolve h p bearer) (\<lambda>q. ret (Some q)))\<rparr>"

section \<open>Management\<close>

record CreateInput =
  ci_Name :: string
  ci_Role :: string
  ci_ExpiresAt :: "time option"
  ci_OrgID :: string
  ci_Scopes :: string

definition newKey :: "string \<Rightarrow> (sys, string) oper" where
  "newKey prefix = andThen NewToken (\<lambda>t. ret (prefix @ t))"

definition startRandomChars :: nat where "startRandomChars = 4"

definition startOf :: "string \<Rightarrow> string \<Rightarrow> string" where
  "startOf plaintext prefix =
     (let random = (if HasPrefix plaintext prefix then drop (length prefix) plaintext else plaintext);
          shown = (if length random > startRandomChars then take startRandomChars random else random)
      in prefix @ shown)"

definition checkExpiry :: "keyPlugin \<Rightarrow> time option \<Rightarrow> time \<Rightarrow> unit res" where
  "checkExpiry p expires at =
     (case expires of
        None \<Rightarrow> if kp_requireExpiry p then Inl (api CodeAPIKeyExpiryRequired) else Inr ()
      | Some x \<Rightarrow>
          if \<not> at < x then Inl (api CodeInvalidRequest)
          else if kp_maxTTL p > 0 \<and> x - at > kp_maxTTL p then Inl (api CodeAPIKeyExpiryTooLong)
          else Inr ())"

text \<open>The role of the new key; for the key of an organization the resolver decides.\<close>

definition keyRole :: "host \<Rightarrow> keyPlugin \<Rightarrow> User \<Rightarrow> CreateInput \<Rightarrow> (sys, string) oper" where
  "keyRole h p owner i =
     (let role = ci_Role i in
      if ci_OrgID i \<noteq> [] then
        (case kp_organizations p of
           None \<Rightarrow> fail (api CodeInvalidRequest)
         | Some res \<Rightarrow>
             andThen (kr_KeyCredential res (ci_OrgID i) (u_ID owner) role) (\<lambda>_.
             if role \<noteq> [] then
               andThen (kr_KnownRole res (ci_OrgID i) role) (\<lambda>known.
               if \<not> known then fail (api CodeRoleUnknown) else ret role)
             else ret role))
      else
        let role' = (if role = [] then roleOf h owner else role) in
        if Rank h role' < 0 then fail (api CodeRoleUnknown)
        else if Rank h role' > Rank h (roleOf h owner) then fail (api CodeRoleNotAllowed)
        else ret role')"

definition storeKey :: "keyPlugin \<Rightarrow> APIKey \<Rightarrow> User \<Rightarrow> (sys, unit) oper" where
  "storeKey p key owner =
     mapFail apierr_From (transaction (andThen (veto (kp_beforeCreate p key owner)) (\<lambda>_. CreateAPIKey key)))"

definition CreateKey :: "host \<Rightarrow> keyPlugin \<Rightarrow> User \<Rightarrow> CreateInput \<Rightarrow> (sys, APIKey \<times> string) oper" where
  "CreateKey h p owner i =
     (let name = TrimSpace (ci_Name i) in
      if name = [] \<or> RuneCount name > 100 then fail (api CodeInvalidRequest)
      else
        andThen now (\<lambda>at.
        case checkExpiry p (ci_ExpiresAt i) at of
          Inl e \<Rightarrow> fail e
        | Inr _ \<Rightarrow>
            (case scopesOf p (ci_Scopes i) of
               Inl e \<Rightarrow> fail e
             | Inr scopes \<Rightarrow>
                 andThen (keyRole h p owner i) (\<lambda>role.
                 andThen (mapFail (with_cause CodeInternal) (newKey (kp_prefix p))) (\<lambda>plaintext.
                 andThen newUUID (\<lambda>uuid.
                 let key = \<lparr>ak_ID = uuid, ak_UserID = u_ID owner, ak_Name = name,
                            ak_Start = startOf plaintext (kp_prefix p),
                            ak_KeyHash = cf_hash (au_cfg (ho_auth h)) plaintext, ak_Role = role,
                            ak_OrgID = (if ci_OrgID i \<noteq> [] then Some (ci_OrgID i) else None),
                            ak_Scopes = scopes, ak_CreatedAt = at, ak_ExpiresAt = ci_ExpiresAt i,
                            ak_LastUsedAt = None, ak_RevokedAt = None, ak_RevokedBy = None\<rparr>
                 in andThen (storeKey p key owner) (\<lambda>_.
                    andThen (runAfter ''APIKeyCreate'' uuid) (\<lambda>_.
                    andThen (emit ''auth.api_key_created'' (u_ID owner)
                      ([(''key_id'', uuid), (''role'', role)] @
                       (if scopes \<noteq> [] then [(''scopes'', scopes)] else []))) (\<lambda>_.
                    ret (key, plaintext))))))))))"

definition RevokeKey :: "keyPlugin \<Rightarrow> string \<Rightarrow> User \<Rightarrow> bool \<Rightarrow> (sys, unit) oper" where
  "RevokeKey p keyID actor isAdmin =
     andThen (mapFail (\<lambda>e. if isNotFound e then api CodeNotFound else with_cause CodeInternal e)
        (APIKeyByID keyID)) (\<lambda>key.
      if ak_UserID key \<noteq> u_ID actor \<and> \<not> isAdmin then fail (api CodeNotFound)
      else
        andThen now (\<lambda>at.
        andThen (mapFail (\<lambda>e. if isNotFound e then api CodeNotFound else with_cause CodeInternal e)
          (RevokeAPIKey (ak_ID key) (u_ID actor) at)) (\<lambda>_.
        andThen (runAfter ''APIKeyRevoke'' (ak_ID key)) (\<lambda>_.
        emit ''auth.api_key_revoked'' (ak_UserID key) [(''key_id'', ak_ID key)]))))"

definition ListKeys :: "keyPlugin \<Rightarrow> string \<Rightarrow> (sys, APIKey list) oper" where
  "ListKeys p userID =
     andThen (mapFail (with_cause CodeInternal) (ListAPIKeys userID)) (\<lambda>keys.
     ret (map (\<lambda>k. k\<lparr>ak_Scopes := effectiveScopes p (ak_Scopes k)\<rparr>) keys))"

text \<open>The keys of an organization end in the transaction that deletes it.\<close>

definition orgKeysCleanup :: "keyPlugin \<Rightarrow> string \<Rightarrow> (sys, unit) oper" where
  "orgKeysCleanup p orgID =
     (case kp_organizations p of
        None \<Rightarrow> ret ()
      | Some _ \<Rightarrow>
          andThen (deleteRows api_keys api_keys_update (\<lambda>k. ak_OrgID k = Some orgID)) (\<lambda>_. ret ()))"

section \<open>The routes\<close>

text \<open>\<open>guard\<close>: a session in front of a route of the key management.\<close>

definition keyGuard :: "host \<Rightarrow> httpRequest \<Rightarrow> (Principal \<Rightarrow> (sys, 'a) oper) \<Rightarrow> (sys, 'a) oper" where
  "keyGuard h r fn =
     RequireAuth h r (\<lambda>p. if pr_Method p \<noteq> MethodSession then fail (api CodeForbidden) else fn p)"

definition isKeyAdmin :: "host \<Rightarrow> keyPlugin \<Rightarrow> Principal \<Rightarrow> bool" where
  "isKeyAdmin h p who = RoleAtLeast h (pr_Role who) (kp_adminRole p)"

definition handleListKeys :: "host \<Rightarrow> keyPlugin \<Rightarrow> httpRequest \<Rightarrow> string \<Rightarrow> (sys, APIKey list) oper" where
  "handleListKeys h p r wanted =
     keyGuard h r (\<lambda>who.
       let owner = u_ID (pr_User who) in
       if wanted \<noteq> [] \<and> wanted \<noteq> owner then
         (if \<not> isKeyAdmin h p who then fail (api CodeForbidden) else ListKeys p wanted)
       else ListKeys p owner)"

record createKeyRequest =
  cq_Name :: string
  cq_Role :: string
  cq_ExpiresAt :: "time option"
  cq_OrgID :: string
  cq_Scopes :: "string list"

definition handleCreateKey ::
  "host \<Rightarrow> keyPlugin \<Rightarrow> httpRequest \<Rightarrow> createKeyRequest res \<Rightarrow> (sys, APIKey \<times> string) oper" where
  "handleCreateKey h p r body =
     keyGuard h r (\<lambda>who.
       andThen (decoded body) (\<lambda>req.
       CreateKey h p (pr_User who)
         \<lparr>ci_Name = cq_Name req, ci_Role = cq_Role req, ci_ExpiresAt = cq_ExpiresAt req,
          ci_OrgID = cq_OrgID req, ci_Scopes = Join (cq_Scopes req) '' ''\<rparr>))"

definition handleRevokeKey :: "host \<Rightarrow> keyPlugin \<Rightarrow> httpRequest \<Rightarrow> string \<Rightarrow> (sys, unit) oper" where
  "handleRevokeKey h p r keyID =
     keyGuard h r (\<lambda>who. RevokeKey p keyID (pr_User who) (isKeyAdmin h p who))"

text \<open>\<open>RequireScope\<close>; \<open>None\<close> is the panic on a scope that is not declared.\<close>

definition RequireScope ::
  "host \<Rightarrow> keyPlugin \<Rightarrow> string \<Rightarrow> httpRequest \<Rightarrow> (Principal \<Rightarrow> (sys, 'a) oper) \<Rightarrow> (sys, 'a) oper option" where
  "RequireScope h p scope r next =
     (if kp_scopes p \<noteq> [] \<and> scope \<notin> set (kp_scopes p) then None
      else Some (RequireAuth h r (\<lambda>q. if \<not> HasScope q scope then fail (api CodeScopeMissing) else next q)))"

section \<open>Scopes that a key can hold\<close>

lemma remdups_adj_Nil_iff [simp]: "remdups_adj xs = [] \<longleftrightarrow> xs = []"
  by (cases xs) auto

lemma set_normalizeScopes [simp]: "set (normalizeScopes names) = set names"
  by (simp add: normalizeScopes_def)

lemma scopePattern_word: "scopePattern n \<Longrightarrow> n \<noteq> [] \<and> (\<forall>x \<in> set n. \<not> is_space x)"
proof (cases n)
  case (Cons c cs)
  assume p: "scopePattern n"
  have sp: "\<not> is_space x" if "is_lower x \<or> is_digit x \<or> x \<in> set ''_:.-''" for x
    using that by (auto simp: is_space_def is_lower_def is_digit_def)
  have "\<not> is_space c" using sp [of c] p Cons by (simp add: scopePattern_def)
  moreover have "\<not> is_space x" if "x \<in> set cs" for x
    using sp [of x] p Cons that by (auto simp: scopePattern_def list_all_iff)
  ultimately show ?thesis using Cons by auto
qed (simp add: scopePattern_def)

lemma Join_Nil_iff: "Join ns '' '' = [] \<longleftrightarrow> ns = [] \<or> ns = [[]]"
  by (induction ns rule: induct_list012) auto

lemma scopes_declared:
  assumes "checkScopes p = Inr ()" and "set ns \<subseteq> set (kp_scopes p)"
  shows "Fields (Join ns '' '') = ns"
  using assms scopePattern_word
  by (intro Fields_words) (auto simp: checkScopes_def list_all_iff split: if_splits)

lemma fallback_declared:
  assumes "checkScopes p = Inr ()"
  shows "set (Fields (fallbackScopes p)) \<subseteq> set (kp_scopes p)"
proof -
  have "set (kp_defaultScopes p) \<subseteq> set (kp_scopes p)" if "kp_defaultsSet p"
    using assms that by (auto simp: checkScopes_def list_all_iff split: if_splits)
  then show ?thesis using scopes_declared [OF assms] by (auto simp: fallbackScopes_def)
qed

lemma scopesOf_declared:
  assumes "checkScopes p = Inr ()" and "scopesOf p req = Inr sc"
  shows "set (Fields sc) \<subseteq> set (kp_scopes p)" "effectiveScopes p sc = sc"
proof -
  have "sc = Join (normalizeScopes (Fields req)) '' '' \<and> set (Fields req) \<subseteq> set (kp_scopes p)
      \<or> sc = fallbackScopes p \<or> sc = [] \<and> kp_scopes p = []"
    using assms(2) by (auto simp: scopesOf_def Let_def list_all_iff split: if_splits)
  then show "set (Fields sc) \<subseteq> set (kp_scopes p)"
    using scopes_declared [OF assms(1), of "normalizeScopes (Fields req)"] fallback_declared [OF assms(1)]
    by (auto simp: Fields_def)
  show "effectiveScopes p sc = sc"
    using assms(2) scopes_declared [OF assms(1), of "normalizeScopes (Fields req)"]
    by (auto simp: scopesOf_def effectiveScopes_def Let_def list_all_iff Fields_def subset_eq split: if_splits)
qed

section \<open>What a resolved key rests on\<close>

lemma touch_frame:
  assumes "touch p k at s = (r, s')"
  shows "users (db s') = users (db s)" "orgs (db s') = orgs (db s)" "members (db s') = members (db s)"
  using assms
  by (auto simp: touch_def ret_def ignoring_def TouchAPIKey_def updateRows_def stmt_def andThen_def
      split: if_splits option.splits)

lemma APIKeyByHash_Inr:
  assumes "APIKeyByHash hs s = (Inr (k, u), s')"
  shows "k \<in> set (api_keys (db s)) \<and> ak_KeyHash k = hs \<and> u \<in> set (users (db s)) \<and> u_ID u = ak_UserID k \<and> s' = tick s"
  using assms by (auto simp: APIKeyByHash_def stmt_Inr dest!: find_SomeD split: option.splits)

text \<open>A key that may be used now.\<close>

definition keyLive :: "APIKey \<Rightarrow> time \<Rightarrow> bool" where
  "keyLive k at \<longleftrightarrow> ak_RevokedAt k = None \<and> (\<forall>x. ak_ExpiresAt k = Some x \<longrightarrow> at < x)"

lemma orgCredential_Inr:
  assumes "orgCredential p k u pr s = (Inr q, s')"
  shows "pr_User q = pr_User pr \<and> pr_Session q = pr_Session pr \<and> pr_APIKey q = pr_APIKey pr \<and>
    pr_Role q = pr_Role pr \<and> pr_Method q = pr_Method pr"
  using assms by (auto simp: orgCredential_def success_simps split: option.splits if_splits)

lemma Resolve_parts:
  assumes "Resolve h p b s = (Inr q, s')"
  obtains k u t where "APIKeyByHash (cf_hash (au_cfg (ho_auth h)) b) s = (Inr (k, u), tick s)"
    and "keyLive k (clock s)" and "u_DisabledAt u = None"
    and "orgCredential p k u (keyPrincipal h p k u) (tick s) = (Inr q, t)" and "touch p k (clock s) t = (Inr (), s')"
proof -
  obtain k u v where a: "APIKeyByHash (cf_hash (au_cfg (ho_auth h)) b) s = (Inr (k, u), v)"
    and r: "(if ak_RevokedAt k \<noteq> None \<or> (case ak_ExpiresAt k of None \<Rightarrow> False | Some x \<Rightarrow> \<not> clock v < x) \<or>
         u_DisabledAt u \<noteq> None then fail (api CodeUnauthorized)
       else andThen (orgCredential p k u (keyPrincipal h p k u)) (\<lambda>pr. andThen (touch p k (clock v)) (\<lambda>_. ret pr))) v =
       (Inr q, s')"
    using assms unfolding Resolve_def andThen_Inr mapFail_Inr now_Inr prod_run by blast
  have v: "v = tick s" using APIKeyByHash_Inr [OF a] by blast
  show thesis
    using that [of k u] a r v
    by (auto simp: success_simps keyLive_def split: if_splits option.splits)
qed

lemma Resolve_Inr:
  assumes "Resolve h p b s = (Inr q, s')"
  shows "\<exists>k \<in> set (api_keys (db s)). ak_KeyHash k = cf_hash (au_cfg (ho_auth h)) b \<and> keyLive k (clock s) \<and>
    pr_User q \<in> set (users (db s)) \<and> u_ID (pr_User q) = ak_UserID k \<and> u_DisabledAt (pr_User q) = None \<and>
    pr_APIKey q = Some (k\<lparr>ak_Scopes := effectiveScopes p (ak_Scopes k)\<rparr>) \<and> pr_Method q = MethodAPIKey \<and>
    pr_Session q = None \<and> Rank h (pr_Role q) = min (Rank h (ak_Role k)) (Rank h (roleOf h (pr_User q)))"
proof -
  obtain k u t where a: "APIKeyByHash (cf_hash (au_cfg (ho_auth h)) b) s = (Inr (k, u), tick s)"
    and l: "keyLive k (clock s)" "u_DisabledAt u = None"
    and o: "orgCredential p k u (keyPrincipal h p k u) (tick s) = (Inr q, t)"
    using Resolve_parts [OF assms] by metis
  show ?thesis
    using APIKeyByHash_Inr [OF a] orgCredential_Inr [OF o] l
    by (intro bexI [of _ k]) (auto simp: keyPrincipal_def)
qed

text \<open>The hierarchy of two hosts is the same.\<close>

definition sameRoles :: "host \<Rightarrow> host \<Rightarrow> bool" where
  "sameRoles h h0 \<longleftrightarrow> ho_hierarchy h = ho_hierarchy h0 \<and> au_defaultRole (ho_auth h) = au_defaultRole (ho_auth h0) \<and>
     cf_hash (au_cfg (ho_auth h)) = cf_hash (au_cfg (ho_auth h0))"

lemma sameRoles_Rank: "sameRoles h h0 \<Longrightarrow> Rank h = Rank h0 \<and> roleOf h = roleOf h0"
  by (rule conjI; rule ext) (simp_all add: sameRoles_def Rank_def RoleNames_def roleOf_def)


section \<open>Creation\<close>

lemma newKey_Inr:
  assumes "newKey pre s = (Inr x, s')"
  shows "(\<exists>t. x = pre @ t) \<and> db s' = db s \<and> clock s' = clock s"
  using assms by (auto simp: newKey_def success_simps env_success NewToken_def split: option.splits)

lemma storeKey_Inr:
  assumes "storeKey p key owner s = (Inr x, s')"
  shows "uniqKeys (api_keys (db s) @ [key])" "ak_UserID key \<in> userIDs (users (db s))"
    "kp_beforeCreate p key owner = None"
    "db s' = (db s)\<lparr>api_keys := api_keys (db s) @ [key]\<rparr>"
proof -
  have "transaction (andThen (veto (kp_beforeCreate p key owner)) (\<lambda>_. CreateAPIKey key)) s = (Inr x, s')"
    using assms by (simp add: storeKey_def mapFail_Inr)
  then obtain a b where r: "andThen (veto (kp_beforeCreate p key owner)) (\<lambda>_. CreateAPIKey key) a = (Inr x, b)"
    and d: "db a = db s" "db s' = db b"
    by (rule transaction_InrE)
  then have c: "kp_beforeCreate p key owner = None" "uniqKeys (api_keys (db a) @ [key])" "ak_UserID key \<in> userIDs (users (db a))"
    "db b = api_keys_update (\<lambda>rows. rows @ [key]) (db a)"
    by (auto simp: success_simps veto_Inr CreateAPIKey_def insertRow_Inr)
  then show "uniqKeys (api_keys (db s) @ [key])" "ak_UserID key \<in> userIDs (users (db s))"
    "kp_beforeCreate p key owner = None" "db s' = (db s)\<lparr>api_keys := api_keys (db s) @ [key]\<rparr>"
    using d by simp_all
qed

lemma CreateKey_parts:
  assumes "CreateKey h p owner i s = (Inr (key, plaintext), s')"
  obtains sc role t u v where "checkExpiry p (ci_ExpiresAt i) (clock s) = Inr ()"
    and "scopesOf p (ci_Scopes i) = Inr sc" and "keyRole h p owner i s = (Inr role, t)"
    and "newKey (kp_prefix p) t = (Inr plaintext, u)" and "storeKey p key owner (snd (newUUID u)) = (Inr (), v)"
    and "db s' = db v" and "ak_UserID key = u_ID owner" and "ak_KeyHash key = cf_hash (au_cfg (ho_auth h)) plaintext"
    and "ak_Role key = role" and "ak_OrgID key = (if ci_OrgID i \<noteq> [] then Some (ci_OrgID i) else None)"
    and "ak_Scopes key = sc" and "ak_ExpiresAt key = ci_ExpiresAt i" and "ak_CreatedAt key = clock s"
    and "ak_RevokedAt key = None" and "ak_Start key = startOf plaintext (kp_prefix p)"
    and "0 < RuneCount (ak_Name key) \<or> ak_Name key \<noteq> []" and "RuneCount (ak_Name key) \<le> 100"
  using assms
  by (fastforce simp: CreateKey_def Let_def success_simps env_success now_Inr newUUID_def split: if_splits sum.splits)

lemma keyRole_app:
  assumes "keyRole h p owner i s = (Inr role, t)" and "ci_OrgID i = []"
  shows "t = s \<and> 0 \<le> Rank h role \<and> Rank h role \<le> Rank h (roleOf h owner)"
  using assms by (auto simp: keyRole_def Let_def success_simps split: if_splits)

lemma create_key_parts:
  assumes "CreateKey h p owner i s = (Inr (key, plaintext), s')" and "ci_OrgID i = []"
    and "keysRegister h p = Inr ()"
  shows "db s' = (db s)\<lparr>api_keys := api_keys (db s) @ [key]\<rparr> \<and> uniqKeys (api_keys (db s')) \<and>
    ak_UserID key = u_ID owner \<and> u_ID owner \<in> userIDs (users (db s)) \<and>
    ak_KeyHash key = cf_hash (au_cfg (ho_auth h)) plaintext \<and> Claims p plaintext \<and>
    0 \<le> Rank h (ak_Role key) \<and> Rank h (ak_Role key) \<le> Rank h (roleOf h owner) \<and> ak_OrgID key = None \<and>
    set (Fields (ak_Scopes key)) \<subseteq> set (kp_scopes p) \<and> keyLive key (clock s) \<and>
    (kp_requireExpiry p \<longrightarrow> ak_ExpiresAt key \<noteq> None) \<and>
    (\<forall>x. ak_ExpiresAt key = Some x \<and> kp_maxTTL p > 0 \<longrightarrow> x - clock s \<le> kp_maxTTL p) \<and>
    effectiveScopes p (ak_Scopes key) = ak_Scopes key"
proof -
  obtain sc role t u v where e: "checkExpiry p (ci_ExpiresAt i) (clock s) = Inr ()"
    and sc: "scopesOf p (ci_Scopes i) = Inr sc" and kr: "keyRole h p owner i s = (Inr role, t)"
    and nk: "newKey (kp_prefix p) t = (Inr plaintext, u)" and st: "storeKey p key owner (snd (newUUID u)) = (Inr (), v)"
    and d: "db s' = db v" "ak_UserID key = u_ID owner" "ak_KeyHash key = cf_hash (au_cfg (ho_auth h)) plaintext"
    "ak_Role key = role" "ak_OrgID key = (if ci_OrgID i \<noteq> [] then Some (ci_OrgID i) else None)"
    "ak_Scopes key = sc" "ak_ExpiresAt key = ci_ExpiresAt i" "ak_RevokedAt key = None"
    by (rule CreateKey_parts [OF assms(1)]) blast
  have cs: "checkScopes p = Inr ()" using assms(3) by (auto simp: keysRegister_def split: if_splits sum.splits)
  have db: "db (snd (newUUID u)) = db s" using newKey_Inr [OF nk] keyRole_app [OF kr assms(2)] by (simp add: newUUID_def)
  have ex: "(case ak_ExpiresAt key of None \<Rightarrow> \<not> kp_requireExpiry p
      | Some x \<Rightarrow> clock s < x \<and> (kp_maxTTL p > 0 \<longrightarrow> x - clock s \<le> kp_maxTTL p))"
    using e by (auto simp: d(7) checkExpiry_def split: option.splits if_splits)
  show ?thesis
    using storeKey_Inr [OF st] keyRole_app [OF kr assms(2)] scopesOf_declared [OF cs sc] newKey_Inr [OF nk] ex
    by (auto simp: d db assms(2) keyLive_def Claims_def HasPrefix_def split: option.splits)
qed



section \<open>Revocation\<close>

definition revokedBy :: "User \<Rightarrow> time \<Rightarrow> APIKey \<Rightarrow> APIKey" where
  "revokedBy actor at k = k\<lparr>ak_RevokedAt := Some at, ak_RevokedBy := Some (u_ID actor)\<rparr>"

lemma RevokeAPIKey_run:
  assumes "RevokeAPIKey i u at s = (r, s')"
  shows "(\<exists>e. r = Inl e \<and> db s' = db s) \<or>
    (r = Inr () \<and> (\<exists>k \<in> set (api_keys (db s)). ak_ID k = i \<and> ak_RevokedAt k = None) \<and>
     db s' = (db s)\<lparr>api_keys := updateWhere (\<lambda>k. ak_ID k = i \<and> ak_RevokedAt k = None)
        (\<lambda>k. k\<lparr>ak_RevokedAt := Some at, ak_RevokedBy := Some u\<rparr>) (api_keys (db s))\<rparr>)"
proof -
  have none: "updateWhere (\<lambda>k. ak_ID k = i \<and> ak_RevokedAt k = None)
        (\<lambda>k. k\<lparr>ak_RevokedAt := Some at, ak_RevokedBy := Some u\<rparr>) (api_keys (db s)) = api_keys (db s)"
    if "\<not> (\<exists>k \<in> set (api_keys (db s)). ak_ID k = i \<and> ak_RevokedAt k = None)"
    using that by (intro updateWhere_none) auto
  show ?thesis
    using assms none
    by (auto simp: RevokeAPIKey_def andThen_def updateRows_def stmt_def requireAffected_def ensure_def anyRows_def
        countWhere_pos split: if_splits)
qed

lemma revoked_never_resolves:
  assumes "uniqKeys (api_keys (db s))" and "k \<in> set (api_keys (db s))" and "ak_RevokedAt k \<noteq> None"
    and "cf_hash (au_cfg (ho_auth h)) b = ak_KeyHash k"
  shows "Resolve h p b s \<noteq> (Inr q, s')"
proof
  assume "Resolve h p b s = (Inr q, s')"
  then obtain k' where "k' \<in> set (api_keys (db s))" "ak_KeyHash k' = ak_KeyHash k" "keyLive k' (clock s)"
    using Resolve_Inr assms(4) by metis
  moreover then have "k' = k" using assms(1,2) unfolding uniqKeys_def by (metis distinct_map_unique)
  ultimately show False using assms(3) by (simp add: keyLive_def)
qed

text \<open>A key is revoked only by its owner or an administrator, and from then on its value authenticates
  nowhere; no other row changes. Anybody else gets the answer for a key that does not exist, and a failure
  changes nothing.\<close>

theorem revoke_key:
  assumes "wfTables (db s)" and "RevokeKey p i actor adm s = (r, s')"
  shows "(case r of
      Inl e \<Rightarrow> db s' = db s
    | Inr _ \<Rightarrow> (\<exists>k \<in> set (api_keys (db s)). ak_ID k = i \<and> (ak_UserID k = u_ID actor \<or> adm) \<and> ak_RevokedAt k = None \<and>
        db s' = (db s)\<lparr>api_keys := updateWhere (\<lambda>x. x = k) (revokedBy actor (clock s)) (api_keys (db s))\<rparr> \<and>
        (\<forall>h p' b s2 q s3. api_keys (db s2) = api_keys (db s') \<and> cf_hash (au_cfg (ho_auth h)) b = ak_KeyHash k \<longrightarrow>
           Resolve h p' b s2 \<noteq> (Inr q, s3)))) \<and>
    (faults s = [] \<and> \<not> adm \<and> (\<forall>k \<in> set (api_keys (db s)). ak_ID k = i \<longrightarrow> ak_UserID k \<noteq> u_ID actor) \<longrightarrow>
       r = Inl (api CodeNotFound))"
proof (intro conjI impI)
  have uk: "uniqKeys (api_keys (db s))" using assms(1) by (simp add: wfTables_def okRows_def)
  show "case r of
      Inl e \<Rightarrow> db s' = db s
    | Inr _ \<Rightarrow> (\<exists>k \<in> set (api_keys (db s)). ak_ID k = i \<and> (ak_UserID k = u_ID actor \<or> adm) \<and> ak_RevokedAt k = None \<and>
        db s' = (db s)\<lparr>api_keys := updateWhere (\<lambda>x. x = k) (revokedBy actor (clock s)) (api_keys (db s))\<rparr> \<and>
        (\<forall>h p' b s2 q s3. api_keys (db s2) = api_keys (db s') \<and> cf_hash (au_cfg (ho_auth h)) b = ak_KeyHash k \<longrightarrow>
           Resolve h p' b s2 \<noteq> (Inr q, s3)))"
  proof (cases r)
    case (Inl e)
    then show ?thesis
      using assms(2)
      by (auto simp: RevokeKey_def APIKeyByID_def selectOne_def failure_simps success_simps env_success response_Inl
          stmt_def if_run now_Inr split: option.splits if_splits dest!: RevokeAPIKey_run)
  next
    case (Inr x)
    obtain k t where sel: "APIKeyByID i s = (Inr k, tick s)" and ok: "ak_UserID k = u_ID actor \<or> adm"
      and rv: "RevokeAPIKey (ak_ID k) (u_ID actor) (clock s) (tick s) = (Inr (), t)" and d: "db s' = db t"
      using assms(2) Inr
      by (auto simp: RevokeKey_def success_simps env_success now_Inr if_run APIKeyByID_def selectOne_Inr)
    have k: "k \<in> set (api_keys (db s))" "ak_ID k = i"
      using sel by (auto simp: APIKeyByID_def selectOne_Inr dest!: find_SomeD)
    have only: "x = k" if "x \<in> set (api_keys (db s))" "ak_ID x = ak_ID k" for x
      using uk that k(1) unfolding uniqKeys_def by (metis distinct_map_unique)
    have live: "ak_RevokedAt k = None" and db: "db s' = (db s)\<lparr>api_keys := updateWhere
        (\<lambda>x. ak_ID x = ak_ID k \<and> ak_RevokedAt x = None) (revokedBy actor (clock s)) (api_keys (db s))\<rparr>"
      using RevokeAPIKey_run [OF rv] only d by (auto simp: revokedBy_def [abs_def])
    have eq: "updateWhere (\<lambda>x. ak_ID x = ak_ID k \<and> ak_RevokedAt x = None) f (api_keys (db s)) =
        updateWhere (\<lambda>x. x = k) f (api_keys (db s))" for f
      using only live by (auto simp: updateWhere_def)
    have ks: "api_keys (db s') = updateWhere (\<lambda>x. x = k) (revokedBy actor (clock s)) (api_keys (db s))"
      by (simp add: db eq)
    have "uniqKeys (api_keys (db s'))" using uk by (simp add: ks uniqKeys_def revokedBy_def)
    moreover have "revokedBy actor (clock s) k \<in> set (api_keys (db s'))"
      using k(1) by (auto simp: ks set_updateWhere)
    ultimately have "Resolve h p' b s2 \<noteq> (Inr q, s3)"
      if "api_keys (db s2) = api_keys (db s')" "cf_hash (au_cfg (ho_auth h)) b = ak_KeyHash k" for h p' b s2 q s3
      using revoked_never_resolves [of s2 "revokedBy actor (clock s) k" h b p' q s3] that by (simp add: revokedBy_def)
    then show ?thesis using k ok live db eq Inr by auto
  qed
  assume q: "faults s = [] \<and> \<not> adm \<and> (\<forall>k \<in> set (api_keys (db s)). ak_ID k = i \<longrightarrow> ak_UserID k \<noteq> u_ID actor)"
  then show "r = Inl (api CodeNotFound)"
    using assms(2)
    by (auto simp: RevokeKey_def APIKeyByID_def selectOne_def andThen_def mapFail_def stmt_def fail_def
        dest!: find_SomeD split: option.splits)
qed

section \<open>Concrete keys\<close>

definition w_keys :: keyPlugin where
  "w_keys = \<lparr>kp_prefix = ''ak_'', kp_maxTTL = 1000, kp_requireExpiry = True, kp_touchInterval = 60,
     kp_adminRole = ''admin'', kp_organizations = None, kp_scopes = [''read'', ''write''], kp_defaultScopes = [],
     kp_defaultsSet = False, kp_beforeCreate = (\<lambda>k u. None)\<rparr>"

definition w_keyInput :: CreateInput where
  "w_keyInput = \<lparr>ci_Name = ''ci'', ci_Role = [], ci_ExpiresAt = Some 600, ci_OrgID = [], ci_Scopes = ''write read read''\<rparr>"

definition w_key :: APIKey where
  "w_key = \<lparr>ak_ID = ''i'', ak_UserID = ''u2'', ak_Name = ''ci'', ak_Start = ''ak_r'', ak_KeyHash = ''#ak_r'',
     ak_Role = ''user'', ak_OrgID = None, ak_Scopes = ''read write'', ak_CreatedAt = 100, ak_ExpiresAt = Some 600,
     ak_LastUsedAt = None, ak_RevokedAt = None, ak_RevokedBy = None\<rparr>"

definition w_keyTables :: tables where
  "w_keyTables = w_core\<lparr>api_keys := [w_key]\<rparr>"

lemma w_create_key:
  "\<exists>s'. CreateKey w_host w_keys bob w_keyInput (world w_core) = (Inr (w_key, ''ak_r''), s')"
proof -
  have "fst (CreateKey w_host w_keys bob w_keyInput (world w_core)) = Inr (w_key, ''ak_r'')" by code_simp
  then show ?thesis by (metis prod.collapse)
qed

lemma w_keys_register: "keysRegister w_host w_keys = Inr ()"
  by code_simp

lemma w_core_users: "bob \<in> set (users w_core) \<and> u_DisabledAt bob = None"
  by (simp add: w_core_def bob_def ann_def)

lemma wf_w_keyTables: "wfTables w_keyTables"
  by (simp add: wf_eval w_keyTables_def w_core_def w_eval bob_def w_session_def w_key_def)



theorem revoke_key_witness:
  "\<forall>q s3. Resolve w_host w_keys ''ak_r'' (snd (RevokeKey w_keys ''i'' bob False (world w_keyTables))) \<noteq> (Inr q, s3)"
proof -
  have "fst (RevokeKey w_keys ''i'' bob False (world w_keyTables)) = Inr ()" by code_simp
  then obtain s' where run: "RevokeKey w_keys ''i'' bob False (world w_keyTables) = (Inr (), s')" by (metis prod.collapse)
  have "\<forall>b q s3. cf_hash (au_cfg (ho_auth w_host)) b = ak_KeyHash w_key \<longrightarrow> Resolve w_host w_keys b s' \<noteq> (Inr q, s3)"
    using revoke_key [OF _ run] wf_w_keyTables by (auto simp: w_keyTables_def)
  moreover have "cf_hash (au_cfg (ho_auth w_host)) ''ak_r'' = ak_KeyHash w_key"
    by (simp add: w_host_def w_auth_def w_cfg_def w_key_def)
  ultimately show ?thesis using run by simp
qed

definition w_keyHost :: host where
  "w_keyHost = w_host\<lparr>ho_auth := w_auth\<lparr>au_resolvers := [apiKeyResolver w_host w_keys]\<rparr>\<rparr>"

definition w_keyRequest :: httpRequest where
  "w_keyRequest = (w_request [] [])\<lparr>rq_Cookies := [],
     rq_Headers := (\<lambda>h. if h = ''Authorization'' then ''Bearer ak_r'' else [])\<rparr>"


end
