(* ===== verification/Organizations.thy ===== *)
theory Organizations
  imports Api_Keys Permission Store_Orgs
begin

text \<open>
  Organizations, memberships and permissions: \<open>organizations.go\<close>, \<open>permissions.go\<close>, \<open>operations.go\<close>,
  \<open>members.go\<close> and \<open>objects.go\<close> of \<open>plugins/organizations\<close>. The actor of an operation is \<open>None\<close> for a call of
  the application itself, which no permission limits.
\<close>

section \<open>The plugin\<close>

text \<open>The hooks of the application are verdicts: \<open>pg_beforeOrg\<close> by the name of the hook, \<open>pg_beforeMembership\<close>.
  \<open>pg_onDelete\<close> removes the rows that other plugins keep for an organization. \<open>pg_objects\<close> is the policy
  service of \<open>objects.go\<close>.\<close>

record objectQuery =
  oq_SubjectID :: string
  oq_OrgID :: string
  oq_Role :: string
  oq_Permissions :: "string list"
  oq_Action :: string
  oq_Object :: string

record orgPlugin =
  pg_cfg :: config
  pg_roles :: "(string \<times> PermSet) list"
  pg_defaultRole :: string
  pg_ownerRole :: string
  pg_allowCustomRoles :: bool
  pg_maxMembers :: int
  pg_invitationLifetime :: duration
  pg_personal :: bool
  pg_objects :: "(objectQuery \<Rightarrow> bool res) option"
  pg_beforeOrg :: "string \<Rightarrow> Organization \<Rightarrow> User option \<Rightarrow> err option"
  pg_onDelete :: "string \<Rightarrow> (sys, unit) oper"
  pg_beforeMembership :: "Membership \<Rightarrow> User option \<Rightarrow> err option"

text \<open>\<open>Role\<close>; \<open>None\<close> is the panic on a wrong declaration.\<close>

definition Role :: "string \<Rightarrow> string list \<Rightarrow> (string \<times> PermSet) option" where
  "Role name statements =
     (if name = [] then None
      else case NewSet statements of Inl e \<Rightarrow> None | Inr s \<Rightarrow> Some (name, s))"

definition declared :: "orgPlugin \<Rightarrow> PermSet" where
  "declared p = foldl (\<lambda>acc d. unionSets acc [snd d]) emptySet (pg_roles p)"

text \<open>\<open>validate\<close> fills the default role and the owner role.\<close>

definition validate :: "orgPlugin \<Rightarrow> orgPlugin res" where
  "validate p =
     (if pg_roles p = [] then Inl (ErrOther ''authall/organizations: the plugin needs at least one role'')
      else if \<not> distinct (map fst (pg_roles p)) then Inl (ErrOther ''authall/organizations: a role is declared twice'')
      else
        let dr = (if pg_defaultRole p = [] then fst (last (pg_roles p)) else pg_defaultRole p) in
        if dr \<notin> set (map fst (pg_roles p)) then Inl (ErrOther ''authall/organizations: the default role is not declared'')
        else
          let orole = (if pg_ownerRole p = [] then fst (hd (pg_roles p)) else pg_ownerRole p) in
          if orole \<notin> set (map fst (pg_roles p)) then Inl (ErrOther ''authall/organizations: the owner role is not declared'')
          else if pg_maxMembers p < 0 then Inl (ErrOther ''authall/organizations: the member limit is negative'')
          else Inr (p\<lparr>pg_defaultRole := dr, pg_ownerRole := orole\<rparr>))"

definition PermissionsOf :: "orgPlugin \<Rightarrow> string \<Rightarrow> PermSet option" where
  "PermissionsOf p role = map_of (pg_roles p) role"

definition builtIn :: "orgPlugin \<Rightarrow> string \<Rightarrow> PermSet" where
  "builtIn p role = (case PermissionsOf p role of None \<Rightarrow> emptySet | Some s \<Rightarrow> s)"

section \<open>The permissions of a request\<close>

text \<open>The union with the role of every team of the member.\<close>

fun withTeamRoles :: "orgPlugin \<Rightarrow> PermSet \<Rightarrow> string list \<Rightarrow> PermSet" where
  "withTeamRoles p s [] = s"
| "withTeamRoles p s (role # roles) =
     (case PermissionsOf p role of
        None \<Rightarrow> withTeamRoles p s roles
      | Some t \<Rightarrow> withTeamRoles p (unionSets s [t]) roles)"

definition withExtra :: "PermSet \<Rightarrow> string list \<Rightarrow> PermSet" where
  "withExtra s statements =
     (if statements = [] then s
      else case NewSet statements of Inl e \<Rightarrow> s | Inr extra \<Rightarrow> unionSets s [extra])"

text \<open>\<open>activePermissions\<close> on the principal that the context of the request carries (\<open>withPrincipal\<close> of
  \<open>principal.go\<close>): \<open>None\<close> without an active organization.\<close>

definition activePermissions :: "orgPlugin \<Rightarrow> Principal \<Rightarrow> PermSet option" where
  "activePermissions p q =
     (case (pr_Organization q, pr_Membership q) of
        (Some org, Some m) \<Rightarrow>
          if mb_Status m \<noteq> MembershipActive then Some emptySet
          else Some (withExtra (withTeamRoles p (builtIn p (mb_Role m)) (Fields (mb_TeamRoles m)))
                 (Fields (mb_Permissions m)))
      | _ \<Rightarrow> None)"

definition Can :: "orgPlugin \<Rightarrow> Principal \<Rightarrow> string \<Rightarrow> bool" where
  "Can p q statement = (case activePermissions p q of None \<Rightarrow> False | Some s \<Rightarrow> Allows s statement)"

text \<open>\<open>Require\<close>; \<open>None\<close> is the panic on a statement that is malformed or that no role holds.\<close>

definition RequirePermission ::
  "host \<Rightarrow> orgPlugin \<Rightarrow> string \<Rightarrow> httpRequest \<Rightarrow> (Principal \<Rightarrow> (sys, 'a) oper) \<Rightarrow> (sys, 'a) oper option" where
  "RequirePermission h p statement r next =
     (case Parse statement of
        Inl e \<Rightarrow> None
      | Inr st \<Rightarrow>
          if \<not> Covers (declared p) st then None
          else Some (RequireAuth h r (\<lambda>q. case activePermissions p q of
                 None \<Rightarrow> fail (api CodeNoActiveOrganization)
               | Some s \<Rightarrow> if \<not> Covers s st then fail (api CodePermissionDenied) else next q)))"

definition CanObject :: "orgPlugin \<Rightarrow> Principal \<Rightarrow> string \<Rightarrow> string \<Rightarrow> bool res" where
  "CanObject p q action obj =
     (case pg_objects p of
        None \<Rightarrow> Inl (ErrOther ''authall/organizations: no object checker is configured'')
      | Some check \<Rightarrow>
          (case (pr_Organization q, pr_Membership q) of
             (Some org, Some m) \<Rightarrow>
               check \<lparr>oq_SubjectID = mb_UserID m, oq_OrgID = og_ID org, oq_Role = mb_Role m,
                  oq_Permissions = Statements (case activePermissions p q of None \<Rightarrow> emptySet | Some s \<Rightarrow> s),
                  oq_Action = action, oq_Object = obj\<rparr>
           | _ \<Rightarrow> Inr False))"

section \<open>The permissions of a member\<close>

definition notFound :: "err \<Rightarrow> err" where
  "notFound e = (if isNotFound e then api CodeNotFound else e)"

definition notAMember :: "err \<Rightarrow> err" where
  "notAMember e = (if isNotFound e then api CodeNotAMember else e)"

definition slugError :: "err \<Rightarrow> err" where
  "slugError e = (if isConflict e then api CodeSlugTaken else e)"

text \<open>\<open>knownRole\<close>: \<open>None\<close> is a role that the organization does not hold.\<close>

definition knownRole :: "orgPlugin \<Rightarrow> string \<Rightarrow> string \<Rightarrow> (sys, PermSet option) oper" where
  "knownRole p orgID role =
     (if role = [] then ret None
      else case PermissionsOf p role of
             Some s \<Rightarrow> ret (Some s)
           | None \<Rightarrow>
               caught (CustomRoleByName orgID role) (\<lambda>r. case r of
                   Inl e \<Rightarrow> if isNotFound e then ret None else fail e
                 | Inr custom \<Rightarrow>
                     (case NewSet (Fields (cu_Permissions custom)) of
                        Inl e \<Rightarrow> ret (Some emptySet)
                      | Inr s \<Rightarrow> ret (Some s))))"

definition permissionsOfMembership :: "orgPlugin \<Rightarrow> Membership option \<Rightarrow> (sys, PermSet) oper" where
  "permissionsOfMembership p member =
     (case member of
        None \<Rightarrow> ret emptySet
      | Some m \<Rightarrow>
          if mb_Status m \<noteq> MembershipActive then ret emptySet
          else andThen (knownRole p (mb_OrgID m) (mb_Role m)) (\<lambda>known.
               ret (withExtra (withTeamRoles p (case known of None \<Rightarrow> emptySet | Some s \<Rightarrow> s) (Fields (mb_TeamRoles m)))
                      (Fields (mb_Permissions m)))))"

definition membershipOf :: "string \<Rightarrow> string \<Rightarrow> (sys, Membership) oper" where
  "membershipOf orgID userID = mapFail notAMember (MembershipOf orgID userID)"

definition authorize :: "orgPlugin \<Rightarrow> string \<Rightarrow> string \<Rightarrow> string \<Rightarrow> (sys, Membership \<times> PermSet) oper" where
  "authorize p orgID userID statement =
     andThen (membershipOf orgID userID) (\<lambda>m.
     andThen (permissionsOfMembership p (Some m)) (\<lambda>s.
     if \<not> Allows s statement then fail (api CodePermissionDenied) else ret (m, s)))"

definition PermissionOrgRead :: string where "PermissionOrgRead = ''organization:read''"
definition PermissionOrgUpdate :: string where "PermissionOrgUpdate = ''organization:update''"
definition PermissionOrgDelete :: string where "PermissionOrgDelete = ''organization:delete''"
definition PermissionMemberRead :: string where "PermissionMemberRead = ''member:read''"
definition PermissionMemberWrite :: string where "PermissionMemberWrite = ''member:write''"
definition PermissionMemberAdd :: string where "PermissionMemberAdd = ''member:invite''"
definition PermissionRoleWrite :: string where "PermissionRoleWrite = ''role:write''"
definition PermissionTeamWrite :: string where "PermissionTeamWrite = ''team:write''"

text \<open>The check that an actor holds a permission, and that it covers what it hands out.\<close>

definition asActor :: "orgPlugin \<Rightarrow> User option \<Rightarrow> string \<Rightarrow> string \<Rightarrow> (sys, unit) oper" where
  "asActor p actor orgID statement =
     (case actor of
        None \<Rightarrow> ret ()
      | Some u \<Rightarrow> andThen (authorize p orgID (u_ID u) statement) (\<lambda>_. ret ()))"

definition mayGrant :: "orgPlugin \<Rightarrow> User option \<Rightarrow> string \<Rightarrow> string \<Rightarrow> PermSet \<Rightarrow> (sys, unit) oper" where
  "mayGrant p actor orgID statement granted =
     (case actor of
        None \<Rightarrow> ret ()
      | Some u \<Rightarrow>
          andThen (authorize p orgID (u_ID u) statement) (\<lambda>(_, held).
          if \<not> CoversSet held granted then fail (api CodeRoleNotAllowed) else ret ()))"

definition actorID :: "User option \<Rightarrow> string" where
  "actorID actor = (case actor of None \<Rightarrow> [] | Some u \<Rightarrow> u_ID u)"

definition orgEmit :: "string \<Rightarrow> string \<Rightarrow> string \<Rightarrow> (string \<times> string) list \<Rightarrow> (sys, unit) oper" where
  "orgEmit name userID orgID fs = emit name userID (fs @ [(''orgId'', orgID)])"

section \<open>Organizations\<close>

definition maxNameLength :: nat where "maxNameLength = 200"

definition slugPattern :: "string \<Rightarrow> bool" where
  "slugPattern s = (case s of [] \<Rightarrow> False
     | c # cs \<Rightarrow> (is_lower c \<or> is_digit c) \<and> length cs \<le> 62 \<and>
         list_all (\<lambda>x. is_lower x \<or> is_digit x \<or> x = CHR ''-'') cs)"

record CreateOrgInput =
  cg_Name :: string
  cg_Slug :: string
  cg_OwnerID :: string

definition createOrgTx :: "orgPlugin \<Rightarrow> User option \<Rightarrow> Organization \<Rightarrow> Membership \<Rightarrow> (sys, unit) oper" where
  "createOrgTx p actor org member =
     andThen (veto (pg_beforeOrg p ''OrganizationCreate'' org actor)) (\<lambda>_.
     andThen (mapFail slugError (CreateOrganization org)) (\<lambda>_.
     CreateMembership member))"

definition CreateOrg :: "orgPlugin \<Rightarrow> User option \<Rightarrow> CreateOrgInput \<Rightarrow> (sys, Organization) oper" where
  "CreateOrg p actor i =
     (let name = TrimSpace (cg_Name i); slug = TrimSpace (cg_Slug i) in
      if name = [] \<or> length name > maxNameLength then fail (api CodeInvalidRequest)
      else if slug = [] then fail (api CodeInvalidRequest)
      else if \<not> slugPattern slug then fail (api CodeInvalidRequest)
      else if cg_OwnerID i = [] \<and> actor = None then fail (api CodeUnauthorized)
      else
        let ownerID = (if cg_OwnerID i = [] then actorID actor else cg_OwnerID i) in
        andThen now (\<lambda>at.
        andThen newUUID (\<lambda>oid.
        andThen newUUID (\<lambda>mid.
        let org = \<lparr>og_ID = oid, og_Name = name, og_Slug = slug, og_CreatedAt = at, og_UpdatedAt = at\<rparr>;
            member = \<lparr>mb_ID = mid, mb_OrgID = oid, mb_UserID = ownerID, mb_Role = pg_ownerRole p,
                      mb_Status = MembershipActive, mb_JoinedAt = at, mb_Permissions = [], mb_TeamRoles = []\<rparr>
        in andThen (transaction (createOrgTx p actor org member)) (\<lambda>_.
           andThen (runAfter ''OrganizationCreate'' oid) (\<lambda>_.
           andThen (runAfter ''MembershipChange'' mid) (\<lambda>_.
           andThen (orgEmit ''auth.organization_created'' (actorID actor) oid [(''slug'', slug), (''name'', name)]) (\<lambda>_.
           andThen (orgEmit ''auth.member_added'' (actorID actor) oid
             [(''memberId'', ownerID), (''role'', pg_ownerRole p)]) (\<lambda>_. ret org)))))))))"

record UpdateOrgInput =
  ug_Name :: "string option"
  ug_Slug :: "string option"

definition updateOrgTx ::
  "orgPlugin \<Rightarrow> User option \<Rightarrow> string \<Rightarrow> string option \<Rightarrow> string option \<Rightarrow> (sys, Organization) oper" where
  "updateOrgTx p actor orgID name slug =
     andThen (mapFail notFound (OrganizationByID orgID)) (\<lambda>org0.
     andThen now (\<lambda>at.
     let org1 = (case name of None \<Rightarrow> org0 | Some n \<Rightarrow> org0\<lparr>og_Name := n\<rparr>);
         org2 = (case slug of None \<Rightarrow> org1 | Some x \<Rightarrow> org1\<lparr>og_Slug := x\<rparr>);
         org = org2\<lparr>og_UpdatedAt := at\<rparr>
     in andThen (veto (pg_beforeOrg p ''OrganizationUpdate'' org actor)) (\<lambda>_.
        andThen (mapFail slugError (UpdateOrganization org)) (\<lambda>_. ret org))))"

definition UpdateOrg :: "orgPlugin \<Rightarrow> User option \<Rightarrow> string \<Rightarrow> UpdateOrgInput \<Rightarrow> (sys, Organization) oper" where
  "UpdateOrg p actor orgID i =
     (let name = map_option TrimSpace (ug_Name i); slug = map_option TrimSpace (ug_Slug i) in
      if (case name of None \<Rightarrow> False | Some n \<Rightarrow> n = [] \<or> length n > maxNameLength) then fail (api CodeInvalidRequest)
      else if (case slug of None \<Rightarrow> False | Some x \<Rightarrow> \<not> slugPattern x) then fail (api CodeInvalidRequest)
      else
        andThen (transaction (updateOrgTx p actor orgID name slug)) (\<lambda>out.
        andThen (runAfter ''OrganizationUpdate'' (og_ID out)) (\<lambda>_.
        andThen (orgEmit ''auth.organization_updated'' (actorID actor) (og_ID out)
          [(''slug'', og_Slug out), (''name'', og_Name out)]) (\<lambda>_. ret out))))"

definition deleteOrgTx :: "orgPlugin \<Rightarrow> User option \<Rightarrow> string \<Rightarrow> (sys, Organization) oper" where
  "deleteOrgTx p actor orgID =
     andThen (mapFail notFound (OrganizationByID orgID)) (\<lambda>org.
     andThen (veto (pg_beforeOrg p ''OrganizationDelete'' org actor)) (\<lambda>_.
     andThen (pg_onDelete p (og_ID org)) (\<lambda>_.
     andThen (mapFail notFound (DeleteOrganization orgID)) (\<lambda>_. ret org))))"

definition DeleteOrg :: "orgPlugin \<Rightarrow> User option \<Rightarrow> string \<Rightarrow> (sys, unit) oper" where
  "DeleteOrg p actor orgID =
     andThen (transaction (deleteOrgTx p actor orgID)) (\<lambda>org.
     andThen (runAfter ''OrganizationDelete'' (og_ID org)) (\<lambda>_.
     orgEmit ''auth.organization_deleted'' (actorID actor) (og_ID org) [(''slug'', og_Slug org)]))"

definition ListOrgs :: "string \<Rightarrow> int \<Rightarrow> string \<Rightarrow> (sys, Organization list \<times> string) oper" where
  "ListOrgs userID limit cursor =
     ListOrganizations \<lparr>gf_UserID = userID, gf_Limit = limit, gf_Cursor = cursor\<rparr>"

definition GetOrg :: "string \<Rightarrow> (sys, Organization) oper" where
  "GetOrg orgID = mapFail notFound (OrganizationByID orgID)"

section \<open>Members\<close>

definition ListOrgMembers :: "string \<Rightarrow> MemberFilter \<Rightarrow> (sys, Membership list \<times> string) oper" where
  "ListOrgMembers orgID f = ListMembers (f\<lparr>mf_OrgID := orgID\<rparr>)"

definition guardOwner :: "orgPlugin \<Rightarrow> string \<Rightarrow> Membership \<Rightarrow> string \<Rightarrow> string \<Rightarrow> (sys, unit) oper" where
  "guardOwner p orgID m nextRole nextStatus =
     (if mb_Role m \<noteq> pg_ownerRole p \<or> mb_Status m \<noteq> MembershipActive then ret ()
      else if nextRole = pg_ownerRole p \<and> nextStatus = MembershipActive then ret ()
      else andThen (LockActiveMembersWithRole orgID (pg_ownerRole p)) (\<lambda>owners.
           if countWhere (\<lambda>i. i \<noteq> mb_UserID m) owners = 0 then fail (api CodeLastOwner) else ret ()))"

definition setRoleTx ::
  "orgPlugin \<Rightarrow> User option \<Rightarrow> string \<Rightarrow> string \<Rightarrow> string \<Rightarrow> (sys, Membership \<times> string) oper" where
  "setRoleTx p actor orgID userID role =
     andThen (mapFail notFound (OrganizationByID orgID)) (\<lambda>_.
     andThen (mapFail notAMember (MembershipOf orgID userID)) (\<lambda>m.
     if mb_Role m = role then ret (m, mb_Role m)
     else
       andThen (guardOwner p orgID m role (mb_Status m)) (\<lambda>_.
       andThen (veto (pg_beforeMembership p (m\<lparr>mb_Role := role\<rparr>) actor)) (\<lambda>_.
       andThen (mapFail notAMember (UpdateMembership (m\<lparr>mb_Role := role\<rparr>))) (\<lambda>_.
       ret (m\<lparr>mb_Role := role\<rparr>, mb_Role m))))))"

definition SetRole :: "orgPlugin \<Rightarrow> User option \<Rightarrow> string \<Rightarrow> string \<Rightarrow> string \<Rightarrow> (sys, Membership) oper" where
  "SetRole p actor orgID userID role =
     andThen (knownRole p orgID role) (\<lambda>known. case known of
         None \<Rightarrow> fail (api CodeRoleUnknown)
       | Some granted \<Rightarrow>
           andThen (mayGrant p actor orgID PermissionMemberWrite granted) (\<lambda>_.
           andThen (transaction (setRoleTx p actor orgID userID role)) (\<lambda>(out, previous).
           if previous \<noteq> mb_Role out then
             andThen (runAfter ''MembershipChange'' (mb_ID out)) (\<lambda>_.
             andThen (orgEmit ''auth.member_role_changed'' (actorID actor) orgID
               [(''memberId'', userID), (''from'', previous), (''to'', mb_Role out)]) (\<lambda>_. ret out))
           else ret out)))"

definition setStatusTx ::
  "orgPlugin \<Rightarrow> User option \<Rightarrow> string \<Rightarrow> string \<Rightarrow> string \<Rightarrow> (sys, Membership \<times> bool) oper" where
  "setStatusTx p actor orgID userID status =
     andThen (mapFail notFound (OrganizationByID orgID)) (\<lambda>_.
     andThen (mapFail notAMember (MembershipOf orgID userID)) (\<lambda>m.
     if mb_Status m = status then ret (m, False)
     else
       andThen (guardOwner p orgID m (mb_Role m) status) (\<lambda>_.
       andThen (veto (pg_beforeMembership p (m\<lparr>mb_Status := status\<rparr>) actor)) (\<lambda>_.
       andThen (mapFail notAMember (UpdateMembership (m\<lparr>mb_Status := status\<rparr>))) (\<lambda>_.
       ret (m\<lparr>mb_Status := status\<rparr>, True))))))"

definition SetStatus :: "orgPlugin \<Rightarrow> User option \<Rightarrow> string \<Rightarrow> string \<Rightarrow> string \<Rightarrow> (sys, Membership) oper" where
  "SetStatus p actor orgID userID status =
     (if status \<noteq> MembershipActive \<and> status \<noteq> MembershipSuspended then fail (api CodeInvalidRequest)
      else
        andThen (asActor p actor orgID PermissionMemberWrite) (\<lambda>_.
        andThen (transaction (setStatusTx p actor orgID userID status)) (\<lambda>(out, changed).
        if changed then
          andThen (runAfter ''MembershipChange'' (mb_ID out)) (\<lambda>_.
          andThen (orgEmit (if status = MembershipSuspended then ''auth.member_suspended'' else ''auth.member_restored'')
            (actorID actor) orgID [(''memberId'', userID)]) (\<lambda>_. ret out))
        else ret out)))"

definition Suspend :: "orgPlugin \<Rightarrow> User option \<Rightarrow> string \<Rightarrow> string \<Rightarrow> (sys, Membership) oper" where
  "Suspend p actor orgID userID = SetStatus p actor orgID userID MembershipSuspended"

definition Restore :: "orgPlugin \<Rightarrow> User option \<Rightarrow> string \<Rightarrow> string \<Rightarrow> (sys, Membership) oper" where
  "Restore p actor orgID userID = SetStatus p actor orgID userID MembershipActive"

definition removeTx :: "orgPlugin \<Rightarrow> User option \<Rightarrow> string \<Rightarrow> string \<Rightarrow> (sys, Membership) oper" where
  "removeTx p actor orgID userID =
     andThen (mapFail notFound (OrganizationByID orgID)) (\<lambda>_.
     andThen (mapFail notAMember (MembershipOf orgID userID)) (\<lambda>m.
     andThen (guardOwner p orgID m [] MembershipSuspended) (\<lambda>_.
     andThen (veto (pg_beforeMembership p m actor)) (\<lambda>_.
     andThen (mapFail notAMember (DeleteMembership orgID userID)) (\<lambda>_.
     andThen (ClearActiveOrganization orgID userID) (\<lambda>_. ret m))))))"

definition RemoveMember :: "orgPlugin \<Rightarrow> User option \<Rightarrow> string \<Rightarrow> string \<Rightarrow> (sys, unit) oper" where
  "RemoveMember p actor orgID userID =
     andThen (if actor \<noteq> None \<and> actorID actor \<noteq> userID then asActor p actor orgID PermissionMemberWrite else ret ()) (\<lambda>_.
     andThen (transaction (removeTx p actor orgID userID)) (\<lambda>removed.
     andThen (runAfter ''MembershipChange'' (mb_ID removed)) (\<lambda>_.
     orgEmit ''auth.member_removed'' (actorID actor) orgID [(''memberId'', userID), (''role'', mb_Role removed)])))"

definition guardMemberLimit :: "orgPlugin \<Rightarrow> string \<Rightarrow> time \<Rightarrow> (sys, unit) oper" where
  "guardMemberLimit p orgID at =
     (if pg_maxMembers p \<le> 0 then ret ()
      else andThen (CountMembers orgID) (\<lambda>count.
           andThen (CountPendingInvitations orgID at) (\<lambda>pending.
           if int (count + pending) \<ge> pg_maxMembers p then fail (api CodeMemberLimit) else ret ())))"

end
