(* ===== verification/Org_Access.thy ===== *)
theory Org_Access
  imports Organizations
begin

text \<open>
  Invitations, custom roles, teams, the active organization, the personal organization and the routes of
  \<open>plugins/organizations\<close>, and the contract of \<open>OrganizationResolver\<close> that \<open>plugins/apikeys\<close> asks this plugin to
  fulfil.
\<close>

section \<open>Invitations\<close>

definition DefaultInvitationTTL :: duration where "DefaultInvitationTTL = 604800000000000"

definition invitationTTL :: "orgPlugin \<Rightarrow> duration" where
  "invitationTTL p = (if pg_invitationLifetime p \<le> 0 then DefaultInvitationTTL else pg_invitationLifetime p)"

definition invitationInvalid :: "err \<Rightarrow> err" where
  "invitationInvalid e = (if isNotFound e then api CodeInvitationInvalid else e)"

text \<open>A read whose absent row is no error.\<close>

definition orAbsent :: "(sys, 'a) oper \<Rightarrow> (sys, 'a option) oper" where
  "orAbsent m = caught m (\<lambda>r. case r of
      Inr x \<Rightarrow> ret (Some x)
    | Inl e \<Rightarrow> if isNotFound e then ret None else fail e)"

record InviteInput =
  in_OrgID :: string
  in_Email :: string
  in_Role :: string

definition inviteTx :: "orgPlugin \<Rightarrow> Invitation \<Rightarrow> time \<Rightarrow> (sys, unit) oper" where
  "inviteTx p invite at =
     andThen (mapFail notFound (OrganizationByID (iv_OrgID invite))) (\<lambda>_.
     andThen (orAbsent (Users_GetByNormalizedEmail (iv_EmailNormalized invite))) (\<lambda>user.
     andThen (case user of
         None \<Rightarrow> ret ()
       | Some u \<Rightarrow>
           andThen (orAbsent (MembershipOf (iv_OrgID invite) (u_ID u))) (\<lambda>m.
           case m of None \<Rightarrow> ret () | Some _ \<Rightarrow> fail (api CodeAlreadyMember))) (\<lambda>_.
     andThen (guardMemberLimit p (iv_OrgID invite) at) (\<lambda>_.
     CreateInvitation invite))))"

definition Invite :: "orgPlugin \<Rightarrow> User option \<Rightarrow> InviteInput \<Rightarrow> (sys, Invitation \<times> string) oper" where
  "Invite p actor i =
     (let address = Normalize (in_Email i); role = (if in_Role i = [] then pg_defaultRole p else in_Role i) in
      if address = [] \<or> \<not> Valid (cf_parseAddress (pg_cfg p)) address then fail (api CodeInvalidRequest)
      else
        andThen (knownRole p (in_OrgID i) role) (\<lambda>known. case known of
            None \<Rightarrow> fail (api CodeRoleUnknown)
          | Some granted \<Rightarrow>
              andThen (mayGrant p actor (in_OrgID i) PermissionMemberAdd granted) (\<lambda>_.
              andThen (mapFail (with_cause CodeInternal) NewToken) (\<lambda>token.
              andThen now (\<lambda>at.
              andThen newUUID (\<lambda>uuid.
              let invite = \<lparr>iv_ID = uuid, iv_OrgID = in_OrgID i, iv_EmailNormalized = address, iv_Role = role,
                         iv_InvitedBy = actorID actor, iv_TokenHash = cf_hash (pg_cfg p) token,
                         iv_Status = InvitationPending, iv_ExpiresAt = at + invitationTTL p, iv_CreatedAt = at\<rparr>
              in andThen (transaction (inviteTx p invite at)) (\<lambda>_.
                 andThen (orgEmit ''auth.invitation_created'' (actorID actor) (in_OrgID i)
                   [(''invitationId'', uuid), (''email'', address), (''role'', role)]) (\<lambda>_.
                 ret (invite, token)))))))))"

definition acceptTx :: "orgPlugin \<Rightarrow> User \<Rightarrow> string \<Rightarrow> (sys, Membership) oper" where
  "acceptTx p user hsh =
     andThen (mapFail invitationInvalid (InvitationByTokenHash hsh)) (\<lambda>pending.
     if iv_EmailNormalized pending \<noteq> u_EmailNormalized user then fail (api CodeInvitationInvalid)
     else
       andThen now (\<lambda>at.
       andThen (mapFail invitationInvalid (ConsumeInvitation hsh at)) (\<lambda>accepted.
       andThen newUUID (\<lambda>uuid.
       let member = \<lparr>mb_ID = uuid, mb_OrgID = iv_OrgID accepted, mb_UserID = u_ID user, mb_Role = iv_Role accepted,
                     mb_Status = MembershipActive, mb_JoinedAt = at, mb_Permissions = [], mb_TeamRoles = []\<rparr>
       in andThen (mapFail (\<lambda>e. if isConflict e then api CodeAlreadyMember else e) (CreateMembership member))
            (\<lambda>_. ret member)))))"

definition AcceptInvitation :: "orgPlugin \<Rightarrow> User option \<Rightarrow> string \<Rightarrow> (sys, Membership) oper" where
  "AcceptInvitation p user token =
     (case user of
        None \<Rightarrow> fail (api CodeUnauthorized)
      | Some u \<Rightarrow>
          if token = [] then fail (api CodeInvitationInvalid)
          else
            andThen (transaction (acceptTx p u (cf_hash (pg_cfg p) token))) (\<lambda>member.
            andThen (runAfter ''MembershipChange'' (mb_ID member)) (\<lambda>_.
            andThen (orgEmit ''auth.invitation_accepted'' (u_ID u) (mb_OrgID member)
              [(''memberId'', u_ID u), (''role'', mb_Role member)]) (\<lambda>_.
            andThen (orgEmit ''auth.member_added'' (u_ID u) (mb_OrgID member)
              [(''memberId'', u_ID u), (''role'', mb_Role member)]) (\<lambda>_. ret member)))))"

definition RevokeInvitation :: "orgPlugin \<Rightarrow> User option \<Rightarrow> string \<Rightarrow> string \<Rightarrow> (sys, unit) oper" where
  "RevokeInvitation p actor orgID invitationID =
     andThen (asActor p actor orgID PermissionMemberAdd) (\<lambda>_.
     andThen (mapFail invitationInvalid (InvitationByID invitationID)) (\<lambda>invite.
     if iv_OrgID invite \<noteq> orgID then fail (api CodeInvitationInvalid)
     else
       andThen (mapFail invitationInvalid (SetInvitationStatus invitationID InvitationPending InvitationRevoked)) (\<lambda>_.
       orgEmit ''auth.invitation_revoked'' (actorID actor) orgID [(''invitationId'', invitationID)])))"

definition ListOrgInvitations :: "string \<Rightarrow> InvitationFilter \<Rightarrow> (sys, Invitation list \<times> string) oper" where
  "ListOrgInvitations orgID f = ListInvitations (f\<lparr>if_OrgID := orgID\<rparr>)"

section \<open>Custom roles\<close>

definition customRoleNamePattern :: "string \<Rightarrow> bool" where
  "customRoleNamePattern s = (case s of [] \<Rightarrow> False
     | c # cs \<Rightarrow> (is_lower c \<or> is_digit c) \<and> length cs \<le> 62 \<and>
         list_all (\<lambda>x. is_lower x \<or> is_digit x \<or> x = CHR ''_'' \<or> x = CHR ''-'') cs)"

definition CreateRole :: "orgPlugin \<Rightarrow> User option \<Rightarrow> string \<Rightarrow> string \<Rightarrow> string list \<Rightarrow> (sys, CustomRole) oper" where
  "CreateRole p actor orgID name0 statements =
     (if \<not> pg_allowCustomRoles p then fail (api CodeForbidden)
      else
        let name = TrimSpace name0 in
        if \<not> customRoleNamePattern name then fail (api CodeInvalidRequest)
        else if PermissionsOf p name \<noteq> None then fail (api CodeInvalidRequest)
        else case NewSet statements of
               Inl e \<Rightarrow> fail (api CodeInvalidRequest)
             | Inr granted \<Rightarrow>
                 if Set_Empty granted then fail (api CodeInvalidRequest)
                 else
                   andThen (mayGrant p actor orgID PermissionRoleWrite granted) (\<lambda>_.
                   andThen newUUID (\<lambda>uuid.
                   andThen now (\<lambda>at.
                   let role = \<lparr>cu_ID = uuid, cu_OrgID = orgID, cu_Name = name,
                               cu_Permissions = Join (Statements granted) '' '', cu_CreatedAt = at\<rparr>
                   in andThen (mapFail notFound (OrganizationByID orgID)) (\<lambda>_.
                      andThen (mapFail (\<lambda>e. if isConflict e then api CodeInvalidRequest else e) (CreateCustomRole role)) (\<lambda>_.
                      andThen (orgEmit ''auth.custom_role_created'' (actorID actor) orgID
                        [(''role'', name), (''permissions'', cu_Permissions role)]) (\<lambda>_. ret role)))))))"

definition DeleteRole :: "orgPlugin \<Rightarrow> User option \<Rightarrow> string \<Rightarrow> string \<Rightarrow> (sys, unit) oper" where
  "DeleteRole p actor orgID name =
     andThen (asActor p actor orgID PermissionRoleWrite) (\<lambda>_.
     andThen (mapFail notFound (DeleteCustomRole orgID name)) (\<lambda>_.
     orgEmit ''auth.custom_role_deleted'' (actorID actor) orgID [(''role'', name)]))"

section \<open>The credential of an API key\<close>

text \<open>A statement of the key survives when the live set covers its whole reach.\<close>

definition intersect :: "PermSet \<Rightarrow> PermSet \<Rightarrow> string list" where
  "intersect key live =
     filter (\<lambda>statement. case Parse statement of Inl e \<Rightarrow> False | Inr st \<Rightarrow> Covers live st) (Statements key)"

definition KeyCredential ::
  "orgPlugin \<Rightarrow> string \<Rightarrow> string \<Rightarrow> string \<Rightarrow> (sys, Organization \<times> Membership \<times> string list) oper" where
  "KeyCredential p orgID ownerID role =
     andThen (mapFail notFound (OrganizationByID orgID)) (\<lambda>org.
     andThen (membershipOf orgID ownerID) (\<lambda>member.
     if mb_Status member \<noteq> MembershipActive then fail (api CodeNotAMember)
     else
       andThen (permissionsOfMembership p (Some member)) (\<lambda>live.
       andThen (knownRole p orgID role) (\<lambda>known.
       ret (org, member, intersect (case known of None \<Rightarrow> emptySet | Some s \<Rightarrow> s) live)))))"

definition KnownRole :: "orgPlugin \<Rightarrow> string \<Rightarrow> string \<Rightarrow> (sys, bool) oper" where
  "KnownRole p orgID role = andThen (knownRole p orgID role) (\<lambda>known. ret (known \<noteq> None))"

text \<open>The plugin as the resolver of the keys.\<close>

definition orgKeyResolver :: "orgPlugin \<Rightarrow> keyResolver" where
  "orgKeyResolver p = \<lparr>kr_KeyCredential = KeyCredential p, kr_KnownRole = KnownRole p\<rparr>"

section \<open>Teams\<close>

definition CreateOrgTeam :: "orgPlugin \<Rightarrow> User option \<Rightarrow> string \<Rightarrow> string \<Rightarrow> string \<Rightarrow> (sys, Team) oper" where
  "CreateOrgTeam p actor orgID name0 role =
     (let name = TrimSpace name0 in
      if name = [] \<or> RuneCount name > 100 then fail (api CodeInvalidRequest)
      else
        andThen (if role \<noteq> [] then
            andThen (knownRole p orgID role) (\<lambda>known. case known of
                None \<Rightarrow> fail (api CodeRoleUnknown)
              | Some granted \<Rightarrow> mayGrant p actor orgID PermissionTeamWrite granted)
          else asActor p actor orgID PermissionTeamWrite) (\<lambda>_.
        andThen (mapFail notFound (OrganizationByID orgID)) (\<lambda>_.
        andThen newUUID (\<lambda>uuid.
        andThen now (\<lambda>at.
        let team = \<lparr>te_ID = uuid, te_OrgID = orgID, te_Name = name, te_Role = role, te_CreatedAt = at\<rparr>
        in andThen (mapFail (\<lambda>e. if isConflict e then api CodeInvalidRequest else e) (CreateTeam team)) (\<lambda>_.
           andThen (orgEmit ''auth.team_created'' (actorID actor) orgID
             [(''teamId'', uuid), (''team'', name), (''role'', role)]) (\<lambda>_. ret team)))))))"

definition teamOf :: "string \<Rightarrow> string \<Rightarrow> (sys, Team) oper" where
  "teamOf orgID teamID =
     andThen (mapFail notFound (TeamByID teamID)) (\<lambda>team.
     if te_OrgID team \<noteq> orgID then fail (api CodeNotFound) else ret team)"

definition DeleteOrgTeam :: "orgPlugin \<Rightarrow> User option \<Rightarrow> string \<Rightarrow> string \<Rightarrow> (sys, unit) oper" where
  "DeleteOrgTeam p actor orgID teamID =
     andThen (teamOf orgID teamID) (\<lambda>team.
     andThen (asActor p actor orgID PermissionTeamWrite) (\<lambda>_.
     andThen (mapFail notFound (DeleteTeam (te_ID team))) (\<lambda>_.
     orgEmit ''auth.team_deleted'' (actorID actor) orgID [(''teamId'', teamID)])))"

definition AddOrgTeamMember :: "orgPlugin \<Rightarrow> User option \<Rightarrow> string \<Rightarrow> string \<Rightarrow> string \<Rightarrow> (sys, unit) oper" where
  "AddOrgTeamMember p actor orgID teamID userID =
     andThen (teamOf orgID teamID) (\<lambda>team.
     andThen (asActor p actor orgID PermissionTeamWrite) (\<lambda>_.
     andThen (membershipOf orgID userID) (\<lambda>_.
     andThen (mapFail (\<lambda>e. if isConflict e then api CodeAlreadyMember else e) (AddTeamMember (te_ID team) userID)) (\<lambda>_.
     orgEmit ''auth.team_member_added'' (actorID actor) orgID [(''teamId'', te_ID team), (''memberId'', userID)]))))"

definition RemoveOrgTeamMember :: "orgPlugin \<Rightarrow> User option \<Rightarrow> string \<Rightarrow> string \<Rightarrow> string \<Rightarrow> (sys, unit) oper" where
  "RemoveOrgTeamMember p actor orgID teamID userID =
     andThen (teamOf orgID teamID) (\<lambda>team.
     andThen (asActor p actor orgID PermissionTeamWrite) (\<lambda>_.
     andThen (mapFail notFound (RemoveTeamMember (te_ID team) userID)) (\<lambda>_.
     orgEmit ''auth.team_member_removed'' (actorID actor) orgID [(''teamId'', te_ID team), (''memberId'', userID)])))"

section \<open>The active organization\<close>

definition setActiveSession :: "orgPlugin \<Rightarrow> User \<Rightarrow> Session \<Rightarrow> string \<Rightarrow> (sys, unit) oper" where
  "setActiveSession p user sess orgID =
     (if orgID = [] then SetActiveOrganization (se_ID sess) []
      else
        andThen (mapFail notFound (OrganizationByID orgID)) (\<lambda>_.
        andThen (membershipOf orgID (u_ID user)) (\<lambda>m.
        if mb_Status m \<noteq> MembershipActive then fail (api CodeNotAMember)
        else
          andThen (SetActiveOrganization (se_ID sess) orgID) (\<lambda>_.
          orgEmit ''auth.active_organization_set'' (u_ID user) orgID []))))"

text \<open>\<open>SetActive\<close> on the principal of the request.\<close>

definition SetActive :: "orgPlugin \<Rightarrow> Principal option \<Rightarrow> string \<Rightarrow> (sys, unit) oper" where
  "SetActive p principal0 orgID =
     (case principal0 of
        None \<Rightarrow> fail (api CodeUnauthorized)
      | Some q \<Rightarrow>
          (case pr_Session q of
             None \<Rightarrow> fail (api CodeForbidden)
           | Some sess \<Rightarrow> setActiveSession p (pr_User q) sess orgID))"

section \<open>The personal organization\<close>

definition localPart :: "string \<Rightarrow> string" where
  "localPart address = (case Cut address CHR ''@'' of None \<Rightarrow> address | Some (l, _) \<Rightarrow> l)"

definition personalName :: "User \<Rightarrow> string" where
  "personalName u =
     (if u_DisplayName u \<noteq> [] then u_DisplayName u
      else let l = localPart (u_EmailNormalized u) in if l = [] then ''Personal'' else l)"

text \<open>The runes of the local part: a continuation byte starts none.\<close>

definition slugChars :: "string \<Rightarrow> string" where
  "slugChars l =
     map (\<lambda>c. if is_lower c \<or> is_digit c then c else if is_upper c then lower_char c else CHR ''-'')
       (filter (\<lambda>c. \<not> ((128 :: nat) \<le> of_char c \<and> of_char c < (192 :: nat))) l)"

definition orUser :: "string \<Rightarrow> string" where
  "orUser s = (if s = [] then ''user'' else s)"

definition personalSlug :: "User \<Rightarrow> string" where
  "personalSlug u =
     (let slug = orUser (TrimChar (slugChars (localPart (u_EmailNormalized u))) CHR ''-'');
          suffix = filter (\<lambda>c. c \<noteq> CHR ''-'') (u_ID u);
          room = 63 - int (length suffix) - 1
      in if room < 1 then take 63 suffix
         else let cutSlug = (if int (length slug) > room then TrimChar (take (nat room) slug) CHR ''-'' else slug)
              in orUser cutSlug @ ''-'' @ suffix)"

text \<open>The hook of \<open>registerPersonalOrganization\<close>.\<close>

definition personalOrganization :: "orgPlugin \<Rightarrow> User \<Rightarrow> (sys, unit) oper" where
  "personalOrganization p user =
     (if \<not> pg_personal p then ret ()
      else
        andThen now (\<lambda>at.
        andThen newUUID (\<lambda>oid.
        andThen (CreateOrganization \<lparr>og_ID = oid, og_Name = personalName user, og_Slug = personalSlug user,
           og_CreatedAt = at, og_UpdatedAt = at\<rparr>) (\<lambda>_.
        andThen newUUID (\<lambda>mid.
        CreateMembership \<lparr>mb_ID = mid, mb_OrgID = oid, mb_UserID = u_ID user, mb_Role = pg_ownerRole p,
          mb_Status = MembershipActive, mb_JoinedAt = at, mb_Permissions = [], mb_TeamRoles = []\<rparr>)))))"

section \<open>The routes\<close>

text \<open>Every route asks for a signed-in principal (\<open>guard\<close>). \<open>pageOf\<close> gets the parsed page size.\<close>

definition orgGuard :: "host \<Rightarrow> httpRequest \<Rightarrow> (Principal \<Rightarrow> (sys, 'a) oper) \<Rightarrow> (sys, 'a) oper" where
  "orgGuard h r fn = RequireAuth h r fn"

definition pageOf :: "int option \<Rightarrow> int" where
  "pageOf raw = (let limit = (case raw of None \<Rightarrow> 0 | Some v \<Rightarrow> v) in if limit > 200 then 200 else limit)"

text \<open>The permission check in front of a reading route.\<close>

definition needs :: "orgPlugin \<Rightarrow> Principal \<Rightarrow> string \<Rightarrow> string \<Rightarrow> (sys, 'a) oper \<Rightarrow> (sys, 'a) oper" where
  "needs p q orgID statement m = andThen (authorize p orgID (u_ID (pr_User q)) statement) (\<lambda>_. m)"

definition handleListOrgs ::
  "host \<Rightarrow> httpRequest \<Rightarrow> int option \<Rightarrow> string \<Rightarrow> (sys, Organization list \<times> string) oper" where
  "handleListOrgs h r raw cursor = orgGuard h r (\<lambda>q. ListOrgs (u_ID (pr_User q)) (pageOf raw) cursor)"

definition handleCreateOrg :: "host \<Rightarrow> orgPlugin \<Rightarrow> httpRequest \<Rightarrow> (string \<times> string) res \<Rightarrow> (sys, Organization) oper" where
  "handleCreateOrg h p r body =
     orgGuard h r (\<lambda>q. andThen (decoded body) (\<lambda>(name, slug).
       CreateOrg p (Some (pr_User q)) \<lparr>cg_Name = name, cg_Slug = slug, cg_OwnerID = []\<rparr>))"

definition handleGetOrg :: "host \<Rightarrow> orgPlugin \<Rightarrow> httpRequest \<Rightarrow> string \<Rightarrow> (sys, Organization) oper" where
  "handleGetOrg h p r i = orgGuard h r (\<lambda>q. needs p q i PermissionOrgRead (GetOrg i))"

definition handleUpdateOrg ::
  "host \<Rightarrow> orgPlugin \<Rightarrow> httpRequest \<Rightarrow> string \<Rightarrow> UpdateOrgInput res \<Rightarrow> (sys, Organization) oper" where
  "handleUpdateOrg h p r i body =
     orgGuard h r (\<lambda>q. andThen (decoded body) (\<lambda>req.
       needs p q i PermissionOrgUpdate (UpdateOrg p (Some (pr_User q)) i req)))"

definition handleDeleteOrg :: "host \<Rightarrow> orgPlugin \<Rightarrow> httpRequest \<Rightarrow> string \<Rightarrow> (sys, unit) oper" where
  "handleDeleteOrg h p r i =
     orgGuard h r (\<lambda>q. needs p q i PermissionOrgDelete (DeleteOrg p (Some (pr_User q)) i))"

definition queryOpt :: "string \<Rightarrow> string option" where
  "queryOpt v = (if v = [] then None else Some v)"

definition handleListMembers ::
  "host \<Rightarrow> orgPlugin \<Rightarrow> httpRequest \<Rightarrow> string \<Rightarrow> int option \<Rightarrow> string \<Rightarrow> string \<Rightarrow> string \<Rightarrow>
     (sys, Membership list \<times> string) oper" where
  "handleListMembers h p r i raw cursor role status =
     orgGuard h r (\<lambda>q. needs p q i PermissionMemberRead (ListOrgMembers i
       \<lparr>mf_OrgID = [], mf_Role = queryOpt role, mf_Status = queryOpt status, mf_Limit = pageOf raw, mf_Cursor = cursor\<rparr>))"

text \<open>A body without a role and without a status returns the stored row.\<close>

definition handleUpdateMember ::
  "host \<Rightarrow> orgPlugin \<Rightarrow> httpRequest \<Rightarrow> string \<Rightarrow> string \<Rightarrow> (string option \<times> string option) res \<Rightarrow> (sys, Membership) oper" where
  "handleUpdateMember h p r i userID body =
     orgGuard h r (\<lambda>q.
       andThen (decoded body) (\<lambda>(role, status).
       let actor = Some (pr_User q) in
       andThen (case role of None \<Rightarrow> ret None
          | Some x \<Rightarrow> andThen (SetRole p actor i userID x) (\<lambda>m. ret (Some m))) (\<lambda>m1.
       andThen (case status of None \<Rightarrow> ret m1
          | Some x \<Rightarrow> andThen (SetStatus p actor i userID x) (\<lambda>m. ret (Some m))) (\<lambda>m2.
       case m2 of
         Some m \<Rightarrow> ret m
       | None \<Rightarrow> needs p q i PermissionMemberRead (mapFail notAMember (MembershipOf i userID))))))"

definition handleRemoveMember :: "host \<Rightarrow> orgPlugin \<Rightarrow> httpRequest \<Rightarrow> string \<Rightarrow> string \<Rightarrow> (sys, unit) oper" where
  "handleRemoveMember h p r i userID = orgGuard h r (\<lambda>q. RemoveMember p (Some (pr_User q)) i userID)"

definition handleInvite ::
  "host \<Rightarrow> orgPlugin \<Rightarrow> httpRequest \<Rightarrow> string \<Rightarrow> (string \<times> string) res \<Rightarrow> (sys, Invitation \<times> string) oper" where
  "handleInvite h p r i body =
     orgGuard h r (\<lambda>q. andThen (decoded body) (\<lambda>(address, role).
       Invite p (Some (pr_User q)) \<lparr>in_OrgID = i, in_Email = address, in_Role = role\<rparr>))"

definition handleListInvitations ::
  "host \<Rightarrow> orgPlugin \<Rightarrow> httpRequest \<Rightarrow> string \<Rightarrow> int option \<Rightarrow> string \<Rightarrow> string \<Rightarrow>
     (sys, Invitation list \<times> string) oper" where
  "handleListInvitations h p r i raw cursor status =
     orgGuard h r (\<lambda>q. needs p q i PermissionMemberRead (ListOrgInvitations i
       \<lparr>if_OrgID = [], if_Status = queryOpt status, if_Limit = pageOf raw, if_Cursor = cursor\<rparr>))"

definition handleRevokeInvitation :: "host \<Rightarrow> orgPlugin \<Rightarrow> httpRequest \<Rightarrow> string \<Rightarrow> string \<Rightarrow> (sys, unit) oper" where
  "handleRevokeInvitation h p r i invite = orgGuard h r (\<lambda>q. RevokeInvitation p (Some (pr_User q)) i invite)"

definition handleAccept :: "host \<Rightarrow> orgPlugin \<Rightarrow> httpRequest \<Rightarrow> string res \<Rightarrow> (sys, Membership) oper" where
  "handleAccept h p r body =
     orgGuard h r (\<lambda>q. andThen (decoded body) (\<lambda>token. AcceptInvitation p (Some (pr_User q)) token))"

definition handleCreateRole ::
  "host \<Rightarrow> orgPlugin \<Rightarrow> httpRequest \<Rightarrow> string \<Rightarrow> (string \<times> string list) res \<Rightarrow> (sys, CustomRole) oper" where
  "handleCreateRole h p r i body =
     orgGuard h r (\<lambda>q. andThen (decoded body) (\<lambda>(name, statements). CreateRole p (Some (pr_User q)) i name statements))"

definition handleListRoles :: "host \<Rightarrow> orgPlugin \<Rightarrow> httpRequest \<Rightarrow> string \<Rightarrow> (sys, CustomRole list) oper" where
  "handleListRoles h p r i = orgGuard h r (\<lambda>q. needs p q i PermissionMemberRead (ListCustomRoles i))"

definition handleDeleteRole :: "host \<Rightarrow> orgPlugin \<Rightarrow> httpRequest \<Rightarrow> string \<Rightarrow> string \<Rightarrow> (sys, unit) oper" where
  "handleDeleteRole h p r i name = orgGuard h r (\<lambda>q. DeleteRole p (Some (pr_User q)) i name)"

definition handleCreateTeam ::
  "host \<Rightarrow> orgPlugin \<Rightarrow> httpRequest \<Rightarrow> string \<Rightarrow> (string \<times> string) res \<Rightarrow> (sys, Team) oper" where
  "handleCreateTeam h p r i body =
     orgGuard h r (\<lambda>q. andThen (decoded body) (\<lambda>(name, role). CreateOrgTeam p (Some (pr_User q)) i name role))"

definition handleListTeams :: "host \<Rightarrow> orgPlugin \<Rightarrow> httpRequest \<Rightarrow> string \<Rightarrow> (sys, Team list) oper" where
  "handleListTeams h p r i = orgGuard h r (\<lambda>q. needs p q i PermissionMemberRead (ListTeams i))"

definition handleDeleteTeam :: "host \<Rightarrow> orgPlugin \<Rightarrow> httpRequest \<Rightarrow> string \<Rightarrow> string \<Rightarrow> (sys, unit) oper" where
  "handleDeleteTeam h p r i team = orgGuard h r (\<lambda>q. DeleteOrgTeam p (Some (pr_User q)) i team)"

definition handleAddTeamMember ::
  "host \<Rightarrow> orgPlugin \<Rightarrow> httpRequest \<Rightarrow> string \<Rightarrow> string \<Rightarrow> string res \<Rightarrow> (sys, unit) oper" where
  "handleAddTeamMember h p r i team body =
     orgGuard h r (\<lambda>q. andThen (decoded body) (\<lambda>userID. AddOrgTeamMember p (Some (pr_User q)) i team userID))"

definition handleRemoveTeamMember ::
  "host \<Rightarrow> orgPlugin \<Rightarrow> httpRequest \<Rightarrow> string \<Rightarrow> string \<Rightarrow> string \<Rightarrow> (sys, unit) oper" where
  "handleRemoveTeamMember h p r i team userID =
     orgGuard h r (\<lambda>q. RemoveOrgTeamMember p (Some (pr_User q)) i team userID)"

definition handleActivate :: "host \<Rightarrow> orgPlugin \<Rightarrow> httpRequest \<Rightarrow> string \<Rightarrow> (sys, unit) oper" where
  "handleActivate h p r i =
     orgGuard h r (\<lambda>q. case pr_Session q of
         None \<Rightarrow> fail (api CodeForbidden)
       | Some sess \<Rightarrow> setActiveSession p (pr_User q) sess i)"

definition handleDeactivate :: "host \<Rightarrow> orgPlugin \<Rightarrow> httpRequest \<Rightarrow> (sys, unit) oper" where
  "handleDeactivate h p r =
     orgGuard h r (\<lambda>q. case pr_Session q of
         None \<Rightarrow> fail (api CodeForbidden)
       | Some sess \<Rightarrow> setActiveSession p (pr_User q) sess [])"

end
