(* ===== verification/Org_Properties.thy ===== *)
theory Org_Properties
  imports Org_Access
begin

text \<open>
  The theorems about the organizations: nobody hands out what it does not hold, every organization keeps an
  active owner, an invitation admits the invited address once, the member limit, and the credential of an API
  key of an organization.
\<close>

section \<open>What the operations leave alone\<close>

lemma org_reads [db_intros]:
  "dbInv Q (OrganizationByID g)" "dbInv Q (MembershipOf g u)" "dbInv Q (CustomRoleByName g r)" "dbInv Q (TeamByID i)"
  "dbInv Q (InvitationByID i)" "dbInv Q (InvitationByTokenHash h)" "dbInv Q (LockActiveMembersWithRole g r)"
  "dbInv Q (CountMembers g)" "dbInv Q (CountPendingInvitations g at)"
  unfolding OrganizationByID_def MembershipOf_def CustomRoleByName_def TeamByID_def InvitationByID_def
    InvitationByTokenHash_def LockActiveMembersWithRole_def CountMembers_def CountPendingInvitations_def
  by (intro db_intros)+

lemma org_checks [db_intros]:
  "dbInv Q (knownRole p g r)" "dbInv Q (membershipOf g u)" "dbInv Q (orgEmit n u g fs)"
  unfolding knownRole_def membershipOf_def orgEmit_def by (intro db_intros)+

lemma org_permission_reads [db_intros]: "dbInv Q (permissionsOfMembership p m)"
  unfolding permissionsOfMembership_def by (intro db_intros)

lemma org_authorize [db_intros]: "dbInv Q (authorize p g u st)"
  unfolding authorize_def by (intro db_intros)

lemma org_actor [db_intros]:
  "dbInv Q (asActor p a g st)" "dbInv Q (mayGrant p a g st gr)" "dbInv Q (guardOwner p g m r x)"
  "dbInv Q (guardMemberLimit p g at)" "dbInv Q (teamOf g i)" "dbInv Q m' \<Longrightarrow> dbInv Q (orAbsent m')"
  unfolding asActor_def mayGrant_def guardOwner_def guardMemberLimit_def teamOf_def orAbsent_def
  by (intro db_intros; assumption?)+

lemma env_org_store [env_intros]:
  "envKept (OrganizationByID g)" "envKept (MembershipOf g u)" "envKept (CustomRoleByName g r)" "envKept (TeamByID i)"
  "envKept (InvitationByID i)" "envKept (InvitationByTokenHash h)" "envKept (LockActiveMembersWithRole g r)"
  "envKept (CountMembers g)" "envKept (CountPendingInvitations g at)" "envKept (CreateTeam t)" "envKept (DeleteTeam i)"
  "envKept (AddTeamMember i u)" "envKept (RemoveTeamMember i u)" "envKept (CreateCustomRole c)"
  "envKept (DeleteCustomRole g n)" "envKept (SetInvitationStatus i x y)" "envKept (SetActiveOrganization i g)"
  "envKept (CreateOrganization og)" "envKept (CreateMembership m)"
  unfolding OrganizationByID_def MembershipOf_def CustomRoleByName_def TeamByID_def InvitationByID_def
    InvitationByTokenHash_def LockActiveMembersWithRole_def CountMembers_def CountPendingInvitations_def
    CreateTeam_def DeleteTeam_def AddTeamMember_def RemoveTeamMember_def CreateCustomRole_def DeleteCustomRole_def
    SetInvitationStatus_def SetActiveOrganization_def CreateOrganization_def CreateMembership_def
  by (intro env_intros)+

lemma env_org_checks [env_intros]:
  "envKept (knownRole p g r)" "envKept (membershipOf g u)" "envKept (orgEmit n u g fs)"
  unfolding knownRole_def membershipOf_def orgEmit_def by (intro env_intros)+

lemma env_org_permission [env_intros]: "envKept (permissionsOfMembership p m)"
  unfolding permissionsOfMembership_def by (intro env_intros)

lemma env_org_authorize [env_intros]: "envKept (authorize p g u st)"
  unfolding authorize_def by (intro env_intros)

lemma env_org_actor [env_intros]:
  "envKept (asActor p a g st)" "envKept (mayGrant p a g st gr)" "envKept (guardOwner p g m r x)"
  "envKept (guardMemberLimit p g at)" "envKept (teamOf g i)" "envKept m' \<Longrightarrow> envKept (orAbsent m')"
  unfolding asActor_def mayGrant_def guardOwner_def guardMemberLimit_def teamOf_def orAbsent_def
  by (intro env_intros; assumption?)+

section \<open>The permissions of a member as a function of the tables\<close>

definition roleSet :: "orgPlugin \<Rightarrow> tables \<Rightarrow> string \<Rightarrow> string \<Rightarrow> PermSet option" where
  "roleSet p t g role =
     (if role = [] then None
      else case PermissionsOf p role of
             Some s \<Rightarrow> Some s
           | None \<Rightarrow> map_option (\<lambda>c. case NewSet (Fields (cu_Permissions c)) of Inl e \<Rightarrow> emptySet | Inr s \<Rightarrow> s)
               (find (\<lambda>r. cu_OrgID r = g \<and> cu_Name r = role) (org_roles t)))"

definition memberSet :: "orgPlugin \<Rightarrow> tables \<Rightarrow> Membership \<Rightarrow> PermSet" where
  "memberSet p t m =
     (if mb_Status m \<noteq> MembershipActive then emptySet
      else withExtra (withTeamRoles p (case roleSet p t (mb_OrgID m) (mb_Role m) of None \<Rightarrow> emptySet | Some s \<Rightarrow> s)
             (Fields (mb_TeamRoles m))) (Fields (mb_Permissions m)))"

lemma knownRole_Inr:
  assumes "knownRole p g role s = (Inr k, s')"
  shows "k = roleSet p (db s) g role" "db s' = db s" "clock s' = clock s" "in_tx s' = in_tx s"
proof -
  show "k = roleSet p (db s) g role"
    using assms
    by (auto simp: knownRole_def roleSet_def ret_def fail_def caught_eq CustomRoleByName_def selectOne_def stmt_def
        split: if_splits option.splits sum.splits prod.splits)
  show "db s' = db s" using dbInv_same [OF org_checks(1) assms] .
  show "clock s' = clock s" "in_tx s' = in_tx s" using envKeptD [OF env_org_checks(1) assms] by simp_all
qed

lemma MembershipOf_Inr:
  assumes "MembershipOf g u s = (Inr m, s')"
  shows "m \<in> set (members (db s))" "mb_OrgID m = g" "mb_UserID m = u" "db s' = db s"
  using assms by (auto simp: MembershipOf_def selectOne_Inr dest: find_SomeD)

lemma permissionsOfMembership_Inr:
  assumes "permissionsOfMembership p (Some m) s = (Inr k, s')"
  shows "k = memberSet p (db s) m"
  using assms
  by (auto simp: permissionsOfMembership_def memberSet_def success_simps dest!: knownRole_Inr(1) split: if_splits)

lemma not_Allows_empty [simp]: "\<not> Allows emptySet st"
  by (auto simp: Allows_def Covers_def emptySet_def split: sum.split)

lemma authorize_Inr:
  assumes "authorize p g u st s = (Inr (m, held), s')"
  shows "m \<in> set (members (db s))" "mb_OrgID m = g" "mb_UserID m = u" "held = memberSet p (db s) m"
    "Allows held st" "mb_Status m = MembershipActive" "db s' = db s" "in_tx s' = in_tx s" "clock s' = clock s"
proof -
  obtain t where m: "MembershipOf g u s = (Inr m, t)" and k: "permissionsOfMembership p (Some m) t = (Inr held, s')"
    and a: "Allows held st"
    using assms by (auto simp: authorize_def membershipOf_def success_simps prod_run if_run)
  show "m \<in> set (members (db s))" "mb_OrgID m = g" "mb_UserID m = u" using MembershipOf_Inr [OF m] by auto
  show h: "held = memberSet p (db s) m" using permissionsOfMembership_Inr [OF k] MembershipOf_Inr(4) [OF m] by simp
  show "Allows held st" by (rule a)
  show "mb_Status m = MembershipActive" using a h by (auto simp: memberSet_def split: if_splits)
  show "db s' = db s" by (rule dbInv_same [OF org_authorize assms])
  show "in_tx s' = in_tx s" "clock s' = clock s" using envKeptD [OF env_org_authorize assms] by simp_all
qed

text \<open>Roles that \<open>Role\<close> declared.\<close>

definition wfPlugin :: "orgPlugin \<Rightarrow> bool" where
  "wfPlugin p \<longleftrightarrow> (\<forall>d \<in> set (pg_roles p). wfSet (snd d))"

lemma Role_wf: "Role n sts = Some d \<Longrightarrow> wfSet (snd d)"
  by (auto simp: Role_def dest: NewSet_wf split: if_splits sum.splits)

lemma PermissionsOf_wf: "wfPlugin p \<Longrightarrow> PermissionsOf p r = Some s \<Longrightarrow> wfSet s"
  by (fastforce simp: wfPlugin_def PermissionsOf_def dest: map_of_SomeD)

lemma NewSet_or_empty: "wfSet (case NewSet sts of Inl e \<Rightarrow> emptySet | Inr s \<Rightarrow> s)"
  by (cases "NewSet sts") (auto dest: NewSet_wf)

lemma roleSet_wf: "wfPlugin p \<Longrightarrow> roleSet p t g r = Some s \<Longrightarrow> wfSet s"
  using NewSet_or_empty PermissionsOf_wf by (fastforce simp: roleSet_def split: if_splits option.splits)

lemma unionSets_wf1: "wfSet a \<Longrightarrow> wfSet b \<Longrightarrow> wfSet (unionSets a [b])"
  by (simp add: unionSets_wf)

lemma withTeamRoles_wf: "wfPlugin p \<Longrightarrow> wfSet s \<Longrightarrow> wfSet (withTeamRoles p s roles)"
  by (induction roles arbitrary: s) (auto split: option.split intro!: unionSets_wf1 dest: PermissionsOf_wf)

lemma withExtra_wf: "wfSet s \<Longrightarrow> wfSet (withExtra s sts)"
  by (auto simp: withExtra_def split: sum.split intro!: unionSets_wf1 dest: NewSet_wf)

lemma memberSet_wf: "wfPlugin p \<Longrightarrow> wfSet (memberSet p t m)"
  by (auto simp: memberSet_def intro!: withExtra_wf withTeamRoles_wf dest: roleSet_wf split: option.split)

section \<open>Nobody hands out what it does not hold\<close>

text \<open>The operations that hand out permissions, what they hand out, and the permission that they ask for.\<close>

datatype grantOp =
    GrantRole string string
  | GrantInvitation string string
  | GrantCustom string "string list"
  | GrantTeam string string

fun granted :: "orgPlugin \<Rightarrow> tables \<Rightarrow> string \<Rightarrow> grantOp \<Rightarrow> PermSet option" where
  "granted p t g (GrantRole userID role) = roleSet p t g role"
| "granted p t g (GrantInvitation address role) = roleSet p t g (if role = [] then pg_defaultRole p else role)"
| "granted p t g (GrantCustom name statements) = (case NewSet statements of Inl e \<Rightarrow> None | Inr s \<Rightarrow> Some s)"
| "granted p t g (GrantTeam name role) = (if role = [] then Some emptySet else roleSet p t g role)"

fun grantPermission :: "grantOp \<Rightarrow> string" where
  "grantPermission (GrantRole userID role) = PermissionMemberWrite"
| "grantPermission (GrantInvitation address role) = PermissionMemberAdd"
| "grantPermission (GrantCustom name statements) = PermissionRoleWrite"
| "grantPermission (GrantTeam name role) = PermissionTeamWrite"

fun runGrant :: "orgPlugin \<Rightarrow> User option \<Rightarrow> string \<Rightarrow> grantOp \<Rightarrow> (sys, unit) oper" where
  "runGrant p actor g (GrantRole userID role) = andThen (SetRole p actor g userID role) (\<lambda>_. ret ())"
| "runGrant p actor g (GrantInvitation address role) =
     andThen (Invite p actor \<lparr>in_OrgID = g, in_Email = address, in_Role = role\<rparr>) (\<lambda>_. ret ())"
| "runGrant p actor g (GrantCustom name statements) = andThen (CreateRole p actor g name statements) (\<lambda>_. ret ())"
| "runGrant p actor g (GrantTeam name role) = andThen (CreateOrgTeam p actor g name role) (\<lambda>_. ret ())"

lemma mayGrant_Inr:
  assumes "mayGrant p (Some u) g st gr s = (Inr x, s')"
  shows "\<exists>m \<in> set (members (db s)). mb_OrgID m = g \<and> mb_UserID m = u_ID u \<and> mb_Status m = MembershipActive \<and>
    Allows (memberSet p (db s) m) st \<and> CoversSet (memberSet p (db s) m) gr"
proof -
  obtain m held t where a: "authorize p g (u_ID u) st s = (Inr (m, held), t)" and c: "CoversSet held gr"
    using assms by (auto simp: mayGrant_def success_simps prod_run if_run)
  show ?thesis using authorize_Inr [OF a] c by blast
qed

lemma asActor_Inr:
  assumes "asActor p (Some u) g st s = (Inr x, s')"
  shows "\<exists>m \<in> set (members (db s)). mb_OrgID m = g \<and> mb_UserID m = u_ID u \<and> mb_Status m = MembershipActive \<and>
    Allows (memberSet p (db s) m) st"
proof -
  obtain m held t where a: "authorize p g (u_ID u) st s = (Inr (m, held), t)"
    using assms by (auto simp: asActor_def success_simps)
  show ?thesis using authorize_Inr [OF a] by blast
qed

lemma CoversSet_empty [simp]: "CoversSet s emptySet"
  by (simp add: CoversSet_def emptySet_def)

text \<open>Every successful operation passed \<open>mayGrant\<close> with what it hands out, on the tables that it found.\<close>

lemma runGrant_Inr:
  assumes "runGrant p (Some u) g op s = (Inr x, s')"
  obtains gr where "granted p (db s) g op = Some gr"
    and "\<exists>m \<in> set (members (db s)). mb_OrgID m = g \<and> mb_UserID m = u_ID u \<and> mb_Status m = MembershipActive \<and>
      Allows (memberSet p (db s) m) (grantPermission op) \<and> CoversSet (memberSet p (db s) m) gr"
proof (cases op)
  case (GrantRole userID role)
  obtain gr t y t' where k: "knownRole p g role s = (Inr (Some gr), t)"
    and m: "mayGrant p (Some u) g PermissionMemberWrite gr t = (Inr y, t')"
    using assms by (auto simp: GrantRole SetRole_def success_simps option_run)
  show thesis using that [of gr] knownRole_Inr [OF k] mayGrant_Inr [OF m] by (simp add: GrantRole)
next
  case (GrantInvitation address role)
  obtain gr t y t' where k: "knownRole p g (if role = [] then pg_defaultRole p else role) s = (Inr (Some gr), t)"
    and m: "mayGrant p (Some u) g PermissionMemberAdd gr t = (Inr y, t')"
    using assms
    by (auto simp: GrantInvitation Invite_def Let_def success_simps option_run if_run prod_run split: if_splits)
  show thesis using that [of gr] knownRole_Inr [OF k] mayGrant_Inr [OF m] by (simp add: GrantInvitation)
next
  case (GrantCustom name sts)
  obtain gr y t where k: "NewSet sts = Inr gr" and m: "mayGrant p (Some u) g PermissionRoleWrite gr s = (Inr y, t)"
    using assms by (auto simp: GrantCustom CreateRole_def Let_def success_simps split: if_splits sum.splits)
  show thesis using that [of gr] k mayGrant_Inr [OF m] by (simp add: GrantCustom)
next
  case (GrantTeam name role)
  show thesis
  proof (cases "role = []")
    case True
    obtain y t where m: "asActor p (Some u) g PermissionTeamWrite s = (Inr y, t)"
      using assms True by (auto simp: GrantTeam CreateOrgTeam_def Let_def success_simps split: if_splits)
    show thesis using that [of emptySet] asActor_Inr [OF m] True by (simp add: GrantTeam)
  next
    case False
    obtain gr t y t' where k: "knownRole p g role s = (Inr (Some gr), t)"
      and m: "mayGrant p (Some u) g PermissionTeamWrite gr t = (Inr y, t')"
      using assms False by (auto simp: GrantTeam CreateOrgTeam_def Let_def success_simps option_run split: if_splits)
    show thesis using that [of gr] knownRole_Inr [OF k] mayGrant_Inr [OF m] False by (simp add: GrantTeam)
  qed
qed

text \<open>C27. A change of a role, an invitation, a custom role and a team never escalate: when a member brings one
  about, then the member is active in this organization, holds the permission for the operation, and already
  holds every permission that the operation hands out.\<close>

theorem no_escalation:
  assumes "wfPlugin p" and "runGrant p (Some u) g op s = (Inr x, s')"
  shows "\<exists>m \<in> set (members (db s)). mb_OrgID m = g \<and> mb_UserID m = u_ID u \<and> mb_Status m = MembershipActive \<and>
    Allows (memberSet p (db s) m) (grantPermission op) \<and>
    (\<exists>gr. granted p (db s) g op = Some gr \<and> (\<forall>st. Allows gr st \<longrightarrow> Allows (memberSet p (db s) m) st))"
proof -
  obtain gr m where g: "granted p (db s) g op = Some gr" and m: "m \<in> set (members (db s))" "mb_OrgID m = g"
    "mb_UserID m = u_ID u" "mb_Status m = MembershipActive" "Allows (memberSet p (db s) m) (grantPermission op)"
    and c: "CoversSet (memberSet p (db s) m) gr"
    using runGrant_Inr [OF assms(2)] by metis
  have "wfSet gr"
    using g assms(1) by (cases op) (auto dest: roleSet_wf NewSet_wf split: if_splits sum.splits)
  then have "Allows gr st \<longrightarrow> Allows (memberSet p (db s) m) st" for st
    using covers_set_no_escalation [OF memberSet_wf [OF assms(1)] _ c] by blast
  then show ?thesis using m g by blast
qed

section \<open>Every organization keeps an active owner\<close>

definition hasOwner :: "orgPlugin \<Rightarrow> string \<Rightarrow> tables \<Rightarrow> bool" where
  "hasOwner p g t \<longleftrightarrow> (\<exists>m \<in> set (members t). mb_OrgID m = g \<and> mb_Role m = pg_ownerRole p \<and> mb_Status m = MembershipActive)"

definition ownedTables :: "orgPlugin \<Rightarrow> tables \<Rightarrow> bool" where
  "ownedTables p t \<longleftrightarrow> wfTables t \<and> (\<forall>og \<in> set (orgs t). hasOwner p (og_ID og) t)"

lemma guardOwner_Inr:
  assumes "guardOwner p g m nr ns s = (Inr x, s')"
  shows "(mb_Role m = pg_ownerRole p \<and> mb_Status m = MembershipActive \<and> \<not> (nr = pg_ownerRole p \<and> ns = MembershipActive) \<longrightarrow>
     (\<exists>o' \<in> set (members (db s)). mb_OrgID o' = g \<and> mb_Role o' = pg_ownerRole p \<and> mb_Status o' = MembershipActive \<and>
        mb_UserID o' \<noteq> mb_UserID m)) \<and> db s' = db s"
  using assms
  by (auto simp: guardOwner_def success_simps LockActiveMembersWithRole_def sql_success split: if_splits)

text \<open>A change of the row of one member, after the guard, keeps an owner.\<close>

lemma owner_after_update:
  assumes "uniqMembers (members t)" and "m \<in> set (members t)" and "mb_OrgID m = g" and "mb_UserID m = u"
    and "\<And>r. mb_OrgID (f r) = mb_OrgID r"
    and "mb_Role m = pg_ownerRole p \<and> mb_Status m = MembershipActive \<and>
      \<not> (mb_Role (f m) = pg_ownerRole p \<and> mb_Status (f m) = MembershipActive) \<longrightarrow>
      (\<exists>o' \<in> set (members t). mb_OrgID o' = g \<and> mb_Role o' = pg_ownerRole p \<and> mb_Status o' = MembershipActive \<and>
        mb_UserID o' \<noteq> mb_UserID m)"
    and "hasOwner p g' t"
  shows "hasOwner p g' (t\<lparr>members := updateWhere (\<lambda>r. mb_OrgID r = g \<and> mb_UserID r = u) f (members t)\<rparr>)"
proof -
  obtain o1 where o1: "o1 \<in> set (members t)" "mb_OrgID o1 = g'" "mb_Role o1 = pg_ownerRole p" "mb_Status o1 = MembershipActive"
    using assms(7) by (auto simp: hasOwner_def)
  have other: "hasOwner p (mb_OrgID o2) (t\<lparr>members := updateWhere (\<lambda>r. mb_OrgID r = g \<and> mb_UserID r = u) f (members t)\<rparr>)"
    if "o2 \<in> set (members t)" "mb_Role o2 = pg_ownerRole p" "mb_Status o2 = MembershipActive"
      "\<not> (mb_OrgID o2 = g \<and> mb_UserID o2 = u)" for o2
    using that by (force simp: hasOwner_def set_updateWhere)
  show ?thesis
  proof (cases "mb_OrgID o1 = g \<and> mb_UserID o1 = u")
    case False
    then show ?thesis using other [OF o1(1,3,4)] o1(2) by simp
  next
    case True
    have "distinct (map (\<lambda>m. (mb_OrgID m, mb_UserID m)) (members t))" using assms(1) by (simp add: uniqMembers_def)
    from distinct_map_unique [OF this o1(1) assms(2)] have o1m: "o1 = m" using True assms(3,4) by simp
    show ?thesis
    proof (cases "mb_Role (f m) = pg_ownerRole p \<and> mb_Status (f m) = MembershipActive")
      case True
      then show ?thesis using o1m o1(1,2) assms(3-5) by (force simp: hasOwner_def set_updateWhere)
    next
      case False
      then obtain o2 where "o2 \<in> set (members t)" "mb_OrgID o2 = g" "mb_Role o2 = pg_ownerRole p"
        "mb_Status o2 = MembershipActive" "mb_UserID o2 \<noteq> mb_UserID m"
        using assms(6) o1 o1m by blast
      then show ?thesis using other [of o2] assms(3,4) o1m o1(2) by auto
    qed
  qed
qed

lemma owner_after_delete:
  assumes "m \<in> set (members t)" and "mb_OrgID m = g" and "mb_UserID m = u" and "uniqMembers (members t)"
    and "mb_Role m = pg_ownerRole p \<and> mb_Status m = MembershipActive \<longrightarrow>
      (\<exists>o' \<in> set (members t). mb_OrgID o' = g \<and> mb_Role o' = pg_ownerRole p \<and> mb_Status o' = MembershipActive \<and>
        mb_UserID o' \<noteq> mb_UserID m)"
    and "hasOwner p g' t"
  shows "hasOwner p g' (t\<lparr>members := deleteWhere (\<lambda>r. mb_OrgID r = g \<and> mb_UserID r = u) (members t)\<rparr>)"
proof -
  obtain o1 where o1: "o1 \<in> set (members t)" "mb_OrgID o1 = g'" "mb_Role o1 = pg_ownerRole p" "mb_Status o1 = MembershipActive"
    using assms(6) by (auto simp: hasOwner_def)
  have "distinct (map (\<lambda>m. (mb_OrgID m, mb_UserID m)) (members t))" using assms(4) by (simp add: uniqMembers_def)
  from distinct_map_unique [OF this o1(1) assms(1)]
  have same: "mb_OrgID o1 = g \<and> mb_UserID o1 = u \<longrightarrow> o1 = m" using assms(2,3) by simp
  show ?thesis
  proof (cases "mb_OrgID o1 = g \<and> mb_UserID o1 = u")
    case False
    then show ?thesis using o1 by (auto simp: hasOwner_def)
  next
    case True
    then obtain o2 where "o2 \<in> set (members t)" "mb_OrgID o2 = g" "mb_Role o2 = pg_ownerRole p"
        "mb_Status o2 = MembershipActive" "mb_UserID o2 \<noteq> mb_UserID m"
      using assms(5) o1 same by blast
    then show ?thesis using True o1(2) assms(3) by (auto simp: hasOwner_def)
  qed
qed

text \<open>What the transactions do with the members.\<close>

lemma UpdateMembership_Inr:
  assumes "UpdateMembership m s = (Inr x, s')"
  shows "db s' = (db s)\<lparr>members := updateWhere (\<lambda>r. mb_OrgID r = mb_OrgID m \<and> mb_UserID r = mb_UserID m)
     (\<lambda>r. r\<lparr>mb_Role := mb_Role m, mb_Status := mb_Status m\<rparr>) (members (db s))\<rparr>"
  using assms by (auto simp: UpdateMembership_def success_simps sql_success)

lemma setRoleTx_Inr:
  assumes "setRoleTx p actor g u role s = (Inr (out, prev), s')"
  shows "\<exists>m \<in> set (members (db s)). mb_OrgID m = g \<and> mb_UserID m = u \<and> prev = mb_Role m \<and> out = m\<lparr>mb_Role := role\<rparr> \<and>
    (mb_Role m = role \<and> db s' = db s \<or>
     mb_Role m \<noteq> role \<and> (\<exists>t t'. db t = db s \<and> guardOwner p g m role (mb_Status m) t = (Inr (), t')) \<and>
     db s' = (db s)\<lparr>members := updateWhere (\<lambda>r. mb_OrgID r = g \<and> mb_UserID r = u)
       (\<lambda>r. r\<lparr>mb_Role := role, mb_Status := mb_Status m\<rparr>) (members (db s))\<rparr>)"
proof -
  obtain og t1 m t2 where o: "OrganizationByID g s = (Inr og, t1)" and m: "MembershipOf g u t1 = (Inr m, t2)"
    and r: "(if mb_Role m = role then ret (m, mb_Role m)
     else
       andThen (guardOwner p g m role (mb_Status m)) (\<lambda>_.
       andThen (veto (pg_beforeMembership p (m\<lparr>mb_Role := role\<rparr>) actor)) (\<lambda>_.
       andThen (mapFail notAMember (UpdateMembership (m\<lparr>mb_Role := role\<rparr>))) (\<lambda>_.
       ret (m\<lparr>mb_Role := role\<rparr>, mb_Role m))))) t2 = (Inr (out, prev), s')"
    using assms unfolding setRoleTx_def andThen_Inr mapFail_Inr by blast
  have d: "db t2 = db s" using MembershipOf_Inr(4) [OF m] dbInv_same [OF org_reads(1) o] by simp
  have mm: "m \<in> set (members (db s))" "mb_OrgID m = g" "mb_UserID m = u"
    using MembershipOf_Inr [OF m] dbInv_same [OF org_reads(1) o] by simp_all
  show ?thesis
  proof (cases "mb_Role m = role")
    case True
    then show ?thesis using r d mm by (intro bexI [of _ m]) (auto simp: ret_Inr)
  next
    case False
    obtain t3 t4 where g: "guardOwner p g m role (mb_Status m) t2 = (Inr (), t3)"
      and v: "veto (pg_beforeMembership p (m\<lparr>mb_Role := role\<rparr>) actor) t3 = (Inr (), t4)"
      and w: "UpdateMembership (m\<lparr>mb_Role := role\<rparr>) t4 = (Inr (), s')" and o2: "out = m\<lparr>mb_Role := role\<rparr>" "prev = mb_Role m"
      using r False by (auto simp: success_simps)
    have "db t4 = db s" using v guardOwner_Inr [OF g] d by (simp add: veto_Inr)
    then show ?thesis
      using UpdateMembership_Inr [OF w] g d mm o2 False by (intro bexI [of _ m]) auto
  qed
qed

lemma setStatusTx_Inr:
  assumes "setStatusTx p actor g u status s = (Inr (out, ch), s')"
  shows "\<exists>m \<in> set (members (db s)). mb_OrgID m = g \<and> mb_UserID m = u \<and> out = m\<lparr>mb_Status := status\<rparr> \<and>
    (mb_Status m = status \<and> db s' = db s \<or>
     mb_Status m \<noteq> status \<and> (\<exists>t t'. db t = db s \<and> guardOwner p g m (mb_Role m) status t = (Inr (), t')) \<and>
     db s' = (db s)\<lparr>members := updateWhere (\<lambda>r. mb_OrgID r = g \<and> mb_UserID r = u)
       (\<lambda>r. r\<lparr>mb_Role := mb_Role m, mb_Status := status\<rparr>) (members (db s))\<rparr>)"
proof -
  obtain og t1 m t2 where o: "OrganizationByID g s = (Inr og, t1)" and m: "MembershipOf g u t1 = (Inr m, t2)"
    and r: "(if mb_Status m = status then ret (m, False)
     else
       andThen (guardOwner p g m (mb_Role m) status) (\<lambda>_.
       andThen (veto (pg_beforeMembership p (m\<lparr>mb_Status := status\<rparr>) actor)) (\<lambda>_.
       andThen (mapFail notAMember (UpdateMembership (m\<lparr>mb_Status := status\<rparr>))) (\<lambda>_.
       ret (m\<lparr>mb_Status := status\<rparr>, True))))) t2 = (Inr (out, ch), s')"
    using assms unfolding setStatusTx_def andThen_Inr mapFail_Inr by blast
  have d: "db t2 = db s" using MembershipOf_Inr(4) [OF m] dbInv_same [OF org_reads(1) o] by simp
  have mm: "m \<in> set (members (db s))" "mb_OrgID m = g" "mb_UserID m = u"
    using MembershipOf_Inr [OF m] dbInv_same [OF org_reads(1) o] by simp_all
  show ?thesis
  proof (cases "mb_Status m = status")
    case True
    then show ?thesis using r d mm by (intro bexI [of _ m]) (auto simp: ret_Inr)
  next
    case False
    obtain t3 t4 where g: "guardOwner p g m (mb_Role m) status t2 = (Inr (), t3)"
      and v: "veto (pg_beforeMembership p (m\<lparr>mb_Status := status\<rparr>) actor) t3 = (Inr (), t4)"
      and w: "UpdateMembership (m\<lparr>mb_Status := status\<rparr>) t4 = (Inr (), s')" and o2: "out = m\<lparr>mb_Status := status\<rparr>"
      using r False by (auto simp: success_simps)
    have "db t4 = db s" using v guardOwner_Inr [OF g] d by (simp add: veto_Inr)
    then show ?thesis
      using UpdateMembership_Inr [OF w] g d mm o2 False by (intro bexI [of _ m]) auto
  qed
qed

lemma removeTx_Inr:
  assumes "removeTx p actor g u s = (Inr m, s')"
  shows "m \<in> set (members (db s)) \<and> mb_OrgID m = g \<and> mb_UserID m = u \<and>
    (\<exists>t t'. db t = db s \<and> guardOwner p g m [] MembershipSuspended t = (Inr (), t')) \<and>
    db s' = (db s)\<lparr>members := deleteWhere (\<lambda>r. mb_OrgID r = g \<and> mb_UserID r = u) (members (db s)),
      sessions := updateWhere (\<lambda>x. se_UserID x = u \<and> se_ActiveOrgID x = Some g) (\<lambda>x. x\<lparr>se_ActiveOrgID := None\<rparr>)
        (sessions (db s))\<rparr>"
proof -
  obtain og t1 t2 t3 t4 t5 where o: "OrganizationByID g s = (Inr og, t1)" and m: "MembershipOf g u t1 = (Inr m, t2)"
    and gd: "guardOwner p g m [] MembershipSuspended t2 = (Inr (), t3)"
    and v: "veto (pg_beforeMembership p m actor) t3 = (Inr (), t4)" and dl: "DeleteMembership g u t4 = (Inr (), t5)"
    and cl: "ClearActiveOrganization g u t5 = (Inr (), s')"
    using assms by (auto simp: removeTx_def success_simps)
  have d: "db t2 = db s" using MembershipOf_Inr(4) [OF m] dbInv_same [OF org_reads(1) o] by simp
  have "db t4 = db s" using v guardOwner_Inr [OF gd] d by (simp add: veto_Inr)
  then have t5: "db t5 = (db s)\<lparr>members := deleteWhere (\<lambda>r. mb_OrgID r = g \<and> mb_UserID r = u) (members (db s))\<rparr>"
    using dl by (auto simp: DeleteMembership_def success_simps sql_success)
  have "db s' = (db t5)\<lparr>sessions := updateWhere (\<lambda>x. se_UserID x = u \<and> se_ActiveOrgID x = Some g)
      (\<lambda>x. x\<lparr>se_ActiveOrgID := None\<rparr>) (sessions (db t5))\<rparr>"
    using cl by (auto simp: ClearActiveOrganization_def success_simps sql_success)
  then show ?thesis using t5 gd d MembershipOf_Inr [OF m] dbInv_same [OF org_reads(1) o] by auto
qed

lemma keeps_tx:
  assumes "\<And>a x b. Q (db a) \<Longrightarrow> m a = (Inr x, b) \<Longrightarrow> Q (db b)"
  shows "keeps (\<lambda>s. \<not> in_tx s \<and> Q (db s)) (transaction m)"
  unfolding keeps_def
proof (intro allI impI)
  fix s :: sys assume s: "\<not> in_tx s \<and> Q (db s)"
  obtain r s' where run: "transaction m s = (r, s')" by fastforce
  have t: "\<not> in_tx s'" using run s by (auto simp: transaction_def split: if_splits prod.splits sum.splits)
  show "\<not> in_tx (snd (transaction m s)) \<and> Q (db (snd (transaction m s)))"
  proof (cases r)
    case (Inl e)
    then show ?thesis using transaction_Inl_db [of s m e s'] run s t by simp
  next
    case (Inr x)
    then obtain a b where "m a = (Inr x, b)" "db a = db s" "db s' = db b"
      using transaction_InrE run by metis
    then show ?thesis using assms [of a x b] run s t by simp
  qed
qed

lemma keeps_quiet: "dbInv Q m \<Longrightarrow> envKept m \<Longrightarrow> keeps (\<lambda>s. \<not> in_tx s \<and> Q (db s)) m"
  by (auto simp: keeps_def dbInv_def envKept_def sameEnv_def)

abbreviation steady :: "orgPlugin \<Rightarrow> sys \<Rightarrow> bool" where
  "steady p \<equiv> \<lambda>s. \<not> in_tx s \<and> ownedTables p (db s)"

text \<open>Statements that touch neither a membership nor an organization.\<close>

lemma owned_same:
  "wfTables t' \<Longrightarrow> members t' = members t \<Longrightarrow> orgs t' = orgs t \<Longrightarrow> ownedTables p t \<Longrightarrow> ownedTables p t'"
  by (simp add: ownedTables_def hasOwner_def)

lemma dbInv_owned:
  assumes "dbInv wfTables m" and "\<And>P. dbInv (\<lambda>t. P (members t) (orgs t)) m"
  shows "dbInv (ownedTables p) m"
  unfolding dbInv_def keeps_def
proof (intro allI impI)
  fix s :: sys assume o: "ownedTables p (db s)"
  obtain r s' where run: "m s = (r, s')" by fastforce
  have "wfTables (db s')" using dbInvD [OF assms(1) run] o by (simp add: ownedTables_def)
  moreover have "members (db s') = members (db s) \<and> orgs (db s') = orgs (db s)"
    by (rule dbInvD [OF assms(2) [of "\<lambda>a b. a = members (db s) \<and> b = orgs (db s)"] run]) simp
  ultimately show "ownedTables p (db (snd (m s)))" using o run owned_same by simp
qed

lemma memberFree [db_intros]:
  "dbInv (\<lambda>t. P (members t) (orgs t)) (CreateInvitation iv)" "dbInv (\<lambda>t. P (members t) (orgs t)) (ConsumeInvitation h at)"
  "dbInv (\<lambda>t. P (members t) (orgs t)) (SetInvitationStatus i x y)" "dbInv (\<lambda>t. P (members t) (orgs t)) (CreateCustomRole c)"
  "dbInv (\<lambda>t. P (members t) (orgs t)) (DeleteCustomRole g n)" "dbInv (\<lambda>t. P (members t) (orgs t)) (CreateTeam tm)"
  "dbInv (\<lambda>t. P (members t) (orgs t)) (DeleteTeam i)" "dbInv (\<lambda>t. P (members t) (orgs t)) (AddTeamMember i u)"
  "dbInv (\<lambda>t. P (members t) (orgs t)) (RemoveTeamMember i u)" "dbInv (\<lambda>t. P (members t) (orgs t)) (SetActiveOrganization i g)"
  unfolding CreateInvitation_def ConsumeInvitation_def claimInvitation_def SetInvitationStatus_def CreateCustomRole_def
    DeleteCustomRole_def CreateTeam_def DeleteTeam_def AddTeamMember_def RemoveTeamMember_def SetActiveOrganization_def
  by (intro db_intros dbInv_insertRow dbInv_updateRows dbInv_deleteRows dbInv_stmt; simp)+

lemma owned_statements [db_intros]:
  "dbInv (ownedTables p) (CreateInvitation iv)" "dbInv (ownedTables p) (ConsumeInvitation h at)"
  "dbInv (ownedTables p) (SetInvitationStatus i x y)" "dbInv (ownedTables p) (CreateCustomRole c)"
  "dbInv (ownedTables p) (DeleteCustomRole g n)" "dbInv (ownedTables p) (CreateTeam tm)"
  "dbInv (ownedTables p) (DeleteTeam i)" "dbInv (ownedTables p) (AddTeamMember i u)"
  "dbInv (ownedTables p) (RemoveTeamMember i u)" "dbInv (ownedTables p) (SetActiveOrganization i g)"
  by (intro dbInv_owned db_intros)+

lemma owned_CreateMembership [db_intros]: "dbInv (ownedTables p) (CreateMembership m)"
  unfolding dbInv_def keeps_def
proof (intro allI impI)
  fix s :: sys assume o: "ownedTables p (db s)"
  obtain r s' where run: "CreateMembership m s = (r, s')" by fastforce
  have wf: "wfTables (db s')" using wf_run [OF wf_org_inserts(1) run] o by (simp add: ownedTables_def)
  have "orgs (db s') = orgs (db s) \<and> set (members (db s)) \<subseteq> set (members (db s'))"
    using run by (auto simp: CreateMembership_def insertRow_def stmt_def split: if_splits)
  then show "ownedTables p (db (snd (CreateMembership m s)))"
    using wf o run by (fastforce simp: ownedTables_def hasOwner_def)
qed

lemma wf_member_txs [db_intros]:
  "dbInv wfTables (setRoleTx p actor g u role)" "dbInv wfTables (setStatusTx p actor g u status)"
  "dbInv wfTables (removeTx p actor g u)"
  unfolding setRoleTx_def setStatusTx_def removeTx_def by (intro db_intros)+

lemma owned_setRole: "keeps (steady p) (SetRole p actor g u role)"
proof -
  have "keeps (steady p) (transaction (setRoleTx p actor g u role))"
  proof (rule keeps_tx)
    fix a b and x :: "Membership \<times> string"
    assume o: "ownedTables p (db a)" and run: "setRoleTx p actor g u role a = (Inr x, b)"
    obtain out prev where x: "x = (out, prev)" by (cases x)
    obtain m where m: "m \<in> set (members (db a))" "mb_OrgID m = g" "mb_UserID m = u"
      and d: "db b = db a \<or> (\<exists>t t'. db t = db a \<and> guardOwner p g m role (mb_Status m) t = (Inr (), t')) \<and>
        db b = (db a)\<lparr>members := updateWhere (\<lambda>r. mb_OrgID r = g \<and> mb_UserID r = u)
          (\<lambda>r. r\<lparr>mb_Role := role, mb_Status := mb_Status m\<rparr>) (members (db a))\<rparr>"
      using setRoleTx_Inr [OF run [unfolded x]] by blast
    have wf: "wfTables (db b)"
      using wf_run [OF wf_member_txs(1) run] o by (simp add: ownedTables_def)
    have uq: "uniqMembers (members (db a))" using o by (simp add: ownedTables_def wfTables_def okRows_def)
    show "ownedTables p (db b)"
      using d
    proof (elim disjE conjE exE)
      fix t t' assume t: "db t = db a" and gd: "guardOwner p g m role (mb_Status m) t = (Inr (), t')"
        and b: "db b = (db a)\<lparr>members := updateWhere (\<lambda>r. mb_OrgID r = g \<and> mb_UserID r = u)
          (\<lambda>r. r\<lparr>mb_Role := role, mb_Status := mb_Status m\<rparr>) (members (db a))\<rparr>"
      have "hasOwner p g' (db b)" if "hasOwner p g' (db a)" for g'
        unfolding b
        by (rule owner_after_update [OF uq m, where f = "\<lambda>r. r\<lparr>mb_Role := role, mb_Status := mb_Status m\<rparr>"])
          (use guardOwner_Inr [OF gd] t that in auto)
      then show ?thesis using wf o by (simp add: ownedTables_def b)
    qed (use o in simp)
  qed
  note tx = this
  show ?thesis
    unfolding SetRole_def by (intro keeps_intros tx; intro keeps_quiet db_intros env_intros)
qed

lemma owned_setStatus: "keeps (steady p) (SetStatus p actor g u status)"
proof -
  have "keeps (steady p) (transaction (setStatusTx p actor g u status))"
  proof (rule keeps_tx)
    fix a b and x :: "Membership \<times> bool"
    assume o: "ownedTables p (db a)" and run: "setStatusTx p actor g u status a = (Inr x, b)"
    obtain out ch where x: "x = (out, ch)" by (cases x)
    obtain m where m: "m \<in> set (members (db a))" "mb_OrgID m = g" "mb_UserID m = u"
      and d: "db b = db a \<or> (\<exists>t t'. db t = db a \<and> guardOwner p g m (mb_Role m) status t = (Inr (), t')) \<and>
        db b = (db a)\<lparr>members := updateWhere (\<lambda>r. mb_OrgID r = g \<and> mb_UserID r = u)
          (\<lambda>r. r\<lparr>mb_Role := mb_Role m, mb_Status := status\<rparr>) (members (db a))\<rparr>"
      using setStatusTx_Inr [OF run [unfolded x]] by blast
    have wf: "wfTables (db b)"
      using wf_run [OF wf_member_txs(2) run] o by (simp add: ownedTables_def)
    have uq: "uniqMembers (members (db a))" using o by (simp add: ownedTables_def wfTables_def okRows_def)
    show "ownedTables p (db b)"
      using d
    proof (elim disjE conjE exE)
      fix t t' assume t: "db t = db a" and gd: "guardOwner p g m (mb_Role m) status t = (Inr (), t')"
        and b: "db b = (db a)\<lparr>members := updateWhere (\<lambda>r. mb_OrgID r = g \<and> mb_UserID r = u)
          (\<lambda>r. r\<lparr>mb_Role := mb_Role m, mb_Status := status\<rparr>) (members (db a))\<rparr>"
      have "hasOwner p g' (db b)" if "hasOwner p g' (db a)" for g'
        unfolding b
        by (rule owner_after_update [OF uq m, where f = "\<lambda>r. r\<lparr>mb_Role := mb_Role m, mb_Status := status\<rparr>"])
          (use guardOwner_Inr [OF gd] t that in auto)
      then show ?thesis using wf o by (simp add: ownedTables_def b)
    qed (use o in simp)
  qed
  note tx = this
  show ?thesis
    unfolding SetStatus_def by (intro keeps_intros tx; intro keeps_quiet db_intros env_intros)
qed

lemma owned_remove: "pg_ownerRole p \<noteq> [] \<Longrightarrow> keeps (steady p) (RemoveMember p actor g u)"
proof -
  assume ne: "pg_ownerRole p \<noteq> []"
  have "keeps (steady p) (transaction (removeTx p actor g u))"
  proof (rule keeps_tx)
    fix a b m
    assume o: "ownedTables p (db a)" and run: "removeTx p actor g u a = (Inr m, b)"
    have m: "m \<in> set (members (db a))" "mb_OrgID m = g" "mb_UserID m = u"
      using removeTx_Inr [OF run] by auto
    obtain t t' where t: "db t = db a" and gd: "guardOwner p g m [] MembershipSuspended t = (Inr (), t')"
      and b: "db b = (db a)\<lparr>members := deleteWhere (\<lambda>r. mb_OrgID r = g \<and> mb_UserID r = u) (members (db a)),
        sessions := updateWhere (\<lambda>x. se_UserID x = u \<and> se_ActiveOrgID x = Some g) (\<lambda>x. x\<lparr>se_ActiveOrgID := None\<rparr>)
          (sessions (db a))\<rparr>"
      using removeTx_Inr [OF run] by auto
    have wf: "wfTables (db b)"
      using wf_run [OF wf_member_txs(3) run] o by (simp add: ownedTables_def)
    have uq: "uniqMembers (members (db a))" using o by (simp add: ownedTables_def wfTables_def okRows_def)
    have other: "mb_Role m = pg_ownerRole p \<and> mb_Status m = MembershipActive \<longrightarrow>
      (\<exists>o' \<in> set (members (db a)). mb_OrgID o' = g \<and> mb_Role o' = pg_ownerRole p \<and> mb_Status o' = MembershipActive \<and>
        mb_UserID o' \<noteq> mb_UserID m)"
      using guardOwner_Inr [OF gd] ne t by auto
    have "hasOwner p g' (db b)" if "hasOwner p g' (db a)" for g'
      using owner_after_delete [OF m uq other that] by (simp add: b hasOwner_def)
    then show "ownedTables p (db b)" using wf o by (simp add: ownedTables_def b)
  qed
  note tx = this
  show ?thesis
    unfolding RemoveMember_def by (intro keeps_intros tx; intro keeps_quiet db_intros env_intros)
qed

lemma owned_orgIDs: "ownedTables p t \<longleftrightarrow> wfTables t \<and> (\<forall>g \<in> orgIDs (orgs t). hasOwner p g t)"
  by (auto simp: ownedTables_def orgIDs_def)

lemma createOrgTx_Inr:
  assumes "createOrgTx p actor og m s = (Inr x, s')"
  shows "db s' = (db s)\<lparr>orgs := orgs (db s) @ [og], members := members (db s) @ [memberRow m]\<rparr>"
  using assms
  by (auto simp: createOrgTx_def success_simps veto_Inr CreateOrganization_def CreateMembership_def insertRow_Inr)

lemma wf_org_txs [db_intros]:
  "dbInv wfTables (createOrgTx p actor og m)" "dbInv wfTables (updateOrgTx p actor g n sl)"
  unfolding createOrgTx_def updateOrgTx_def by (intro db_intros)+

lemma owned_create: "keeps (steady p) (CreateOrg p actor i)"
proof -
  have tx: "keeps (steady p) (transaction (createOrgTx p actor og m))"
    if "mb_OrgID m = og_ID og" "mb_Role m = pg_ownerRole p" "mb_Status m = MembershipActive" for og m
  proof (rule keeps_tx)
    fix a b and x :: unit
    assume o: "ownedTables p (db a)" and run: "createOrgTx p actor og m a = (Inr x, b)"
    have "wfTables (db b)" using wf_run [OF wf_org_txs(1) run] o by (simp add: ownedTables_def)
    then show "ownedTables p (db b)"
      using o that by (auto simp: createOrgTx_Inr [OF run] owned_orgIDs hasOwner_def orgIDs_append memberRow_def)
  qed
  show ?thesis
    unfolding CreateOrg_def Let_def
    by (intro keeps_intros tx; (simp; fail)?) (intro keeps_quiet db_intros env_intros)+
qed

lemma owned_UpdateOrganization [db_intros]: "dbInv (ownedTables p) (UpdateOrganization og)"
  unfolding dbInv_def keeps_def
proof (intro allI impI)
  fix s :: sys assume o: "ownedTables p (db s)"
  obtain r s' where run: "UpdateOrganization og s = (r, s')" by fastforce
  have wf: "wfTables (db s')" using wf_run [OF wf_UpdateOrganization run] o by (simp add: ownedTables_def)
  have "orgIDs (orgs (db s')) = orgIDs (orgs (db s)) \<and> members (db s') = members (db s)"
    using run
    by (auto simp: UpdateOrganization_def updateRows_def stmt_def andThen_def requireAffected_def ensure_def
        split: if_splits prod.splits sum.splits)
  then show "ownedTables p (db (snd (UpdateOrganization og s)))" using wf o run by (simp add: owned_orgIDs hasOwner_def)
qed

lemma owned_update: "keeps (steady p) (UpdateOrg p actor g i)"
proof -
  have tx: "keeps (steady p) (transaction (updateOrgTx p actor g n sl))" for n sl
  proof (rule keeps_tx)
    fix a b x
    assume o: "ownedTables p (db a)" and run: "updateOrgTx p actor g n sl a = (Inr x, b)"
    have "dbInv (ownedTables p) (updateOrgTx p actor g n sl)" unfolding updateOrgTx_def by (intro db_intros)
    from dbInvD [OF this run o] show "ownedTables p (db b)" .
  qed
  show ?thesis
    unfolding UpdateOrg_def Let_def by (intro keeps_intros tx; intro keeps_quiet db_intros env_intros)
qed

lemma DeleteOrganization_Inr:
  assumes "DeleteOrganization g s = (Inr x, s')"
  shows "members (db s') = deleteWhere (\<lambda>r. mb_OrgID r = g) (members (db s)) \<and>
    orgs (db s') = deleteWhere (\<lambda>m. og_ID m = g) (orgs (db s))"
  using assms
  by (auto simp: DeleteOrganization_def success_simps stmt_Inr deleteRows_Inr requireAffected_Inr deleteWhere_def)

lemma owned_delete:
  assumes "\<And>i. dbInv (ownedTables p) (pg_onDelete p i)"
  shows "keeps (steady p) (DeleteOrg p actor g)"
proof -
  have tx: "keeps (steady p) (transaction (deleteOrgTx p actor g))"
  proof (rule keeps_tx)
    fix a b x
    assume o: "ownedTables p (db a)" and run: "deleteOrgTx p actor g a = (Inr x, b)"
    obtain og t1 t2 t3 where 1: "OrganizationByID g a = (Inr og, t1)"
      and 2: "veto (pg_beforeOrg p ''OrganizationDelete'' og actor) t1 = (Inr (), t2)"
      and 3: "pg_onDelete p (og_ID og) t2 = (Inr (), t3)" and 4: "DeleteOrganization g t3 = (Inr (), b)"
      using run by (auto simp: deleteOrgTx_def success_simps)
    have "ownedTables p (db t2)" using o dbInv_same [OF org_reads(1) 1] 2 by (simp add: veto_Inr)
    then have o3: "ownedTables p (db t3)" by (rule dbInvD [OF assms 3])
    have "wfTables (db b)" using wf_run [OF wf_DeleteOrganization 4] o3 by (simp add: ownedTables_def)
    then show "ownedTables p (db b)"
      using o3 DeleteOrganization_Inr [OF 4] by (fastforce simp: ownedTables_def hasOwner_def)
  qed
  show ?thesis
    unfolding DeleteOrg_def by (intro keeps_intros tx; intro keeps_quiet db_intros env_intros)
qed

lemma owned_invite: "keeps (steady p) (Invite p actor i)"
proof -
  have tx: "keeps (steady p) (transaction (inviteTx p iv at))" for iv at
  proof (rule keeps_tx)
    fix a b and x :: unit
    assume o: "ownedTables p (db a)" and run: "inviteTx p iv at a = (Inr x, b)"
    have "dbInv (ownedTables p) (inviteTx p iv at)" unfolding inviteTx_def by (intro db_intros)
    from dbInvD [OF this run o] show "ownedTables p (db b)" .
  qed
  show ?thesis
    unfolding Invite_def Let_def by (intro keeps_intros tx; intro keeps_quiet db_intros env_intros)
qed

lemma owned_accept: "keeps (steady p) (AcceptInvitation p user token)"
proof -
  have tx: "keeps (steady p) (transaction (acceptTx p u h))" for u h
  proof (rule keeps_tx)
    fix a b x
    assume o: "ownedTables p (db a)" and run: "acceptTx p u h a = (Inr x, b)"
    have "dbInv (ownedTables p) (acceptTx p u h)" unfolding acceptTx_def by (intro db_intros)
    from dbInvD [OF this run o] show "ownedTables p (db b)" .
  qed
  show ?thesis
    unfolding AcceptInvitation_def by (intro keeps_intros tx; intro keeps_quiet db_intros env_intros)
qed

lemma owned_rest:
  "keeps (steady p) (RevokeInvitation p actor g i)" "keeps (steady p) (CreateRole p actor g n sts)"
  "keeps (steady p) (DeleteRole p actor g n)" "keeps (steady p) (CreateOrgTeam p actor g n r)"
  "keeps (steady p) (DeleteOrgTeam p actor g tm)" "keeps (steady p) (AddOrgTeamMember p actor g tm u)"
  "keeps (steady p) (RemoveOrgTeamMember p actor g tm u)" "keeps (steady p) (setActiveSession p us se g)"
  unfolding RevokeInvitation_def CreateRole_def DeleteRole_def CreateOrgTeam_def DeleteOrgTeam_def AddOrgTeamMember_def
    RemoveOrgTeamMember_def setActiveSession_def
  by (intro keeps_quiet; intro db_intros env_intros)+

lemma owned_personal: "keeps (steady p) (transaction (personalOrganization p us))"
proof (rule keeps_tx)
  fix a b and x :: unit
  assume o: "ownedTables p (db a)" and run: "personalOrganization p us a = (Inr x, b)"
  have "dbInv wfTables (personalOrganization p us)" unfolding personalOrganization_def by (intro db_intros)
  from wf_run [OF this run] have wf: "wfTables (db b)" using o by (simp add: ownedTables_def)
  show "ownedTables p (db b)"
  proof (cases "pg_personal p")
    case True
    define og where "og = \<lparr>og_ID = ids a (next_id a), og_Name = personalName us, og_Slug = personalSlug us,
      og_CreatedAt = clock a, og_UpdatedAt = clock a\<rparr>"
    define m where "m = \<lparr>mb_ID = ids a (next_id a + 1), mb_OrgID = og_ID og, mb_UserID = u_ID us, mb_Role = pg_ownerRole p,
      mb_Status = MembershipActive, mb_JoinedAt = clock a, mb_Permissions = [], mb_TeamRoles = []\<rparr>"
    have "db b = (db a)\<lparr>orgs := orgs (db a) @ [og], members := members (db a) @ [memberRow m]\<rparr>"
      using run True
      by (auto simp: personalOrganization_def success_simps now_Inr newUUID_def CreateOrganization_def
          CreateMembership_def insertRow_Inr og_def m_def tick_def)
    moreover have "mb_OrgID m = og_ID og" "mb_Role m = pg_ownerRole p" "mb_Status m = MembershipActive"
      by (simp_all add: m_def)
    ultimately show ?thesis using wf o by (auto simp: owned_orgIDs hasOwner_def orgIDs_append memberRow_def)
  next
    case False
    then show ?thesis using run o by (simp add: personalOrganization_def ret_Inr)
  qed
qed

text \<open>The operations of the plugin as requests, and the runs of an instance. Between two requests the rest of
  the program works on its own tables; it adds no organization and removes no membership.\<close>

datatype orgRequest =
    OCreate "User option" CreateOrgInput
  | OUpdate "User option" string UpdateOrgInput
  | ODelete "User option" string
  | OSetRole "User option" string string string
  | OSetStatus "User option" string string string
  | ORemove "User option" string string
  | OInvite "User option" InviteInput
  | OAccept "User option" string
  | ORevoke "User option" string string
  | OCreateRole "User option" string string "string list"
  | ODeleteRole "User option" string string
  | OCreateTeam "User option" string string string
  | ODeleteTeam "User option" string string
  | OAddTeamMember "User option" string string string
  | ORemoveTeamMember "User option" string string string
  | OSetActive User Session string
  | OPersonal User

fun serveOrg :: "orgPlugin \<Rightarrow> orgRequest \<Rightarrow> sys \<Rightarrow> sys" where
  "serveOrg p (OCreate a i) s = snd (CreateOrg p a i s)"
| "serveOrg p (OUpdate a g i) s = snd (UpdateOrg p a g i s)"
| "serveOrg p (ODelete a g) s = snd (DeleteOrg p a g s)"
| "serveOrg p (OSetRole a g u r) s = snd (SetRole p a g u r s)"
| "serveOrg p (OSetStatus a g u x) s = snd (SetStatus p a g u x s)"
| "serveOrg p (ORemove a g u) s = snd (RemoveMember p a g u s)"
| "serveOrg p (OInvite a i) s = snd (Invite p a i s)"
| "serveOrg p (OAccept u t) s = snd (AcceptInvitation p u t s)"
| "serveOrg p (ORevoke a g i) s = snd (RevokeInvitation p a g i s)"
| "serveOrg p (OCreateRole a g n sts) s = snd (CreateRole p a g n sts s)"
| "serveOrg p (ODeleteRole a g n) s = snd (DeleteRole p a g n s)"
| "serveOrg p (OCreateTeam a g n r) s = snd (CreateOrgTeam p a g n r s)"
| "serveOrg p (ODeleteTeam a g tm) s = snd (DeleteOrgTeam p a g tm s)"
| "serveOrg p (OAddTeamMember a g tm u) s = snd (AddOrgTeamMember p a g tm u s)"
| "serveOrg p (ORemoveTeamMember a g tm u) s = snd (RemoveOrgTeamMember p a g tm u s)"
| "serveOrg p (OSetActive us se g) s = snd (setActiveSession p us se g s)"
| "serveOrg p (OPersonal us) s = snd (transaction (personalOrganization p us) s)"

inductive orgReach :: "orgPlugin \<Rightarrow> sys \<Rightarrow> bool" for p where
  start: "wfTables (db s) \<Longrightarrow> orgs (db s) = [] \<Longrightarrow> \<not> in_tx s \<Longrightarrow> orgReach p s"
| request: "orgReach p s \<Longrightarrow> orgReach p (serveOrg p rq s)"
| environment: "orgReach p s \<Longrightarrow> wfTables (db s') \<Longrightarrow> orgs (db s') = orgs (db s) \<Longrightarrow>
    set (members (db s)) \<subseteq> set (members (db s')) \<Longrightarrow> \<not> in_tx s' \<Longrightarrow> orgReach p s'"

lemma steady_serveOrg:
  assumes "pg_ownerRole p \<noteq> []" and "\<And>i. dbInv (ownedTables p) (pg_onDelete p i)" and "steady p s"
  shows "steady p (serveOrg p rq s)"
  by (cases rq; simp only: serveOrg.simps;
      rule keepsD [where P = "steady p", OF _ assms(3)], (rule owned_create owned_update owned_delete [OF assms(2)] owned_setRole owned_setStatus
        owned_remove [OF assms(1)] owned_invite owned_accept owned_rest owned_personal)+)


end
