(* ===== verification/Org_Joining.thy ===== *)
theory Org_Joining
  imports Org_Properties
begin

text \<open>
  How people come into an organization and leave it: acceptance of an invitation, the member limit, removal, the
  active organization of a session, and the personal organization.
\<close>

section \<open>Acceptance\<close>

lemma ConsumeInvitation_Inr:
  assumes "ConsumeInvitation h at s = (Inr i, s')" and "uniqInvitations (invitations (db s))"
  shows "\<exists>row \<in> set (invitations (db s)). iv_TokenHash row = h \<and> iv_Status row = InvitationPending \<and> at < iv_ExpiresAt row \<and>
    i = row\<lparr>iv_Status := InvitationAccepted\<rparr> \<and>
    db s' = (db s)\<lparr>invitations := updateWhere (\<lambda>x. x = row) (\<lambda>x. x\<lparr>iv_Status := InvitationAccepted\<rparr>) (invitations (db s))\<rparr>"
proof -
  obtain t where c: "claimInvitation h at s = (Inr (), t)" and r: "InvitationByTokenHash h t = (Inr i, s')"
    using assms(1) by (auto simp: ConsumeInvitation_def success_simps)
  obtain row where row: "row \<in> set (invitations (db s))" "iv_TokenHash row = h" "iv_Status row = InvitationPending"
    "at < iv_ExpiresAt row"
    using claimInvitation_Inr(1) [OF c] by blast
  have uq: "distinct (map iv_TokenHash (invitations (db s)))" using assms(2) by (simp add: uniqInvitations_def)
  have only: "x = row" if "x \<in> set (invitations (db s))" "iv_TokenHash x = h" for x
    using distinct_map_unique [OF uq that(1) row(1)] that(2) row(2) by simp
  have eq: "updateWhere (\<lambda>i. iv_TokenHash i = h \<and> iv_Status i = InvitationPending \<and> iv_ExpiresAt i > at) f (invitations (db s)) =
      updateWhere (\<lambda>x. x = row) f (invitations (db s))" for f
    using row by (auto simp: updateWhere_def dest!: only)
  have t: "db t = (db s)\<lparr>invitations := updateWhere (\<lambda>x. x = row) (\<lambda>x. x\<lparr>iv_Status := InvitationAccepted\<rparr>) (invitations (db s))\<rparr>"
    using c by (auto simp: claimInvitation_def success_simps sql_success eq)
  have "find (\<lambda>i. iv_TokenHash i = h) (invitations (db t)) = Some i" "db s' = db t"
    using r by (auto simp: InvitationByTokenHash_def selectOne_Inr)
  then have "i \<in> set (invitations (db t))" "iv_TokenHash i = h" by (auto dest: find_SomeD)
  then have "i = row\<lparr>iv_Status := InvitationAccepted\<rparr>" using t by (auto simp: set_updateWhere dest: only)
  moreover have "db s' = (db s)\<lparr>invitations := updateWhere (\<lambda>x. x = row) (\<lambda>x. x\<lparr>iv_Status := InvitationAccepted\<rparr>)
      (invitations (db s))\<rparr>"
    using t \<open>db s' = db t\<close> by simp
  ultimately show ?thesis using row by blast
qed

lemma acceptTx_Inr:
  assumes "acceptTx p u h s = (Inr m, s')" and "wfTables (db s)"
  shows "\<exists>row \<in> set (invitations (db s)). iv_TokenHash row = h \<and> iv_Status row = InvitationPending \<and>
    clock s < iv_ExpiresAt row \<and> iv_EmailNormalized row = u_EmailNormalized u \<and>
    mb_OrgID m = iv_OrgID row \<and> mb_UserID m = u_ID u \<and> mb_Role m = iv_Role row \<and> mb_Status m = MembershipActive \<and>
    (\<forall>x \<in> set (members (db s)). \<not> (mb_OrgID x = iv_OrgID row \<and> mb_UserID x = u_ID u)) \<and>
    db s' = (db s)\<lparr>invitations := updateWhere (\<lambda>x. x = row) (\<lambda>x. x\<lparr>iv_Status := InvitationAccepted\<rparr>) (invitations (db s)),
      members := members (db s) @ [memberRow m]\<rparr>"
proof -
  obtain pend t1 acc t2 t3 where 1: "InvitationByTokenHash h s = (Inr pend, t1)"
    and e: "iv_EmailNormalized pend = u_EmailNormalized u"
    and 2: "ConsumeInvitation h (clock t1) t1 = (Inr acc, t2)" and 3: "CreateMembership m t3 = (Inr (), s')"
    and t3: "db t3 = db t2" and m: "mb_OrgID m = iv_OrgID acc" "mb_UserID m = u_ID u" "mb_Role m = iv_Role acc"
      "mb_Status m = MembershipActive"
    using assms(1)
    by (auto simp: acceptTx_def Let_def success_simps env_success now_Inr if_run newUUID_def split: if_splits)
  have t1: "t1 = tick s" and pend: "find (\<lambda>i. iv_TokenHash i = h) (invitations (db s)) = Some pend"
    using 1 by (auto simp: InvitationByTokenHash_def selectOne_Inr)
  have uq: "uniqInvitations (invitations (db t1))" using assms(2) by (simp add: t1 wfTables_def okRows_def)
  obtain row where row: "row \<in> set (invitations (db s))" "iv_TokenHash row = h" "iv_Status row = InvitationPending"
    "clock s < iv_ExpiresAt row" "acc = row\<lparr>iv_Status := InvitationAccepted\<rparr>"
    "db t2 = (db s)\<lparr>invitations := updateWhere (\<lambda>x. x = row) (\<lambda>x. x\<lparr>iv_Status := InvitationAccepted\<rparr>) (invitations (db s))\<rparr>"
    using ConsumeInvitation_Inr [OF 2 uq] by (auto simp: t1)
  have "distinct (map iv_TokenHash (invitations (db s)))" using uq by (simp add: t1 uniqInvitations_def)
  then have "pend = row" using distinct_map_unique row(1,2) find_SomeD [OF pend] by metis
  moreover have "uniqMembers (members (db t2) @ [memberRow m])"
    "db s' = (db t2)\<lparr>members := members (db t2) @ [memberRow m]\<rparr>"
    using 3 t3 by (auto simp: CreateMembership_def insertRow_Inr)
  moreover from this(1) have "(mb_OrgID m, mb_UserID m) \<notin> (\<lambda>m. (mb_OrgID m, mb_UserID m)) ` set (members (db t2))"
    by (simp add: uniqMembers_def memberRow_def)
  moreover have "members (db t2) = members (db s)" using row(6) by simp
  ultimately have "\<forall>x \<in> set (members (db s)). \<not> (mb_OrgID x = mb_OrgID m \<and> mb_UserID x = mb_UserID m)"
    "pend = row" "db s' = (db t2)\<lparr>members := members (db t2) @ [memberRow m]\<rparr>" by (auto simp: image_iff)
  then show ?thesis using row m e by (intro bexI [of _ row]) auto
qed

text \<open>An invitation that is not pending stays so under an acceptance.\<close>

lemma spent_invitation:
  assumes "\<not> invitationUsable (cf_hash (pg_cfg p) token) (db s)" and "wfTables (db s)"
  shows "AcceptInvitation p user token s \<noteq> (Inr m, s')"
proof
  assume run: "AcceptInvitation p user token s = (Inr m, s')"
  obtain u t where "transaction (acceptTx p u (cf_hash (pg_cfg p) token)) s = (Inr m, t)"
    using run by (auto simp: AcceptInvitation_def success_simps env_success split: option.splits if_splits)
  then obtain a b where a: "acceptTx p u (cf_hash (pg_cfg p) token) a = (Inr m, b)" "db a = db s"
    by (rule transaction_InrE)
  then show False using acceptTx_Inr [OF a(1)] assms by (auto simp: invitationUsable_def)
qed

text \<open>C36. Only the invited address joins: an acceptance needs a pending and unexpired invitation for the address of
  the signed-in user, gives exactly the invited role in exactly that organization to a person who is no member
  yet, and spends the invitation, so nobody accepts it again. A refused acceptance changes nothing and does not
  spend the invitation.\<close>

theorem accept_invitation:
  assumes "wfTables (db s)" and "\<not> in_tx s" and "AcceptInvitation p (Some u) token s = (r, s')"
  shows "case r of
      Inl e \<Rightarrow> db s' = db s
    | Inr m \<Rightarrow> (\<exists>row \<in> set (invitations (db s)). iv_TokenHash row = cf_hash (pg_cfg p) token \<and>
        iv_Status row = InvitationPending \<and> clock s < iv_ExpiresAt row \<and> iv_EmailNormalized row = u_EmailNormalized u \<and>
        mb_OrgID m = iv_OrgID row \<and> mb_UserID m = u_ID u \<and> mb_Role m = iv_Role row \<and> mb_Status m = MembershipActive \<and>
        (\<forall>x \<in> set (members (db s)). \<not> (mb_OrgID x = iv_OrgID row \<and> mb_UserID x = u_ID u)) \<and>
        db s' = (db s)\<lparr>invitations := updateWhere (\<lambda>x. x = row) (\<lambda>x. x\<lparr>iv_Status := InvitationAccepted\<rparr>)
            (invitations (db s)), members := members (db s) @ [memberRow m]\<rparr> \<and>
        (\<forall>user s2 m2 s3. wfTables (db s2) \<and> invitations (db s2) = invitations (db s') \<longrightarrow>
           AcceptInvitation p user token s2 \<noteq> (Inr m2, s3)))"
proof (cases r)
  case (Inl e)
  have "token = [] \<and> s' = s \<or> transaction (acceptTx p u (cf_hash (pg_cfg p) token)) s = (Inl e, s')"
    using assms(3) Inl
    by (auto simp: AcceptInvitation_def failure_simps success_simps env_success response_Inl orgEmit_def split: if_splits)
  then show ?thesis using transaction_Inl_db [OF assms(2)] Inl by auto
next
  case (Inr m)
  obtain t where tx: "transaction (acceptTx p u (cf_hash (pg_cfg p) token)) s = (Inr m, t)" and t: "db s' = db t"
    using assms(3) Inr
    by (auto simp: AcceptInvitation_def success_simps env_success orgEmit_def split: if_splits)
  obtain a b where a: "acceptTx p u (cf_hash (pg_cfg p) token) a = (Inr m, b)" "db a = db s" "clock a = clock s" "db t = db b"
    using transaction_InrE [OF tx] by metis
  obtain row where row: "row \<in> set (invitations (db s))" "iv_TokenHash row = cf_hash (pg_cfg p) token"
    "iv_Status row = InvitationPending" "clock s < iv_ExpiresAt row" "iv_EmailNormalized row = u_EmailNormalized u"
    "mb_OrgID m = iv_OrgID row" "mb_UserID m = u_ID u" "mb_Role m = iv_Role row" "mb_Status m = MembershipActive"
    "\<forall>x \<in> set (members (db s)). \<not> (mb_OrgID x = iv_OrgID row \<and> mb_UserID x = u_ID u)"
    "db s' = (db s)\<lparr>invitations := updateWhere (\<lambda>x. x = row) (\<lambda>x. x\<lparr>iv_Status := InvitationAccepted\<rparr>)
       (invitations (db s)), members := members (db s) @ [memberRow m]\<rparr>"
    using acceptTx_Inr [OF a(1), unfolded a(2,3), OF assms(1)] a(4) t by metis
  have "distinct (map iv_TokenHash (invitations (db s)))"
    using assms(1) by (simp add: wfTables_def okRows_def uniqInvitations_def)
  then have "\<not> invitationUsable (cf_hash (pg_cfg p) token) (db s')"
    using distinct_map_unique row(1,2) by (force simp: invitationUsable_def row(11) set_updateWhere)
  then have "AcceptInvitation p user token s2 \<noteq> (Inr m2, s3)"
    if "wfTables (db s2)" "invitations (db s2) = invitations (db s')" for user s2 m2 s3
    using spent_invitation [of p token s2 user m2 s3] that by (simp add: invitationUsable_def)
  then show ?thesis using row Inr by auto
qed

section \<open>Removal\<close>


section \<open>The member limit\<close>

text \<open>What the limit counts: the active members and the pending invitations of an organization.\<close>

definition load :: "string \<Rightarrow> time \<Rightarrow> tables \<Rightarrow> nat" where
  "load g at t = countWhere (\<lambda>m. mb_OrgID m = g \<and> mb_Status m = MembershipActive) (members t) +
     countWhere (\<lambda>i. iv_OrgID i = g \<and> iv_Status i = InvitationPending \<and> iv_ExpiresAt i > at) (invitations t)"

lemma countWhere_append [simp]: "countWhere P (xs @ [x]) = countWhere P xs + (if P x then 1 else 0)"
  by (simp add: countWhere_def)

lemma guardMemberLimit_Inr:
  assumes "guardMemberLimit p g at s = (Inr x, s')" and "pg_maxMembers p > 0"
  shows "int (load g at (db s)) < pg_maxMembers p" "db s' = db s"
  using assms
  by (auto simp: guardMemberLimit_def success_simps CountMembers_def CountPendingInvitations_def sql_success load_def
      split: if_splits)

lemma inviteTx_Inr:
  assumes "inviteTx p iv at s = (Inr x, s')" and "pg_maxMembers p > 0"
  shows "int (load (iv_OrgID iv) at (db s)) < pg_maxMembers p"
    "db s' = (db s)\<lparr>invitations := invitations (db s) @ [iv]\<rparr>"
proof -
  obtain og t1 us t2 y t3 t4 where 1: "OrganizationByID (iv_OrgID iv) s = (Inr og, t1)"
    and 2: "orAbsent (Users_GetByNormalizedEmail (iv_EmailNormalized iv)) t1 = (Inr us, t2)"
    and 3: "(case us of None \<Rightarrow> ret () | Some u \<Rightarrow>
           andThen (orAbsent (MembershipOf (iv_OrgID iv) (u_ID u))) (\<lambda>m.
           case m of None \<Rightarrow> ret () | Some _ \<Rightarrow> fail (api CodeAlreadyMember))) t2 = (Inr y, t3)"
    and 4: "guardMemberLimit p (iv_OrgID iv) at t3 = (Inr (), t4)" and 5: "CreateInvitation iv t4 = (Inr (), s')"
    using assms(1) by (auto simp: inviteTx_def success_simps)
  have "db t1 = db s" by (rule dbInv_same [OF org_reads(1) 1])
  moreover have "db t2 = db t1" by (rule dbInv_same [OF org_actor(6) [OF read_any(7)] 2])
  moreover have "db t3 = db t2"
  proof (cases us)
    case None
    then show ?thesis using 3 by (simp add: ret_Inr)
  next
    case (Some u)
    obtain m t where o: "orAbsent (MembershipOf (iv_OrgID iv) (u_ID u)) t2 = (Inr m, t)"
      and "t3 = t" using 3 by (auto simp: Some success_simps split: option.splits)
    then show ?thesis using dbInv_same [OF org_actor(6) [OF org_reads(2)] o] by simp
  qed
  ultimately show "int (load (iv_OrgID iv) at (db s)) < pg_maxMembers p"
    "db s' = (db s)\<lparr>invitations := invitations (db s) @ [iv]\<rparr>"
    using guardMemberLimit_Inr [OF 4 assms(2)] 5 by (auto simp: CreateInvitation_def insertRow_Inr)
qed

lemma countWhere_spend:
  assumes "row \<in> set xs" and "P row" and "\<not> P (f row)"
  shows "countWhere P (updateWhere (\<lambda>x. x = row) f xs) < countWhere P xs"
  using assms(1)
proof (induction xs)
  case (Cons x xs)
  have le: "countWhere P (updateWhere (\<lambda>x. x = row) f ys) \<le> countWhere P ys" for ys
    using assms(2,3) by (induction ys) (auto simp: countWhere_def)
  show ?case
  proof (cases "x = row")
    case True
    then show ?thesis using le [of xs] assms(2,3) by (auto simp: countWhere_def)
  next
    case False
    then show ?thesis using Cons by (auto simp: countWhere_def)
  qed
qed simp


section \<open>The active organization\<close>

text \<open>A switch of the active organization writes the session of the caller only, and an organization becomes active only
  for an active member of it.\<close>

theorem set_active:
  assumes "setActiveSession p u se g s = (Inr x, s')"
  shows "db s' = (db s)\<lparr>sessions := updateWhere (\<lambda>r. se_ID r = se_ID se)
      (\<lambda>r. r\<lparr>se_ActiveOrgID := (if g = [] then None else Some g)\<rparr>) (sessions (db s))\<rparr> \<and>
    (g \<noteq> [] \<longrightarrow> (\<exists>m \<in> set (members (db s)). mb_OrgID m = g \<and> mb_UserID m = u_ID u \<and> mb_Status m = MembershipActive))"
proof (cases "g = []")
  case True
  then show ?thesis
    using assms by (auto simp: setActiveSession_def SetActiveOrganization_def success_simps sql_success)
next
  case False
  obtain og t1 m t2 t3 where 1: "OrganizationByID g s = (Inr og, t1)" and 2: "MembershipOf g (u_ID u) t1 = (Inr m, t2)"
    and ac: "mb_Status m = MembershipActive" and 3: "SetActiveOrganization (se_ID se) g t2 = (Inr (), t3)" and d: "db s' = db t3"
    using assms False
    by (auto simp: setActiveSession_def membershipOf_def success_simps env_success orgEmit_def split: if_splits)
  have t1: "db t1 = db s" by (rule dbInv_same [OF org_reads(1) 1])
  show ?thesis
    using 3 d False ac MembershipOf_Inr [OF 2] t1
    by (auto simp: SetActiveOrganization_def success_simps sql_success)
qed

section \<open>The personal organization\<close>

lemma TrimChar_Cons:
  assumes "TrimChar s c = x # xs"
  shows "x \<noteq> c \<and> set (x # xs) \<subseteq> set s"
proof -
  let ?t = "dropWhile (\<lambda>y. y = c) s"
  have "?t = TrimChar s c @ rev (takeWhile (\<lambda>y. y = c) (rev ?t))"
    by (simp add: TrimChar_def TrimRightF_def TrimLeftF_def) (metis rev_append rev_rev_ident takeWhile_dropWhile_id)
  then have t: "?t = x # xs @ rev (takeWhile (\<lambda>y. y = c) (rev ?t))" using assms by simp
  then have "x \<noteq> c" by (rule dropWhile_hd)
  moreover have "set (x # xs) \<subseteq> set ?t" using t by (metis set_append append_Cons Un_upper1)
  ultimately show ?thesis using set_dropWhileD by fastforce
qed

definition slugChar :: "char \<Rightarrow> bool" where
  "slugChar c \<longleftrightarrow> is_lower c \<or> is_digit c \<or> c = CHR ''-''"

lemma slugPattern_iff:
  "slugPattern s \<longleftrightarrow> s \<noteq> [] \<and> hd s \<noteq> CHR ''-'' \<and> length s \<le> 63 \<and> (\<forall>c \<in> set s. slugChar c)"
  by (cases s) (auto simp: slugPattern_def slugChar_def list_all_iff is_lower_def is_digit_def)

lemma slugChars_char: "c \<in> set (slugChars l) \<Longrightarrow> slugChar c"
  by (auto simp: slugChars_def slugChar_def lower_char_def is_upper_def is_lower_def is_digit_def)

text \<open>A trimmed text of slug characters, or \<open>user\<close>.\<close>

lemma orUser_shape:
  assumes "\<forall>c \<in> set s. slugChar c"
  shows "orUser (TrimChar s CHR ''-'') \<noteq> [] \<and> hd (orUser (TrimChar s CHR ''-'')) \<noteq> CHR ''-'' \<and>
    (\<forall>c \<in> set (orUser (TrimChar s CHR ''-'')). slugChar c)"
proof (cases "TrimChar s CHR ''-''")
  case Nil
  then show ?thesis by (auto simp: orUser_def slugChar_def is_lower_def)
next
  case (Cons x xs)
  then show ?thesis using TrimChar_Cons [OF Cons] assms by (auto simp: orUser_def)
qed

lemma TrimChar_length: "length (TrimChar s c) \<le> length s"
  by (simp add: TrimChar_def TrimRightF_def TrimLeftF_def) (metis length_dropWhile_le length_rev le_trans)

text \<open>The name part of a personal slug.\<close>

definition slugName :: "User \<Rightarrow> nat \<Rightarrow> string" where
  "slugName u room =
     (let slug = orUser (TrimChar (slugChars (localPart (u_EmailNormalized u))) CHR ''-'')
      in orUser (if length slug > room then TrimChar (take room slug) CHR ''-'' else slug))"

lemma slugName_shape:
  assumes "room \<ge> 4"
  shows "slugName u room \<noteq> [] \<and> hd (slugName u room) \<noteq> CHR ''-'' \<and> length (slugName u room) \<le> room \<and>
    (\<forall>c \<in> set (slugName u room). slugChar c)"
proof -
  let ?s = "orUser (TrimChar (slugChars (localPart (u_EmailNormalized u))) CHR ''-'')"
  have s: "?s \<noteq> []" "hd ?s \<noteq> CHR ''-''" "\<forall>c \<in> set ?s. slugChar c"
    using orUser_shape [of "slugChars (localPart (u_EmailNormalized u))"] slugChars_char by blast+
  show ?thesis
  proof (cases "length ?s > room")
    case True
    have "\<forall>c \<in> set (take room ?s). slugChar c" using s(3) by (meson in_set_takeD)
    moreover have "length (orUser (TrimChar (take room ?s) CHR ''-'')) \<le> room"
      using TrimChar_length [of "take room ?s" "CHR ''-''"] True assms by (auto simp: orUser_def)
    ultimately show ?thesis using orUser_shape [of "take room ?s"] True by (simp add: slugName_def)
  next
    case False
    moreover have "orUser ?s = ?s" using s(1) by (simp add: orUser_def)
    ultimately show ?thesis using s by (simp add: slugName_def)
  qed
qed

lemma personalSlug_eq:
  assumes "length (filter (\<lambda>c. c \<noteq> CHR ''-'') (u_ID u)) \<le> 58"
  shows "personalSlug u = slugName u (62 - length (filter (\<lambda>c. c \<noteq> CHR ''-'') (u_ID u))) @ ''-'' @
    filter (\<lambda>c. c \<noteq> CHR ''-'') (u_ID u)"
proof -
  have "nat (63 - int (length (filter (\<lambda>c. c \<noteq> CHR ''-'') (u_ID u))) - 1) =
      62 - length (filter (\<lambda>c. c \<noteq> CHR ''-'') (u_ID u))" by simp
  then show ?thesis using assms by (auto simp: personalSlug_def slugName_def Let_def)
qed

text \<open>C39. The slug of a personal organization follows the slug rule for every address and display name, and two
  people with identifiers of one length never share it. (The identifiers are UUIDs: at most 58 letters and
  digits in lower case, and hyphens.)\<close>

theorem personal_slug:
  assumes "\<forall>x \<in> {u, v}. (\<forall>c \<in> set (u_ID x). slugChar c) \<and> length (filter (\<lambda>c. c \<noteq> CHR ''-'') (u_ID x)) = n" and "n \<le> 58"
  shows "slugPattern (personalSlug u) \<and>
    (personalSlug u = personalSlug v \<longrightarrow>
       filter (\<lambda>c. c \<noteq> CHR ''-'') (u_ID u) = filter (\<lambda>c. c \<noteq> CHR ''-'') (u_ID v))"
proof -
  have u: "personalSlug u = slugName u (62 - n) @ ''-'' @ filter (\<lambda>c. c \<noteq> CHR ''-'') (u_ID u)"
    and v: "personalSlug v = slugName v (62 - n) @ ''-'' @ filter (\<lambda>c. c \<noteq> CHR ''-'') (u_ID v)"
    using personalSlug_eq [of u] personalSlug_eq [of v] assms by auto
  have len: "length (filter (\<lambda>c. c \<noteq> CHR ''-'') (u_ID u)) = n" using assms(1) by simp
  have "4 \<le> 62 - n" using assms(2) by simp
  note shape = slugName_shape [OF this, of u]
  have "slugChar CHR ''-''" by (simp add: slugChar_def)
  moreover have "length (slugName u (62 - n)) + n \<le> 62" using shape assms(2) by linarith
  ultimately have "slugPattern (personalSlug u)"
    using shape len assms(1) unfolding slugPattern_iff u by (simp add: ball_Un)
  moreover have "filter (\<lambda>c. c \<noteq> CHR ''-'') (u_ID u) = filter (\<lambda>c. c \<noteq> CHR ''-'') (u_ID v)"
    if "personalSlug u = personalSlug v"
    using that assms(1) unfolding u v by (simp add: append_eq_append_conv)
  ultimately show ?thesis by blast
qed

end
