(* ===== verification/Org_Keys.thy ===== *)
theory Org_Keys
  imports Org_Joining
begin

text \<open>
  The contract between API keys and organizations: what \<open>plugins/apikeys\<close> relies on when it resolves the key of an
  organization, and that \<open>KeyCredential\<close> of \<open>plugins/organizations\<close> fulfils it.
\<close>

section \<open>The contract of the resolver\<close>

text \<open>\<open>credential\<close> is \<open>KeyCredential\<close> of the interface. It changes nothing, it names the organization of the key and the
  active membership of the owner, and its statements are inside what \<open>holds\<close> grants to this member and this role.\<close>

locale organization_resolver =
  fixes credential :: "string \<Rightarrow> string \<Rightarrow> string \<Rightarrow> (sys, Organization \<times> Membership \<times> string list) oper"
    and holds :: "tables \<Rightarrow> Membership \<Rightarrow> string \<Rightarrow> string \<Rightarrow> bool"
  assumes reads: "credential g u r s = (x, s') \<Longrightarrow> db s' = db s"
    and names_org: "credential g u r s = (Inr (og, m, ps), s') \<Longrightarrow> og \<in> set (orgs (db s)) \<and> og_ID og = g"
    and active_member: "credential g u r s = (Inr (og, m, ps), s') \<Longrightarrow>
      m \<in> set (members (db s)) \<and> mb_OrgID m = g \<and> mb_UserID m = u \<and> mb_Status m = MembershipActive"
    and bounded: "credential g u r s = (Inr (og, m, ps), s') \<Longrightarrow> st \<in> set ps \<Longrightarrow> holds (db s) m r st"
begin

lemma orgCredential_member:
  assumes "orgCredential p k u pr s = (Inr q, s')" and "ak_OrgID k = Some g" and "g \<noteq> []"
    and "kp_organizations p = Some res" and "kr_KeyCredential res = credential"
  shows "\<exists>og m ps. og \<in> set (orgs (db s)) \<and> og_ID og = g \<and> m \<in> set (members (db s)) \<and> mb_OrgID m = g \<and>
    mb_UserID m = u_ID u \<and> mb_Status m = MembershipActive \<and> pr_Organization q = Some og \<and>
    pr_Membership q = Some (m\<lparr>mb_Permissions := Join ps '' ''\<rparr>) \<and> (\<forall>st \<in> set ps. holds (db s) m (ak_Role k) st)"
proof -
  obtain og m ps where c: "credential g (u_ID u) (ak_Role k) s = (Inr (og, m, ps), s')"
    and q: "q = pr\<lparr>pr_Organization := Some og, pr_Membership := Some (m\<lparr>mb_Permissions := Join ps '' ''\<rparr>)\<rparr>"
    using assms by (auto simp: orgCredential_def success_simps prod_run)
  show ?thesis
    using names_org [OF c] active_member [OF c] bounded [OF c]
    by (intro exI [of _ og] exI [of _ m] exI [of _ ps]) (simp add: q)
qed

lemma org_key_member:
  assumes "Resolve h p b s = (Inr q, s')" and "kp_organizations p = Some res" and "kr_KeyCredential res = credential"
  shows "\<exists>k \<in> set (api_keys (db s)). ak_KeyHash k = cf_hash (au_cfg (ho_auth h)) b \<and> keyLive k (clock s) \<and>
    u_ID (pr_User q) = ak_UserID k \<and>
    (\<forall>g. ak_OrgID k = Some g \<and> g \<noteq> [] \<longrightarrow> (\<exists>og m ps. og \<in> set (orgs (db s)) \<and> og_ID og = g \<and> m \<in> set (members (db s)) \<and>
       mb_OrgID m = g \<and> mb_UserID m = ak_UserID k \<and> mb_Status m = MembershipActive \<and> pr_Organization q = Some og \<and>
       pr_Membership q = Some (m\<lparr>mb_Permissions := Join ps '' ''\<rparr>) \<and> (\<forall>st \<in> set ps. holds (db s) m (ak_Role k) st)))"
proof -
  obtain k u t where a: "APIKeyByHash (cf_hash (au_cfg (ho_auth h)) b) s = (Inr (k, u), tick s)"
    and l: "keyLive k (clock s)" and o: "orgCredential p k u (keyPrincipal h p k u) (tick s) = (Inr q, t)"
    using Resolve_parts [OF assms(1)] by metis
  note row = APIKeyByHash_Inr [OF a]
  have "pr_User q = u" using orgCredential_Inr [OF o] by (simp add: keyPrincipal_def)
  then show ?thesis
    using row l orgCredential_member [OF o _ _ assms(2,3)] by (intro bexI [of _ k]) auto
qed

end

section \<open>The organizations plugin fulfils it\<close>

text \<open>What a key of an organization may carry: statements inside the live set of the member and of the role of the
  key.\<close>

definition keyHolds :: "orgPlugin \<Rightarrow> tables \<Rightarrow> Membership \<Rightarrow> string \<Rightarrow> string \<Rightarrow> bool" where
  "keyHolds p t m role st \<longleftrightarrow>
     Allows (memberSet p t m) st \<and>
     (\<exists>s. roleSet p t (mb_OrgID m) role = Some s \<and> st \<in> set (Statements s))"

lemma KeyCredential_Inr:
  assumes "KeyCredential p g u r s = (Inr (og, m, ps), s')"
  shows "og \<in> set (orgs (db s))" "og_ID og = g" "m \<in> set (members (db s))" "mb_OrgID m = g" "mb_UserID m = u"
    "mb_Status m = MembershipActive"
    "ps = intersect (case roleSet p (db s) g r of None \<Rightarrow> emptySet | Some x \<Rightarrow> x) (memberSet p (db s) m)"
proof -
  obtain t1 t2 live t3 known where 1: "OrganizationByID g s = (Inr og, t1)" and 2: "MembershipOf g u t1 = (Inr m, t2)"
    and ac: "mb_Status m = MembershipActive" and 3: "permissionsOfMembership p (Some m) t2 = (Inr live, t3)"
    and 4: "knownRole p g r t3 = (Inr known, s')"
    and ps: "ps = intersect (case known of None \<Rightarrow> emptySet | Some x \<Rightarrow> x) live"
    using assms by (auto simp: KeyCredential_def membershipOf_def success_simps if_run)
  have d: "db t1 = db s" "db t2 = db s" "db t3 = db s"
    using dbInv_same [OF org_reads(1) 1] dbInv_same [OF org_reads(2) 2] dbInv_same [OF org_permission_reads 3] by simp_all
  show "og \<in> set (orgs (db s))" "og_ID og = g"
    using 1 by (auto simp: OrganizationByID_def selectOne_Inr dest!: find_SomeD)
  show "m \<in> set (members (db s))" "mb_OrgID m = g" "mb_UserID m = u" using MembershipOf_Inr [OF 2] d by simp_all
  show "mb_Status m = MembershipActive" by (rule ac)
  show "ps = intersect (case roleSet p (db s) g r of None \<Rightarrow> emptySet | Some x \<Rightarrow> x) (memberSet p (db s) m)"
    using ps permissionsOfMembership_Inr [OF 3] knownRole_Inr(1) [OF 4] d by simp
qed

lemma not_in_empty [simp]: "st \<notin> set (Statements emptySet)"
  by (simp add: Statements_def emptySet_def)

interpretation okr: organization_resolver "KeyCredential p" "keyHolds p" for p
proof
  fix g u r s x s'
  assume run: "KeyCredential p g u r s = (x, s')"
  have "dbInv Q (KeyCredential p g u r)" for Q
    unfolding KeyCredential_def by (intro db_intros)
  from dbInv_same [OF this run] show "db s' = db s" .
next
  fix g u r s og m ps s'
  assume run: "KeyCredential p g u r s = (Inr (og, m, ps), s')"
  show "og \<in> set (orgs (db s)) \<and> og_ID og = g" using KeyCredential_Inr [OF run] by simp
  show "m \<in> set (members (db s)) \<and> mb_OrgID m = g \<and> mb_UserID m = u \<and> mb_Status m = MembershipActive"
    using KeyCredential_Inr [OF run] by simp
  show "keyHolds p (db s) m r st" if "st \<in> set ps" for st
    using that KeyCredential_Inr [OF run]
    by (auto simp: intersect_def keyHolds_def Allows_def split: option.splits sum.splits)
qed

text \<open>C34. The key of an organization authenticates only while its owner is an active member there; the request then acts
  in exactly that organization, and every statement that the credential carries is one of the role of the key and
  is allowed by the current permissions of the owner.\<close>

theorem org_key_sound:
  assumes "Resolve h p b s = (Inr q, s')" and "kp_organizations p = Some (orgKeyResolver g)"
  shows "\<exists>k \<in> set (api_keys (db s)). ak_KeyHash k = cf_hash (au_cfg (ho_auth h)) b \<and> keyLive k (clock s) \<and>
    u_ID (pr_User q) = ak_UserID k \<and>
    (\<forall>orgID. ak_OrgID k = Some orgID \<and> orgID \<noteq> [] \<longrightarrow>
      (\<exists>og m ps. og \<in> set (orgs (db s)) \<and> og_ID og = orgID \<and> m \<in> set (members (db s)) \<and>
       mb_OrgID m = orgID \<and> mb_UserID m = ak_UserID k \<and> mb_Status m = MembershipActive \<and> pr_Organization q = Some og \<and>
       pr_Membership q = Some (m\<lparr>mb_Permissions := Join ps '' ''\<rparr>) \<and>
       (\<forall>st \<in> set ps. Allows (memberSet g (db s) m) st \<and>
          (\<exists>rs. roleSet g (db s) orgID (ak_Role k) = Some rs \<and> st \<in> set (Statements rs)))))"
  using okr.org_key_member [OF assms(1,2)] unfolding keyHolds_def orgKeyResolver_def by fastforce

end
