(* ===== verification/Org_Runs.thy ===== *)
theory Org_Runs
  imports Org_Keys
begin

text \<open>
  The theorems about the organizations on concrete tables: an organization with an owner and a viewer, a pending
  invitation to a second one, and an API key of the first.
\<close>

section \<open>Two organizations\<close>

definition w_roles :: "(string \<times> PermSet) list" where
  "w_roles = map (\<lambda>(n, sts). (n, case NewSet sts of Inl e \<Rightarrow> emptySet | Inr s \<Rightarrow> s))
     [(''owner'', [''*'']), (''manager'', [''member:*'', ''project:read'']), (''viewer'', [''project:read''])]"

definition w_org :: orgPlugin where
  "w_org = \<lparr>pg_cfg = w_cfg, pg_roles = w_roles, pg_defaultRole = ''viewer'', pg_ownerRole = ''owner'',
     pg_allowCustomRoles = True, pg_maxMembers = 3, pg_invitationLifetime = 0, pg_personal = True, pg_objects = None,
     pg_beforeOrg = (\<lambda>n g a. None), pg_onDelete = orgKeysCleanup w_keys, pg_beforeMembership = (\<lambda>m a. None)\<rparr>"

definition w_member :: "string \<Rightarrow> string \<Rightarrow> string \<Rightarrow> string \<Rightarrow> Membership" where
  "w_member i g u r = \<lparr>mb_ID = i, mb_OrgID = g, mb_UserID = u, mb_Role = r, mb_Status = MembershipActive,
     mb_JoinedAt = 10, mb_Permissions = [], mb_TeamRoles = []\<rparr>"

definition w_organization :: "string \<Rightarrow> string \<Rightarrow> Organization" where
  "w_organization i slug = \<lparr>og_ID = i, og_Name = slug, og_Slug = slug, og_CreatedAt = 5, og_UpdatedAt = 5\<rparr>"

definition w_invitation :: Invitation where
  "w_invitation = \<lparr>iv_ID = ''v1'', iv_OrgID = ''o2'', iv_EmailNormalized = ''bob@x.io'', iv_Role = ''manager'',
     iv_InvitedBy = ''u1'', iv_TokenHash = ''#inv'', iv_Status = InvitationPending, iv_ExpiresAt = 500, iv_CreatedAt = 50\<rparr>"

definition w_orgKey :: APIKey where
  "w_orgKey = w_key\<lparr>ak_UserID := ''u1'', ak_OrgID := Some ''o1'', ak_Role := ''viewer'', ak_Scopes := []\<rparr>"

definition w_orgTables :: tables where
  "w_orgTables = w_core\<lparr>
     orgs := [w_organization ''o1'' ''acme'', w_organization ''o2'' ''initech''],
     members := [w_member ''m1'' ''o1'' ''u1'' ''owner'', w_member ''m2'' ''o1'' ''u2'' ''viewer'',
       w_member ''m3'' ''o2'' ''u1'' ''owner''],
     invitations := [w_invitation], api_keys := [w_orgKey],
     sessions := [w_session\<lparr>se_ActiveOrgID := Some ''o1''\<rparr>]\<rparr>"

lemma wf_w_orgTables: "wfTables w_orgTables"
  by (simp add: wf_eval w_orgTables_def w_core_def w_eval bob_def w_session_def w_orgKey_def w_key_def w_member_def
      w_organization_def w_invitation_def)

lemma wf_w_org: "wfPlugin w_org"
  by (simp add: wfPlugin_def w_org_def w_roles_def NewSet_or_empty)

lemma w_valid: "validate w_org = Inr w_org"
  by (simp add: validate_def Let_def w_org_def w_roles_def)

section \<open>The runs\<close>

theorem no_escalation_witness:
  "Allows (memberSet w_org w_orgTables (w_member ''m1'' ''o1'' ''u1'' ''owner'')) ''project:read''"
proof -
  let ?op = "GrantRole ''u2'' ''manager''"
  have "fst (runGrant w_org (Some ann) ''o1'' ?op (world w_orgTables)) = Inr ()" by code_simp
  then obtain s' where run: "runGrant w_org (Some ann) ''o1'' ?op (world w_orgTables) = (Inr (), s')"
    by (metis prod.collapse)
  have "map_option (\<lambda>gr. Allows gr ''project:read'') (granted w_org (db (world w_orgTables)) ''o1'' ?op) = Some True"
    by code_simp
  then show ?thesis
    using no_escalation [OF wf_w_org run]
    by (auto simp: w_orgTables_def w_member_def ann_def)
qed

theorem accept_invitation_witness:
  "\<exists>row \<in> set (invitations w_orgTables). iv_EmailNormalized row = u_EmailNormalized bob \<and> iv_Status row = InvitationPending \<and>
     invitations (db (snd (AcceptInvitation w_org (Some bob) ''inv'' (world w_orgTables)))) =
       updateWhere (\<lambda>x. x = row) (\<lambda>x. x\<lparr>iv_Status := InvitationAccepted\<rparr>) (invitations w_orgTables)"
proof -
  have "(case fst (AcceptInvitation w_org (Some bob) ''inv'' (world w_orgTables)) of Inl e \<Rightarrow> [] | Inr m \<Rightarrow> mb_Role m) = ''manager''"
    by code_simp
  then obtain m s' where run: "AcceptInvitation w_org (Some bob) ''inv'' (world w_orgTables) = (Inr m, s')"
    by (metis list.distinct(1) prod.collapse sum.case_eq_if sum.collapse(2))
  have "case Inr m of
      Inl e \<Rightarrow> db s' = db (world w_orgTables)
    | Inr m \<Rightarrow> (\<exists>row \<in> set (invitations (db (world w_orgTables))).
        iv_Status row = InvitationPending \<and> iv_EmailNormalized row = u_EmailNormalized bob \<and>
        invitations (db s') = updateWhere (\<lambda>x. x = row) (\<lambda>x. x\<lparr>iv_Status := InvitationAccepted\<rparr>) (invitations (db (world w_orgTables))))"
    using accept_invitation [OF _ _ run] wf_w_orgTables by fastforce
  then show ?thesis using run by auto
qed



theorem set_active_witness:
  "\<exists>m \<in> set (members w_orgTables). mb_OrgID m = ''o1'' \<and> mb_UserID m = ''u2'' \<and> mb_Status m = MembershipActive"
proof -
  have "fst (setActiveSession w_org bob w_session ''o1'' (world w_orgTables)) = Inr ()" by code_simp
  then obtain s' where run: "setActiveSession w_org bob w_session ''o1'' (world w_orgTables) = (Inr (), s')"
    by (metis prod.collapse)
  show ?thesis using set_active [OF run] by (simp add: bob_def ann_def)
qed

theorem personal_slug_witness:
  "slugPattern (personalSlug bob) \<and> personalSlug bob = ''bob-u2''"
proof -
  have "slugPattern (personalSlug bob)"
    by (rule conjunct1 [OF personal_slug [where v = ann and n = 2]])
      (simp_all add: bob_def ann_def slugChar_def is_lower_def is_digit_def)
  moreover have "personalSlug bob = ''bob-u2''" by code_simp
  ultimately show ?thesis by simp
qed

lemma w_orgKeysCleanup: "dbInv (ownedTables p) (pg_onDelete w_org i)"
  by (simp add: w_org_def w_keys_def orgKeysCleanup_def) (intro db_intros)

definition w_owned :: sys where
  "w_owned = serveOrg w_org (ORemove (Some ann) ''i'' ''u1'')
     (serveOrg w_org (OCreate (Some ann) \<lparr>cg_Name = ''Acme'', cg_Slug = ''acme'', cg_OwnerID = []\<rparr>) (world w_core))"


section \<open>The credential of a key of an organization\<close>

definition w_orgKeys :: keyPlugin where
  "w_orgKeys = w_keys\<lparr>kp_organizations := Some (orgKeyResolver w_org)\<rparr>"

theorem org_key_sound_witness:
  "\<exists>m \<in> set (members w_orgTables). mb_OrgID m = ''o1'' \<and> mb_UserID m = ''u1'' \<and> mb_Status m = MembershipActive"
proof -
  have "(case fst (Resolve w_host w_orgKeys ''ak_r'' (world w_orgTables)) of Inl e \<Rightarrow> False | Inr q \<Rightarrow> True)" by code_simp
  then obtain q s' where run: "Resolve w_host w_orgKeys ''ak_r'' (world w_orgTables) = (Inr q, s')"
    by (metis prod.collapse sum.case_eq_if sum.collapse(2))
  have "\<forall>k \<in> set (api_keys (db (world w_orgTables))). ak_OrgID k = Some ''o1'' \<and> ak_UserID k = ''u1''"
    by (simp add: w_orgTables_def w_orgKey_def)
  then show ?thesis using org_key_sound [OF run, of w_org] by (fastforce simp: w_orgKeys_def)
qed


end
