(* ===== verification/Token_Spec.thy ===== *)
theory Token_Spec
  imports Second_Factor
begin

text \<open>
  The one-time tokens as an abstract vault, and the proof that the token operations of \<open>tokens.go\<close> on the tokens table
  refine it: the vault is a finite map from kind and digest to the pending token, an issue is a map update, a
  consumption takes an entry out, and a peek looks at one.
\<close>

section \<open>The specification\<close>

type_synonym vault = "string \<times> string \<Rightarrow> Token option"

datatype tokenRequest =
    TIssue IssueTokenInput
  | TPeek string string
  | TConsume string string

datatype tokenAnswer =
    TRefused
  | TIssued string Token
  | TSeen Token
  | TRedeemed Token

text \<open>The entry that a value opens at a time.\<close>

definition opens :: "config \<Rightarrow> time \<Rightarrow> string \<Rightarrow> string \<Rightarrow> vault \<Rightarrow> Token option" where
  "opens cfg at kd p v =
     (if p = [] then None
      else case v (kd, cf_hash cfg p) of
             None \<Rightarrow> None
           | Some k \<Rightarrow> if at < tk_ExpiresAt k then Some k else None)"

definition freshToken :: "config \<Rightarrow> time \<Rightarrow> IssueTokenInput \<Rightarrow> string \<Rightarrow> Token \<Rightarrow> bool" where
  "freshToken cfg at i p tok \<longleftrightarrow>
     tk_Kind tok = it_Kind i \<and> tk_UserID tok = it_UserID i \<and> tk_Identifier tok = it_Identifier i \<and>
     tk_TokenHash tok = cf_hash cfg p \<and> tk_ConsumedAt tok = None \<and>
     tk_ExpiresAt tok = at + (if it_TTL i \<le> 0 then 3600000000000 else it_TTL i)"

definition withdrawn :: "IssueTokenInput \<Rightarrow> Token \<Rightarrow> bool" where
  "withdrawn i k \<longleftrightarrow> it_ReplaceExisting i \<and> it_Identifier i \<noteq> [] \<and> tk_Kind k = it_Kind i \<and> tk_Identifier k = it_Identifier i"

text \<open>The vault after an answer; \<open>None\<close> when the specification does not allow the answer. \<open>quiet\<close> says that the
  database answers every statement.\<close>

fun specStep :: "config \<Rightarrow> time \<Rightarrow> bool \<Rightarrow> tokenRequest \<Rightarrow> tokenAnswer \<Rightarrow> vault \<Rightarrow> vault option" where
  "specStep cfg at quiet (TIssue i) (TIssued p tok) v =
     (if freshToken cfg at i p tok
      then Some ((\<lambda>x. case v x of None \<Rightarrow> None | Some k \<Rightarrow> if withdrawn i k then None else Some k)
             ((it_Kind i, cf_hash cfg p) \<mapsto> tok))
      else None)"
| "specStep cfg at quiet (TPeek kd p) (TSeen tok) v = (if opens cfg at kd p v = Some tok then Some v else None)"
| "specStep cfg at quiet (TConsume kd p) (TRedeemed tok) v =
     (case opens cfg at kd p v of
        None \<Rightarrow> None
      | Some k \<Rightarrow> if tok = k\<lparr>tk_ConsumedAt := Some at\<rparr> then Some (v((kd, cf_hash cfg p) := None)) else None)"
| "specStep cfg at quiet (TIssue i) TRefused v = Some v"
| "specStep cfg at quiet (TPeek kd p) TRefused v = (if quiet \<and> opens cfg at kd p v \<noteq> None then None else Some v)"
| "specStep cfg at quiet (TConsume kd p) TRefused v = (if quiet \<and> opens cfg at kd p v \<noteq> None then None else Some v)"
| "specStep cfg at quiet rq answer v = None"

fun specRun :: "config \<Rightarrow> (time \<times> bool \<times> tokenRequest \<times> tokenAnswer) list \<Rightarrow> vault \<Rightarrow> vault option" where
  "specRun cfg [] v = Some v"
| "specRun cfg ((at, quiet, rq, answer) # steps) v =
     (case specStep cfg at quiet rq answer v of None \<Rightarrow> None | Some v' \<Rightarrow> specRun cfg steps v')"

section \<open>The implementation\<close>

definition answered :: "('a \<Rightarrow> tokenAnswer) \<Rightarrow> 'a res \<times> sys \<Rightarrow> tokenAnswer \<times> sys" where
  "answered f x = ((case fst x of Inl e \<Rightarrow> TRefused | Inr y \<Rightarrow> f y), snd x)"

fun serveToken :: "config \<Rightarrow> tokenRequest \<Rightarrow> sys \<Rightarrow> tokenAnswer \<times> sys" where
  "serveToken cfg (TIssue i) s = answered (\<lambda>(p, tok). TIssued p tok) (issueToken cfg i s)"
| "serveToken cfg (TPeek kd p) s = answered TSeen (peekToken cfg kd p s)"
| "serveToken cfg (TConsume kd p) s = answered TRedeemed (consumeToken cfg kd p s)"

text \<open>Between two requests the clock moves and the faults of the database change.\<close>

fun serveTokens ::
  "config \<Rightarrow> (time \<times> bool list \<times> tokenRequest) list \<Rightarrow> sys \<Rightarrow> (time \<times> bool \<times> tokenRequest \<times> tokenAnswer) list \<times> sys" where
  "serveTokens cfg [] s = ([], s)"
| "serveTokens cfg ((at, fs, rq) # rqs) s =
     (let (answer, s1) = serveToken cfg rq (s\<lparr>clock := at, faults := fs\<rparr>);
          (steps, s2) = serveTokens cfg rqs s1
      in ((at, fs = [], rq, answer) # steps, s2))"

section \<open>The abstraction\<close>

definition vaultOf :: "tables \<Rightarrow> vault" where
  "vaultOf t = (\<lambda>(kd, h). find (\<lambda>k. tk_Kind k = kd \<and> tk_TokenHash k = h \<and> tk_ConsumedAt k = None) (tokens t))"

lemma vaultOf_Some:
  assumes "uniqTokens (tokens t)"
  shows "vaultOf t (kd, h) = Some k \<longleftrightarrow>
    k \<in> set (tokens t) \<and> tk_Kind k = kd \<and> tk_TokenHash k = h \<and> tk_ConsumedAt k = None"
proof -
  have "distinct (map (\<lambda>k. (tk_Kind k, tk_TokenHash k)) (tokens t))" using assms by (simp add: uniqTokens_def)
  from distinct_map_unique [OF this] show ?thesis
    by (auto simp: vaultOf_def dest!: find_SomeD intro!: find_unique)
qed

lemma vaultOf_eqI:
  assumes "uniqTokens (tokens t)"
    and "\<And>kd h k. v (kd, h) = Some k \<longleftrightarrow>
      k \<in> set (tokens t) \<and> tk_Kind k = kd \<and> tk_TokenHash k = h \<and> tk_ConsumedAt k = None"
  shows "vaultOf t = v"
proof
  fix x :: "string \<times> string"
  obtain kd h where x: "x = (kd, h)" by fastforce
  have "vaultOf t (kd, h) = Some k \<longleftrightarrow> v (kd, h) = Some k" for k
    using vaultOf_Some [OF assms(1)] assms(2) by simp
  then show "vaultOf t x = v x" unfolding x by (metis option.exhaust)
qed

lemma wf_uniqTokens: "wfTables t \<Longrightarrow> uniqTokens (tokens t)"
  by (simp add: wfTables_def okRows_def)

section \<open>One step\<close>

lemma issue_refines:
  assumes "issueToken cfg i s = (Inr (p, tok), s')" and wf: "wfTables (db s)"
  shows "specStep cfg (clock s) q (TIssue i) (TIssued p tok) (vaultOf (db s)) = Some (vaultOf (db s'))"
proof -
  note iss = issueToken_Inr [OF assms(1)]
  let ?v = "(\<lambda>x. case vaultOf (db s) x of None \<Rightarrow> None | Some k \<Rightarrow> if withdrawn i k then None else Some k)
      ((it_Kind i, cf_hash cfg p) \<mapsto> tok)"
  have mem: "k \<in> set (tokens (db s')) \<longleftrightarrow> k = tok \<or> k \<in> set (tokens (db s)) \<and> \<not> withdrawn i k" for k
    using iss by (auto simp: withdrawn_def deleteWhere_def)
  have uq: "uniqTokens (tokens (db s'))" using iss by blast
  then have d: "distinct (map (\<lambda>k. (tk_Kind k, tk_TokenHash k)) (tokens (db s')))" by (simp add: uniqTokens_def)
  have tok: "tk_Kind tok = it_Kind i" "tk_TokenHash tok = cf_hash cfg p" "tk_ConsumedAt tok = None" "tok \<in> set (tokens (db s'))"
    using iss mem by simp_all
  have only: "k = tok" if "k \<in> set (tokens (db s'))" "tk_Kind k = it_Kind i" "tk_TokenHash k = cf_hash cfg p" for k
    using distinct_map_unique [OF d that(1) tok(4)] that(2,3) tok(1,2) by simp
  have "vaultOf (db s') = ?v"
  proof (rule vaultOf_eqI [OF uq])
    fix kd h k
    show "?v (kd, h) = Some k \<longleftrightarrow> k \<in> set (tokens (db s')) \<and> tk_Kind k = kd \<and> tk_TokenHash k = h \<and> tk_ConsumedAt k = None"
    proof (cases "(kd, h) = (it_Kind i, cf_hash cfg p)")
      case True
      then have "?v (kd, h) = Some tok" by simp
      moreover have "tok = k \<longleftrightarrow> k \<in> set (tokens (db s')) \<and> tk_Kind k = kd \<and> tk_TokenHash k = h \<and> tk_ConsumedAt k = None"
        using True tok only [of k] by blast
      ultimately show ?thesis by simp
    next
      case False
      then have "k \<noteq> tok" if "tk_Kind k = kd" "tk_TokenHash k = h" using that tok(1,2) by auto
      moreover have "?v (kd, h) = Some k \<longleftrightarrow> vaultOf (db s) (kd, h) = Some k \<and> \<not> withdrawn i k"
        using False by (auto split: option.splits if_splits)
      ultimately show ?thesis unfolding vaultOf_Some [OF wf_uniqTokens [OF wf]] using mem by blast
    qed
  qed
  moreover have "freshToken cfg (clock s) i p tok" using iss by (simp add: freshToken_def)
  ultimately show ?thesis by simp
qed

lemma issue_refused:
  assumes "issueToken cfg i s = (Inl e, s')" and "\<not> in_tx s"
  shows "db s' = db s"
  using assms
  by (auto simp: issueToken_def Let_def failure_simps success_simps env_success response_Inl NewToken_def now_def
      newUUID_def split: if_splits option.splits dest!: transaction_Inl_db [rotated])

lemma opens_Some:
  assumes "wfTables (db s)"
  shows "opens cfg at kd p (vaultOf (db s)) = Some k \<longleftrightarrow>
    p \<noteq> [] \<and> k \<in> set (tokens (db s)) \<and> tk_Kind k = kd \<and> tk_TokenHash k = cf_hash cfg p \<and> tk_ConsumedAt k = None \<and> at < tk_ExpiresAt k"
proof -
  have "opens cfg at kd p (vaultOf (db s)) = Some k \<longleftrightarrow>
      p \<noteq> [] \<and> vaultOf (db s) (kd, cf_hash cfg p) = Some k \<and> at < tk_ExpiresAt k"
    by (auto simp: opens_def split: option.splits if_splits)
  then show ?thesis using vaultOf_Some [OF wf_uniqTokens [OF assms]] by simp
qed

lemma tokens_find:
  assumes "wfTables t" and "k \<in> set (tokens t)" and "\<And>x. P x \<Longrightarrow> tk_Kind x = tk_Kind k \<and> tk_TokenHash x = tk_TokenHash k" and "P k"
  shows "find P (tokens t) = Some k"
proof -
  have d: "distinct (map (\<lambda>k. (tk_Kind k, tk_TokenHash k)) (tokens t))"
    using wf_uniqTokens [OF assms(1)] by (simp add: uniqTokens_def)
  show ?thesis
  proof (rule find_unique [where p = P, OF assms(2,4)])
    show "a = k" if "a \<in> set (tokens t)" "P a" for a
      using distinct_map_unique [OF d that(1) assms(2)] assms(3) [OF that(2)] by simp
  qed
qed

lemma peek_refines:
  assumes "peekToken cfg kd p s = (r, s')" and wf: "wfTables (db s)"
  shows "specStep cfg (clock s) (faults s = []) (TPeek kd p) (case r of Inl e \<Rightarrow> TRefused | Inr k \<Rightarrow> TSeen k) (vaultOf (db s)) =
    Some (vaultOf (db s'))"
proof (cases r)
  case (Inl e)
  have "dbInv Q (peekToken cfg kd p)" for Q
    unfolding peekToken_def Tokens_Get_def by (intro db_intros)
  then have d: "db s' = db s" using dbInv_same assms(1) by blast
  have "opens cfg (clock s) kd p (vaultOf (db s)) = None" if q: "faults s = []"
  proof (rule ccontr)
    assume "opens cfg (clock s) kd p (vaultOf (db s)) \<noteq> None"
    then obtain k where k: "p \<noteq> []" "k \<in> set (tokens (db s))" "tk_Kind k = kd" "tk_TokenHash k = cf_hash cfg p"
      "tk_ConsumedAt k = None" "clock s < tk_ExpiresAt k"
      using opens_Some [OF wf] by blast
    have "find (\<lambda>x. tk_Kind x = kd \<and> tk_TokenHash x = cf_hash cfg p) (tokens (db s)) = Some k"
      using k by (intro tokens_find [OF wf]) auto
    then have "fst (peekToken cfg kd p s) = Inr k"
      using k q by (simp add: peekToken_def Tokens_Get_def optional_def caught_def selectOne_def stmt_def oper_defs now_def)
    then show False using assms(1) Inl by simp
  qed
  then show ?thesis using d Inl by simp
next
  case (Inr k)
  have "dbInv Q (peekToken cfg kd p)" for Q
    unfolding peekToken_def Tokens_Get_def by (intro db_intros)
  then have g: "db s' = db s" using dbInv_same assms(1) by blast
  have "p \<noteq> []" using assms(1) Inr by (auto simp: peekToken_def fail_def)
  then have "opens cfg (clock s) kd p (vaultOf (db s)) = Some k"
    using peekToken_Inr [OF assms(1) [unfolded Inr]] unfolding opens_Some [OF wf] by blast
  then show ?thesis using Inr g by simp
qed

lemma consume_vault:
  assumes "wfTables t" and "k \<in> set (tokens t)" and "tk_ConsumedAt k = None" and "at < tk_ExpiresAt k"
    and "tokens t' = updateWhere (\<lambda>x. tk_Kind x = tk_Kind k \<and> tk_TokenHash x = tk_TokenHash k \<and> tk_ConsumedAt x = None \<and>
      at < tk_ExpiresAt x) (\<lambda>x. x\<lparr>tk_ConsumedAt := Some at\<rparr>) (tokens t)" and "wfTables t'"
  shows "vaultOf t' = (vaultOf t)((tk_Kind k, tk_TokenHash k) := None)"
proof (rule vaultOf_eqI [OF wf_uniqTokens [OF assms(6)]])
  fix kd h x
  have d: "distinct (map (\<lambda>k. (tk_Kind k, tk_TokenHash k)) (tokens t))"
    using wf_uniqTokens [OF assms(1)] by (simp add: uniqTokens_def)
  have only: "y = k" if "y \<in> set (tokens t)" "tk_Kind y = tk_Kind k" "tk_TokenHash y = tk_TokenHash k" for y
    using distinct_map_unique [OF d that(1) assms(2)] that by simp
  have "x \<in> set (tokens t') \<and> tk_ConsumedAt x = None \<longleftrightarrow> x \<in> set (tokens t) \<and> tk_ConsumedAt x = None \<and> x \<noteq> k"
    (is "?new \<longleftrightarrow> ?old")
  proof
    assume ?new
    then have "x \<in> set (tokens t')" and n: "tk_ConsumedAt x = None" by simp_all
    from this(1) [unfolded assms(5)] show ?old
      using n assms(3,4) by (cases rule: in_updateWhereE) auto
  next
    assume ?old
    moreover from this have "\<not> (tk_Kind x = tk_Kind k \<and> tk_TokenHash x = tk_TokenHash k)" using only by blast
    ultimately show ?new unfolding assms(5) set_updateWhere by auto
  qed
  note new = this
  show "((vaultOf t)((tk_Kind k, tk_TokenHash k) := None)) (kd, h) = Some x \<longleftrightarrow>
      x \<in> set (tokens t') \<and> tk_Kind x = kd \<and> tk_TokenHash x = h \<and> tk_ConsumedAt x = None"
  proof (cases "(kd, h) = (tk_Kind k, tk_TokenHash k)")
    case True
    then have "((vaultOf t)((tk_Kind k, tk_TokenHash k) := None)) (kd, h) \<noteq> Some x" by (simp only: fun_upd_same) simp
    then show ?thesis using True new only [of x] by blast
  next
    case False
    have "((vaultOf t)((tk_Kind k, tk_TokenHash k) := None)) (kd, h) = vaultOf t (kd, h)"
      by (rule fun_upd_other [OF False])
    then show ?thesis using False new vaultOf_Some [OF wf_uniqTokens [OF assms(1)], of kd h x] by auto
  qed
qed

lemma update_none:
  assumes "find P (tokens t) = None"
  shows "tokens_update (updateWhere P f) t = t"
proof -
  have "updateWhere P f (tokens t) = tokens t"
    using assms by (intro updateWhere_none) (simp add: find_None_set)
  then show ?thesis by (cases t) simp
qed

lemma consume_refines:
  assumes "consumeToken cfg kd p s = (r, s')" and wf: "wfTables (db s)"
  shows "specStep cfg (clock s) (faults s = []) (TConsume kd p) (case r of Inl e \<Rightarrow> TRefused | Inr k \<Rightarrow> TRedeemed k)
    (vaultOf (db s)) = Some (vaultOf (db s'))"
proof (cases r)
  case (Inl e)
  have d: "db s' = db s"
    using assms(1) Inl
    by (auto simp: consumeToken_def failure_simps success_simps now_Inr now_def optional_Inr optional_def caught_eq Tokens_Consume_def
        updateReturning_def stmt_def update_none split: if_splits option.splits sum.splits)
  have "opens cfg (clock s) kd p (vaultOf (db s)) = None" if q: "faults s = []"
  proof (rule ccontr)
    assume "opens cfg (clock s) kd p (vaultOf (db s)) \<noteq> None"
    then obtain k where k: "p \<noteq> []" "k \<in> set (tokens (db s))" "tk_Kind k = kd" "tk_TokenHash k = cf_hash cfg p"
      "tk_ConsumedAt k = None" "clock s < tk_ExpiresAt k"
      using opens_Some [OF wf] by blast
    have "find (\<lambda>x. tk_Kind x = kd \<and> tk_TokenHash x = cf_hash cfg p \<and> tk_ConsumedAt x = None \<and> tk_ExpiresAt x > clock s)
        (tokens (db s)) = Some k"
      using k by (intro tokens_find [OF wf]) auto
    then have "\<exists>y. fst (consumeToken cfg kd p s) = Inr y"
      using k q by (simp add: consumeToken_def Tokens_Consume_def optional_def caught_def updateReturning_def stmt_def oper_defs now_def)
    then show False using assms(1) Inl by auto
  qed
  then show ?thesis using d Inl by simp
next
  case (Inr r')
  have run: "p \<noteq> []" "Tokens_Consume kd (cf_hash cfg p) (clock s) s = (Inr r', s')"
    using assms(1) Inr by (auto simp: consumeToken_def success_simps now_Inr optional_Inr split: if_splits option.splits)
  obtain k where k: "find (\<lambda>k. tk_Kind k = kd \<and> tk_TokenHash k = cf_hash cfg p \<and> tk_ConsumedAt k = None \<and>
        tk_ExpiresAt k > clock s) (tokens (db s)) = Some k" "r' = k\<lparr>tk_ConsumedAt := Some (clock s)\<rparr>"
    and d: "db s' = tokens_update (updateWhere (\<lambda>k. tk_Kind k = kd \<and> tk_TokenHash k = cf_hash cfg p \<and> tk_ConsumedAt k = None \<and>
        tk_ExpiresAt k > clock s) (\<lambda>k. k\<lparr>tk_ConsumedAt := Some (clock s)\<rparr>)) (db s)"
    using run(2) by (auto simp: Tokens_Consume_def updateReturning_Inr)
  note row = find_SomeD [OF k(1)]
  have o: "opens cfg (clock s) kd p (vaultOf (db s)) = Some k" unfolding opens_Some [OF wf] using row run(1) by blast
  have "wfTables (db s')" by (rule wf_run [OF wf_consumeToken assms(1) wf])
  then have "vaultOf (db s') = (vaultOf (db s))((kd, cf_hash cfg p) := None)"
    using consume_vault [OF wf, of k "clock s" "db s'"] row d by simp
  then show ?thesis using o k(2) Inr by simp
qed

lemma serveToken_refines:
  assumes "serveToken cfg rq s = (answer, s')" and "wfTables (db s)" and "\<not> in_tx s"
  shows "specStep cfg (clock s) (faults s = []) rq answer (vaultOf (db s)) = Some (vaultOf (db s'))"
proof (cases rq)
  case (TIssue i)
  obtain r where run: "issueToken cfg i s = (r, s')" and answer: "answer = (case r of Inl e \<Rightarrow> TRefused | Inr (p, tok) \<Rightarrow> TIssued p tok)"
    using assms(1) by (auto simp: TIssue answered_def prod_eq_iff)
  show ?thesis
  proof (cases r)
    case (Inl e)
    then show ?thesis using issue_refused [OF run [unfolded Inl] assms(3)] by (simp add: TIssue answer)
  next
    case (Inr x)
    obtain p tok where x: "x = (p, tok)" by fastforce
    show ?thesis using issue_refines [OF run [unfolded Inr x] assms(2)] by (simp add: TIssue answer Inr x)
  qed
next
  case (TPeek kd p)
  then show ?thesis using assms(1) peek_refines [OF surjective_pairing assms(2), of cfg kd p] by (simp add: answered_def)
next
  case (TConsume kd p)
  then show ?thesis using assms(1) consume_refines [OF surjective_pairing assms(2), of cfg kd p] by (simp add: answered_def)
qed

lemma serveToken_keeps:
  assumes "serveToken cfg rq s = (answer, s')" and "wfTables (db s)" and "\<not> in_tx s"
  shows "wfTables (db s') \<and> \<not> in_tx s'"
proof -
  have env: "envKept (issueToken cfg i)" "envKept (peekToken cfg kd p)" "envKept (consumeToken cfg kd p)" for i kd p
    unfolding issueToken_def peekToken_def by (intro env_intros)+
  have wf: "dbInv wfTables (peekToken cfg kd p)" for kd p
    unfolding peekToken_def Tokens_Get_def by (intro db_intros)
  show ?thesis
    using assms envKeptD(2) [OF env(1) surjective_pairing] envKeptD(2) [OF env(2) surjective_pairing]
      envKeptD(2) [OF env(3) surjective_pairing]
      wf_run [OF wf_issueToken surjective_pairing assms(2)] wf_run [OF wf surjective_pairing assms(2)]
      wf_run [OF wf_consumeToken surjective_pairing assms(2)]
    by (cases rq) (auto simp: answered_def)
qed

section \<open>Every run\<close>

text \<open>C30. The token operations refine the vault: whatever mix of issues, peeks and consumptions runs, at any times and
  with any failures of the database, every answer is one that the vault allows, the tokens table stays its image,
  and on a database that answers nobody is refused who holds a pending value before its expiry.\<close>

theorem tokens_refine_vault:
  assumes "wfTables (db s)" and "\<not> in_tx s" and "serveTokens cfg rqs s = (steps, s')"
  shows "specRun cfg steps (vaultOf (db s)) = Some (vaultOf (db s'))"
  using assms
proof (induction rqs arbitrary: s steps)
  case Nil
  then show ?case by simp
next
  case (Cons x rqs)
  obtain at fs rq where x: "x = (at, fs, rq)" by (cases x)
  let ?s = "s\<lparr>clock := at, faults := fs\<rparr>"
  obtain answer s1 rest where 1: "serveToken cfg rq ?s = (answer, s1)" and 2: "serveTokens cfg rqs s1 = (rest, s')"
    and steps: "steps = (at, fs = [], rq, answer) # rest"
    using Cons.prems(3) by (auto simp: x Let_def split: prod.splits)
  have s: "wfTables (db ?s)" "\<not> in_tx ?s" using Cons.prems by simp_all
  have "specStep cfg at (fs = []) rq answer (vaultOf (db s)) = Some (vaultOf (db s1))"
    using serveToken_refines [OF 1 s] by simp
  then show ?case using Cons.IH [OF _ _ 2] serveToken_keeps [OF 1 s] by (simp add: steps)
qed

text \<open>A link is issued, looked at twice, used, and refused afterwards.\<close>

theorem tokens_refine_vault_witness:
  "let i = \<lparr>it_Kind = ''magic-link'', it_UserID = None, it_Identifier = ''a@x.io'', it_ReplaceExisting = True, it_TTL = 60\<rparr>;
       rqs = [(100, [], TIssue i), (110, [], TPeek ''magic-link'' ''r''), (120, [], TConsume ''magic-link'' ''r''),
              (121, [], TConsume ''magic-link'' ''r'')];
       steps = fst (serveTokens w_cfg rqs (world w_core))
   in map (\<lambda>(at, q, rq, answer). answer \<noteq> TRefused) steps = [True, True, True, False] \<and>
      specRun w_cfg steps (vaultOf w_core) \<noteq> None"
proof -
  let ?i = "\<lparr>it_Kind = ''magic-link'', it_UserID = None, it_Identifier = ''a@x.io'', it_ReplaceExisting = True, it_TTL = 60\<rparr>"
  let ?rqs = "[(100, [], TIssue ?i), (110, [], TPeek ''magic-link'' ''r''), (120, [], TConsume ''magic-link'' ''r''),
              (121, [], TConsume ''magic-link'' ''r'')]"
  have "map (\<lambda>(at, q, rq, answer). answer \<noteq> TRefused) (fst (serveTokens w_cfg ?rqs (world w_core))) = [True, True, True, False]"
    by code_simp
  moreover obtain steps s' where run: "serveTokens w_cfg ?rqs (world w_core) = (steps, s')" by fastforce
  moreover have "specRun w_cfg steps (vaultOf w_core) \<noteq> None"
    using tokens_refine_vault [OF _ _ run] wf_w_core by simp
  ultimately show ?thesis by (simp add: Let_def)
qed

end
