(* ===== verification/Magic_Link.thy ===== *)
theory Magic_Link
  imports OAuth_Login
begin

text \<open>
  \<open>plugins/magiclink\<close>: the request of a sign-in link, the confirmation page and the completion of the sign-in.
  The presentation of an error (the JSON envelope or the browser answer) is not modelled; an error is the result.
\<close>

section \<open>The plugin\<close>

record magicPlugin =
  mk_ttl :: duration
  mk_createUser :: bool
  mk_callbackURL :: string
  mk_verifyURL :: string
  mk_noConfirm :: bool

definition magicID :: string where "magicID = ''magic-link''"

definition magicTokenKind :: string where "magicTokenKind = ''magic-link''"

definition DefaultTTL :: duration where "DefaultTTL = 900000000000"

text \<open>\<open>New\<close> on the plugin that the options made.\<close>

definition newMagic :: "magicPlugin \<Rightarrow> magicPlugin" where
  "newMagic p = (if mk_ttl p \<le> 0 then p\<lparr>mk_ttl := DefaultTTL\<rparr> else p)"

section \<open>The request of a link\<close>

definition linkURL :: "auth \<Rightarrow> magicPlugin \<Rightarrow> string \<Rightarrow> string \<Rightarrow> string" where
  "linkURL a p token callback =
     (let base = (if mk_verifyURL p = [] then cf_baseURL (au_cfg a) @ cf_basePath (au_cfg a) @ ''/magic-link/verify''
                  else mk_verifyURL p);
          sep = (if CHR ''?'' \<in> set base then ''&'' else ''?'');
          link = base @ sep @ ''token='' @ QueryEscape token
      in if callback \<noteq> [] then link @ ''&callbackURL='' @ QueryEscape callback else link)"

text \<open>\<open>Allow\<close> of the limiter, where a broken limiter lets the request pass.\<close>

definition allowOnly :: "auth \<Rightarrow> Key \<Rightarrow> (sys, unit) oper" where
  "allowOnly a key =
     (case cf_limiter (au_cfg a) of
        Decider decide \<Rightarrow> caught (decide key) (\<lambda>r. case r of
            Inl e \<Rightarrow> ret ()
          | Inr d \<Rightarrow> if dc_Allowed d then ret () else fail (api CodeRateLimited))
      | AllowOnly ask \<Rightarrow> caught (ask key) (\<lambda>r. case r of
            Inl e \<Rightarrow> ret ()
          | Inr ok \<Rightarrow> if ok then ret () else fail (api CodeRateLimited)))"

text \<open>The part of \<open>send\<close> behind the limit. Every early return is a failure of the model, and \<open>sendLink\<close> drops it.\<close>

definition mailLink :: "auth \<Rightarrow> magicPlugin \<Rightarrow> string \<Rightarrow> string \<Rightarrow> (sys, unit) oper" where
  "mailLink a p normalized callbackURL =
     (if \<not> Valid (cf_parseAddress (au_cfg a)) normalized then fail (api CodeInvalidRequest)
      else case cf_sender (au_cfg a) of
        None \<Rightarrow> fail (api CodeInternal)
      | Some sender \<Rightarrow>
          andThen (caught (GetUserByEmail normalized) (\<lambda>r. case r of
              Inr u \<Rightarrow> ret (Some u)
            | Inl e \<Rightarrow> if mk_createUser p then ret None else fail e)) (\<lambda>user.
          andThen (issueToken (au_cfg a) \<lparr>it_Kind = magicTokenKind, it_UserID = map_option u_ID user,
                     it_Identifier = normalized, it_ReplaceExisting = True, it_TTL = mk_ttl p\<rparr>) (\<lambda>(token, tok).
          andThen (send sender \<lparr>ml_Intent = ''magic-link'',
             ml_To = (case user of None \<Rightarrow> normalized | Some u \<Rightarrow> u_Email u),
             ml_UserID = (case user of None \<Rightarrow> [] | Some u \<Rightarrow> u_ID u), ml_Token = token,
             ml_URL = linkURL a p token (safeRedirect (au_edge a) callbackURL (mk_callbackURL p)),
             ml_ExpiresAt = Some (tk_ExpiresAt tok), ml_Data = []\<rparr>) (\<lambda>_.
          emit ''auth.magic_link_requested'' (case user of None \<Rightarrow> [] | Some u \<Rightarrow> u_ID u) []))))"

definition sendLink :: "auth \<Rightarrow> magicPlugin \<Rightarrow> httpRequest option \<Rightarrow> string \<Rightarrow> string \<Rightarrow> (sys, unit) oper" where
  "sendLink a p r address callbackURL =
     (let normalized = Normalize address;
          ip = (case r of None \<Rightarrow> [] | Some q \<Rightarrow> clientIP (au_edge a) q)
      in andThen (allowOnly a (keyOf OpMagicLinkRequest ip normalized [])) (\<lambda>_.
         ignoring (mailLink a p normalized callbackURL)))"

definition magicSend :: "auth \<Rightarrow> magicPlugin \<Rightarrow> httpRequest option \<Rightarrow> string \<Rightarrow> string \<Rightarrow> (sys, unit) oper" where
  "magicSend a p r address callbackURL =
     andThen (case r of None \<Rightarrow> ret () | Some q \<Rightarrow> originChecked a q) (\<lambda>_. sendLink a p r address callbackURL)"

definition handleMagicSend :: "auth \<Rightarrow> magicPlugin \<Rightarrow> httpRequest \<Rightarrow> (string \<times> string) res \<Rightarrow> (sys, unit) oper" where
  "handleMagicSend a p r body =
     andThen (originChecked a r) (\<lambda>_.
     andThen (decoded body) (\<lambda>(address, callbackURL).
     sendLink a p (Some r) address callbackURL))"

section \<open>The completion\<close>

definition resolveMagicUser :: "auth \<Rightarrow> magicPlugin \<Rightarrow> string option \<Rightarrow> string \<Rightarrow> (sys, User) oper" where
  "resolveMagicUser a p userID ident =
     (case userID of
        Some uid \<Rightarrow> mapFail (\<lambda>_. api CodeInvalidToken) (GetUser uid)
      | None \<Rightarrow> caught (GetUserByEmail ident) (\<lambda>r. case r of
            Inr u \<Rightarrow> ret u
          | Inl e \<Rightarrow>
              if \<not> mk_createUser p then fail (api CodeInvalidToken)
              else createUser (au_cfg a) \<lparr>ci_Email = ident, ci_Password = [], ci_DisplayName = [], ci_ImageURL = [],
                     ci_EmailVerified = True\<rparr> []))"

datatype magicAnswer =
    JSONTarget string
  | JSONChallenge string string
  | Browser redirect

definition completeVerify ::
  "auth \<Rightarrow> magicPlugin \<Rightarrow> httpRequest \<Rightarrow> string \<Rightarrow> string \<Rightarrow> bool \<Rightarrow> (sys, magicAnswer) oper" where
  "completeVerify a p r token callbackURL asJSON =
     andThen (consumeToken (au_cfg a) magicTokenKind token) (\<lambda>tok.
     andThen (resolveMagicUser a p (tk_UserID tok) (tk_Identifier tok)) (\<lambda>user.
     andThen (proveEmailOwnership (u_ID user) False) (\<lambda>_.
     andThen (mfaChallenge (au_cfg a) user) (\<lambda>challenge.
     andThen (case challenge of
         None \<Rightarrow> andThen (issueSession a (Some r) user magicID) (\<lambda>_. ret ())
       | Some _ \<Rightarrow> ret ()) (\<lambda>_.
     andThen (emit ''auth.magic_link_used'' (u_ID user) []) (\<lambda>_.
     let fallback = (if mk_callbackURL p = [] then cf_baseURL (au_cfg a) else mk_callbackURL p);
         safe = safeRedirect (au_edge a) callbackURL fallback;
         target = (if safe = [] then ''/'' else safe)
     in case challenge of
          Some c \<Rightarrow>
            if asJSON then ret (JSONChallenge c target)
            else andThen (setMFACookie a c) (\<lambda>_. ret (Browser (Marked target)))
        | None \<Rightarrow> ret (if asJSON then JSONTarget target else Browser (Target target))))))))"

definition setLinkHeaders :: "string \<Rightarrow> (sys, unit) oper" where
  "setLinkHeaders policy =
     andThen (setHeader ''Referrer-Policy'' policy) (\<lambda>_.
     andThen (setHeader ''Cache-Control'' ''no-store'') (\<lambda>_. setHeader ''Pragma'' ''no-cache''))"

record confirmationData =
  cd_Email :: string
  cd_Action :: string
  cd_Token :: string
  cd_CallbackURL :: string

datatype magicPage = Page confirmationData | Completed magicAnswer

text \<open>The request of the link itself: the page, or the sign-in of an instance without confirmation.\<close>

definition handleVerifyGet :: "auth \<Rightarrow> magicPlugin \<Rightarrow> httpRequest \<Rightarrow> (string \<Rightarrow> string) \<Rightarrow> (sys, magicPage) oper" where
  "handleVerifyGet a p r query =
     (if mk_noConfirm p then
        andThen (setLinkHeaders ''no-referrer'') (\<lambda>_.
        andThen (completeVerify a p r (query ''token'') (query ''callbackURL'') False) (\<lambda>x. ret (Completed x)))
      else
        andThen (setLinkHeaders ''same-origin'') (\<lambda>_.
        andThen (peekToken (au_cfg a) magicTokenKind (query ''token'')) (\<lambda>tok.
        ret (Page \<lparr>cd_Email = tk_Identifier tok, cd_Action = cf_basePath (au_cfg a) @ ''/magic-link/verify'',
          cd_Token = query ''token'', cd_CallbackURL = safeRedirect (au_edge a) (query ''callbackURL'') []\<rparr>))))"

text \<open>The body is the decoded JSON or the parsed form, which the content type selects.\<close>

definition handleVerifyPost ::
  "auth \<Rightarrow> magicPlugin \<Rightarrow> httpRequest \<Rightarrow> (string \<times> string) res \<Rightarrow> (sys, magicAnswer) oper" where
  "handleVerifyPost a p r body =
     (let wantJSON = HasPrefix (rq_Headers r ''Content-Type'') ''application/json'' in
      andThen (setLinkHeaders ''no-referrer'') (\<lambda>_.
      andThen (originChecked a r) (\<lambda>_.
      andThen (if wantJSON then decoded body else mapFail (\<lambda>_. api CodeInvalidRequest) (decoded body)) (\<lambda>(token, callbackURL).
      completeVerify a p r token callbackURL wantJSON))))"

section \<open>What a link needs, and what it does\<close>

text \<open>The proof of an address leaves a verified row of the user.\<close>

lemma prove_row:
  assumes "proveEmailOwnership (u_ID user) False s = (Inr x, s')" and "user \<in> set (users (db s))" and "wfTables (db s)"
  shows "\<exists>v \<in> set (users (db s')). u_ID v = u_ID user \<and> u_EmailNormalized v = u_EmailNormalized user \<and> u_EmailVerifiedAt v \<noteq> None"
    and "u_EmailVerifiedAt user = None \<Longrightarrow> (\<forall>se \<in> set (sessions (db s')). se_UserID se \<noteq> u_ID user) \<and>
      (\<forall>c \<in> set (credentials (db s')). cr_UserID c \<noteq> u_ID user)"
    and "set (sessions (db s')) \<subseteq> set (sessions (db s))" and "tokens (db s') = tokens (db s)" and "totps (db s') = totps (db s)"
proof -
  obtain u where u: "u \<in> set (users (db s))" "u_ID u = u_ID user" and
    d: "if u_EmailVerifiedAt u \<noteq> None then db s' = db s
     else db s' = (db s)\<lparr>
       users := updateWhere (\<lambda>x. u_ID x = u_ID user)
          (userUpdateOf (u\<lparr>u_EmailVerifiedAt := Some (clock s), u_UpdatedAt := clock s\<rparr>)) (users (db s)),
       sessions := deleteWhere (\<lambda>x. se_UserID x = u_ID user) (sessions (db s)),
       credentials := deleteWhere (\<lambda>c. cr_UserID c = u_ID user) (credentials (db s))\<rparr>"
    using proveEmailOwnership_Inr [OF assms(1)] by auto
  have eq: "u = user" using users_wf [OF assms(3) u(1) assms(2) u(2)] .
  have us: "users (db s') = (if u_EmailVerifiedAt user \<noteq> None then users (db s) else updateWhere (\<lambda>x. u_ID x = u_ID user)
      (userUpdateOf (user\<lparr>u_EmailVerifiedAt := Some (clock s), u_UpdatedAt := clock s\<rparr>)) (users (db s)))"
    using d eq by simp
  show "\<exists>v \<in> set (users (db s')). u_ID v = u_ID user \<and> u_EmailNormalized v = u_EmailNormalized user \<and> u_EmailVerifiedAt v \<noteq> None"
  proof (cases "u_EmailVerifiedAt user = None")
    case True
    let ?m = "user\<lparr>u_EmailVerifiedAt := Some (clock s), u_UpdatedAt := clock s\<rparr>"
    have "userUpdateOf ?m user \<in> set (users (db s'))"
      using True assms(2) unfolding us by (auto simp: set_updateWhere intro!: rev_image_eqI)
    then show ?thesis by (rule bexI [rotated]) (simp add: userUpdateOf_def)
  next
    case False
    then show ?thesis using assms(2) unfolding us by auto
  qed
  show "u_EmailVerifiedAt user = None \<Longrightarrow> (\<forall>se \<in> set (sessions (db s')). se_UserID se \<noteq> u_ID user) \<and>
      (\<forall>c \<in> set (credentials (db s')). cr_UserID c \<noteq> u_ID user)"
    using d eq by simp
  show "set (sessions (db s')) \<subseteq> set (sessions (db s))" "tokens (db s') = tokens (db s)" "totps (db s') = totps (db s)"
    using d by (auto split: if_splits)
qed

lemma resolveMagicUser_Inr:
  assumes "resolveMagicUser a p uid ident s = (Inr u, s')" and "wfTables (db s)"
  shows "case uid of Some i \<Rightarrow> u_ID u = i | None \<Rightarrow> u_EmailNormalized u = Normalize ident"
    and "u \<in> set (users (db s'))" and "db s' = db s \<or> u_ID u \<notin> u_ID ` set (users (db s))"
    and "\<exists>us. db s' = (db s)\<lparr>users := us\<rparr>"
proof -
  have r: "u \<in> set (users (db s')) \<and> (case uid of Some i \<Rightarrow> u_ID u = i | None \<Rightarrow> u_EmailNormalized u = Normalize ident) \<and>
    (db s' = db s \<or> u_ID u \<notin> u_ID ` set (users (db s))) \<and> (\<exists>us. db s' = (db s)\<lparr>users := us\<rparr>)"
  proof (cases uid)
    case (Some i)
    then show ?thesis
      using assms(1) by (auto simp: resolveMagicUser_def GetUser_def Users_GetByID_def success_simps selectOne_Inr dest!: find_SomeD)
        (metis tables.surjective tables.update_convs(1))
  next
    case None
    obtain q t where g: "GetUserByEmail ident s = (q, t)" by fastforce
    have t: "db t = db s" using g by (auto simp: GetUserByEmail_def mapFail_def Users_GetByNormalizedEmail_def selectOne_def stmt_def
        split: if_splits option.splits sum.splits prod.splits)
    show ?thesis
    proof (cases q)
      case (Inr v)
      then have "u = v" "db s' = db s" using assms(1) None g t by (auto simp: resolveMagicUser_def caught_eq ret_def)
      moreover have "v \<in> set (users (db s))" "u_EmailNormalized v = Normalize ident"
        using g Inr by (auto simp: GetUserByEmail_def success_simps Users_GetByNormalizedEmail_def selectOne_Inr dest!: find_SomeD)
      ultimately show ?thesis using None by (auto simp: exI [of _ "users (db s)"])
    next
      case (Inl e)
      then have "createUser (au_cfg a) \<lparr>ci_Email = ident, ci_Password = [], ci_DisplayName = [], ci_ImageURL = [],
                     ci_EmailVerified = True\<rparr> [] t = (Inr u, s')"
        using assms(1) None g by (auto simp: resolveMagicUser_def caught_eq fail_def split: if_splits)
      from createUser_Inr [OF this] show ?thesis using None t assms(2) by auto
    qed
  qed
  show "u \<in> set (users (db s'))" "case uid of Some i \<Rightarrow> u_ID u = i | None \<Rightarrow> u_EmailNormalized u = Normalize ident"
    "db s' = db s \<or> u_ID u \<notin> u_ID ` set (users (db s))" "\<exists>us. db s' = (db s)\<lparr>users := us\<rparr>" using r by blast+
qed

lemma wf_resolveMagicUser: "dbInv wfTables (resolveMagicUser a p uid ident)"
  unfolding resolveMagicUser_def GetUser_def GetUserByEmail_def by (intro db_intros)

lemma env_resolveMagicUser: "envKept (resolveMagicUser a p uid ident)"
  unfolding resolveMagicUser_def GetUser_def GetUserByEmail_def createUser_def insertUser_def by (intro env_intros)

fun challenged :: "magicAnswer \<Rightarrow> bool" where
  "challenged (JSONTarget t) = False"
| "challenged (JSONChallenge c t) = True"
| "challenged (Browser (Target t)) = False"
| "challenged (Browser (Marked t)) = True"

text \<open>The end of the sign-in: the challenge, or the session.\<close>

lemma finishMagic_Inr:
  assumes "mfaChallenge (au_cfg a) u s = (Inr c, t)"
    and "(case c of None \<Rightarrow> andThen (issueSession a (Some r) u magicID) (\<lambda>_. ret ()) | Some _ \<Rightarrow> ret ()) t = (Inr x, s')"
    and "distinct (map tp_UserID (totps (db s)))"
  shows "users (db s') = users (db s)" "credentials (db s') = credentials (db s)"
    "tokenUsable (magicTokenKind, h) (db s') \<Longrightarrow> tokenUsable (magicTokenKind, h) (db s)"
    "if cf_totpEnabled (au_cfg a) \<and> confirmedFactor (u_ID u) (db s) then c \<noteq> None \<and> sessions (db s') = sessions (db s)
     else c = None \<and> (\<exists>se. se_UserID se = u_ID u \<and> se_CreatedAt se = clock s \<and> se \<in> set (sessions (db s')) \<and>
       set (sessions (db s')) \<subseteq> insert se (set (sessions (db s))))"
proof -
  note ch = mfaChallenge_Inr [OF assms(1,3)]
  have tk: "\<forall>k \<in> set (tokens (db t)). k \<in> set (tokens (db s)) \<or> tk_Kind k = MFATokenKind"
  proof -
    obtain b s1 where b: "totpConfirmed (au_cfg a) (u_ID u) s = (Inr b, s1)"
      and r: "(if \<not> b then ret None
         else andThen (issueToken (au_cfg a) \<lparr>it_Kind = MFATokenKind, it_UserID = Some (u_ID u),
                it_Identifier = u_ID u, it_ReplaceExisting = True, it_TTL = mfaChallengeTTL\<rparr>)
              (\<lambda>(plaintext, tok). ret (Some plaintext))) s1 = (Inr c, t)"
      using assms(1) by (auto simp: mfaChallenge_def andThen_Inr)
    have d1: "db s1 = db s" using totpConfirmed_Inr [OF b] by blast
    show ?thesis
    proof (cases b)
      case False
      then show ?thesis using r d1 by (simp add: ret_Inr)
    next
      case True
      then obtain p tok where "issueToken (au_cfg a) \<lparr>it_Kind = MFATokenKind, it_UserID = Some (u_ID u),
                it_Identifier = u_ID u, it_ReplaceExisting = True, it_TTL = mfaChallengeTTL\<rparr> s1 = (Inr (p, tok), t)"
        using r by (auto simp: success_simps)
      from issueToken_Inr [OF this] show ?thesis using d1 by (auto simp: deleteWhere_def)
    qed
  qed
  have frame: "dbInv (\<lambda>t. P (users t)) (mfaChallenge cfg v)" "dbInv (\<lambda>t. P' (credentials t)) (mfaChallenge cfg v)" for P P' cfg v
    unfolding mfaChallenge_def totpConfirmed_def issueToken_def Let_def Tokens_Create_def Tokens_DeleteByIdentifier_def
    by (intro db_intros dbInv_deleteRows dbInv_insertRow; simp)+
  have t: "users (db t) = users (db s)" "credentials (db t) = credentials (db s)"
    by (rule dbInv_field_same [OF frame(1) assms(1)], rule dbInv_field_same [OF frame(2) assms(1)])
  have f2: "sessionFree Q \<Longrightarrow> dbInv Q (case c of None \<Rightarrow> andThen (issueSession a (Some r) u magicID) (\<lambda>_. ret ()) | Some _ \<Rightarrow> ret ())" for Q
    by (intro db_intros)
  have s': "users (db s') = users (db t)" "credentials (db s') = credentials (db t)" "tokens (db s') = tokens (db t)"
    by (rule dbInv_field_same [OF f2 assms(2)], simp add: sessionFree_def)+
  show "users (db s') = users (db s)" "credentials (db s') = credentials (db s)" using t s' by simp_all
  show "tokenUsable (magicTokenKind, h) (db s)" if "tokenUsable (magicTokenKind, h) (db s')"
    using that tk s'(3) by (fastforce simp: tokenUsable_def magicTokenKind_def MFATokenKind_def)
  show "if cf_totpEnabled (au_cfg a) \<and> confirmedFactor (u_ID u) (db s) then c \<noteq> None \<and> sessions (db s') = sessions (db s)
     else c = None \<and> (\<exists>se. se_UserID se = u_ID u \<and> se_CreatedAt se = clock s \<and> se \<in> set (sessions (db s')) \<and>
       set (sessions (db s')) \<subseteq> insert se (set (sessions (db s))))"
  proof (cases c)
    case None
    obtain se t' where i: "issueSession a (Some r) u magicID t = (Inr se, t')" "db s' = db t'"
      using assms(2) None by (auto simp: success_simps)
    show ?thesis using issueSession_Inr [OF i(1)] i(2) ch None by auto
  next
    case (Some z)
    then show ?thesis using ch assms(2) by (auto simp: ret_Inr)
  qed
qed

text \<open>C29. A sign-in by link proves the address and nothing more: it needs a pending and unexpired link and spends it,
  the user is the one that the link names (or owns the address of the link), and the address is verified
  afterwards. A user with a confirmed second factor gets a challenge and no session. When the address was not
  proven before, no older session and no password of the user survives. Sessions of other users do not change.\<close>

theorem magic_link_sound:
  assumes "completeVerify a p r token callbackURL asJSON s = (Inr answer, s')" and "wfTables (db s)"
  shows "\<exists>k \<in> set (tokens (db s)). \<exists>u \<in> set (users (db s')).
    tk_Kind k = magicTokenKind \<and> tk_TokenHash k = cf_hash (au_cfg a) token \<and> tk_ConsumedAt k = None \<and>
    clock s < tk_ExpiresAt k \<and> \<not> tokenUsable (magicTokenKind, cf_hash (au_cfg a) token) (db s') \<and>
    (case tk_UserID k of Some i \<Rightarrow> u_ID u = i | None \<Rightarrow> u_EmailNormalized u = Normalize (tk_Identifier k)) \<and>
    u_EmailVerifiedAt u \<noteq> None \<and>
    (if cf_totpEnabled (au_cfg a) \<and> confirmedFactor (u_ID u) (db s)
     then challenged answer \<and> set (sessions (db s')) \<subseteq> set (sessions (db s))
     else \<not> challenged answer \<and> (\<exists>se \<in> set (sessions (db s')). se_UserID se = u_ID u \<and> se_CreatedAt se = clock s)) \<and>
    (\<forall>v \<in> set (users (db s)). u_ID v = u_ID u \<and> u_EmailVerifiedAt v = None \<longrightarrow>
       (\<forall>se \<in> set (sessions (db s')). se_UserID se = u_ID u \<longrightarrow> se_CreatedAt se = clock s) \<and>
       (\<forall>c \<in> set (credentials (db s')). cr_UserID c \<noteq> u_ID u)) \<and>
    (\<forall>se \<in> set (sessions (db s')). se_UserID se \<noteq> u_ID u \<longrightarrow> se \<in> set (sessions (db s)))"
proof -
  obtain tok s1 u s2 s3 c s4 s5 where 1: "consumeToken (au_cfg a) magicTokenKind token s = (Inr tok, s1)"
    and 2: "resolveMagicUser a p (tk_UserID tok) (tk_Identifier tok) s1 = (Inr u, s2)"
    and 3: "proveEmailOwnership (u_ID u) False s2 = (Inr (), s3)" and 4: "mfaChallenge (au_cfg a) u s3 = (Inr c, s4)"
    and 5: "(case c of None \<Rightarrow> andThen (issueSession a (Some r) u magicID) (\<lambda>_. ret ()) | Some _ \<Rightarrow> ret ()) s4 = (Inr (), s5)"
    and d: "db s' = db s5" and ans: "challenged answer \<longleftrightarrow> c \<noteq> None"
    using assms(1)
    by (auto simp: completeVerify_def Let_def success_simps env_success web_success setMFACookie_def split: option.splits if_splits)
  obtain k where k: "k \<in> set (tokens (db s))" "tk_Kind k = magicTokenKind" "tk_TokenHash k = cf_hash (au_cfg a) token"
    "tk_ConsumedAt k = None" "clock s < tk_ExpiresAt k" "tok = k\<lparr>tk_ConsumedAt := Some (clock s)\<rparr>"
    "\<not> tokenUsable (magicTokenKind, cf_hash (au_cfg a) token) (db s1)" "db s1 = (db s)\<lparr>tokens := tokens (db s1)\<rparr>" "clock s1 = clock s"
    using consumeToken_Inr [OF 1 assms(2)] by metis
  have e1: "users (db s1) = users (db s)" "sessions (db s1) = sessions (db s)" "totps (db s1) = totps (db s)"
    using k(8) by (metis tables.select_convs tables.surjective tables.update_convs(5))+
  have wf1: "wfTables (db s1)" by (rule wf_run [OF wf_consumeToken 1 assms(2)])
  note u = resolveMagicUser_Inr [OF 2 wf1]
  obtain us where us: "db s2 = (db s1)\<lparr>users := us\<rparr>" using u(4) by blast
  have e2: "sessions (db s2) = sessions (db s)" "totps (db s2) = totps (db s)" "tokens (db s2) = tokens (db s1)"
    using us e1 by simp_all
  have wf2: "wfTables (db s2)" by (rule wf_run [OF wf_resolveMagicUser 2 wf1])
  note pr = prove_row [OF 3 u(2) wf2]
  have c3: "clock s3 = clock s"
    using envKeptD(1) [OF env_resolveMagicUser 2] envKeptD(1) [OF env_proveEmail 3] k(9) by simp
  have "distinct (map tp_UserID (totps (db s3)))" using wf_totps [OF assms(2)] pr(5) e2(2) by simp
  note fin = finishMagic_Inr [OF 4 5 this, unfolded c3 confirmedFactor_totps [OF trans [OF pr(5) e2(2)]]]
  obtain v where v: "v \<in> set (users (db s'))" "u_ID v = u_ID u" "u_EmailNormalized v = u_EmailNormalized u" "u_EmailVerifiedAt v \<noteq> None"
    using pr(1) fin(1) d by auto
  have unproven: "u_EmailVerifiedAt u = None" if "w \<in> set (users (db s))" "u_ID w = u_ID u" "u_EmailVerifiedAt w = None" for w
  proof -
    have "db s2 = db s1" using u(3) that(1,2) e1(1) by (metis image_eqI)
    then have "u \<in> set (users (db s))" using u(2) e1(1) by simp
    then show ?thesis using users_wf [OF assms(2) _ that(1), of u] that by simp
  qed
  have spent: "\<not> tokenUsable (magicTokenKind, cf_hash (au_cfg a) token) (db s')"
  proof -
    have "tokens (db s3) = tokens (db s1)" using pr(4) e2(3) by simp
    then have eq: "tokenUsable kh (db s3) = tokenUsable kh (db s1)" for kh by (simp add: tokenUsable_def)
    show ?thesis
      unfolding d
    proof
      assume "tokenUsable (magicTokenKind, cf_hash (au_cfg a) token) (db s5)"
      from fin(3) [OF this] show False using k(7) eq by simp
    qed
  qed
  have sess: "if cf_totpEnabled (au_cfg a) \<and> confirmedFactor (u_ID u) (db s)
     then challenged answer \<and> set (sessions (db s')) \<subseteq> set (sessions (db s))
     else \<not> challenged answer \<and> (\<exists>se \<in> set (sessions (db s')). se_UserID se = u_ID u \<and> se_CreatedAt se = clock s)"
    using fin(4) ans d pr(3) e2(1) by (auto split: if_splits)
  have from3: "se \<in> set (sessions (db s3)) \<or> se_UserID se = u_ID u \<and> se_CreatedAt se = clock s" if "se \<in> set (sessions (db s'))" for se
    using fin(4) that d by (auto split: if_splits)
  have who: "case tk_UserID k of Some i \<Rightarrow> u_ID v = i | None \<Rightarrow> u_EmailNormalized v = Normalize (tk_Identifier k)"
    using u(1) v(2,3) k(6) by (simp split: option.splits)
  have gone: "(\<forall>se \<in> set (sessions (db s')). se_UserID se = u_ID u \<longrightarrow> se_CreatedAt se = clock s) \<and>
      (\<forall>c \<in> set (credentials (db s')). cr_UserID c \<noteq> u_ID u)"
    if "w \<in> set (users (db s))" "u_ID w = u_ID u" "u_EmailVerifiedAt w = None" for w
    using pr(2) [OF unproven [OF that]] from3 fin(2) d by auto
  have others: "\<forall>se \<in> set (sessions (db s')). se_UserID se \<noteq> u_ID u \<longrightarrow> se \<in> set (sessions (db s))"
    using from3 pr(3) e2(1) by auto
  show ?thesis
    by (rule bexI [OF _ k(1)], rule bexI [OF _ v(1)]) (use k spent who v sess gone others in auto)
qed

text \<open>Nobody signs in by opening the page of a link: with the confirmation step on, the request changes no table and
  consumes no token, so a mail scanner or a forged navigation does neither; the page appears only for a pending and
  unexpired link.\<close>

theorem magic_page_harmless:
  assumes "\<not> mk_noConfirm p" and "handleVerifyGet a p r query s = (res, s')"
  shows "db s' = db s \<and>
    (\<forall>x. res = Inr x \<longrightarrow> (\<exists>k \<in> set (tokens (db s)). tk_Kind k = magicTokenKind \<and>
       tk_TokenHash k = cf_hash (au_cfg a) (query ''token'') \<and> tk_ConsumedAt k = None \<and> clock s < tk_ExpiresAt k))"
proof
  have "dbInv Q (handleVerifyGet a p r query)" for Q
    using assms(1) unfolding handleVerifyGet_def setLinkHeaders_def peekToken_def by (auto intro!: db_intros)
  then show "db s' = db s" using dbInv_same assms(2) by blast
  show "\<forall>x. res = Inr x \<longrightarrow> (\<exists>k \<in> set (tokens (db s)). tk_Kind k = magicTokenKind \<and>
       tk_TokenHash k = cf_hash (au_cfg a) (query ''token'') \<and> tk_ConsumedAt k = None \<and> clock s < tk_ExpiresAt k)"
  proof (intro allI impI)
    fix x assume "res = Inr x"
    then obtain tok t u where u: "setLinkHeaders ''same-origin'' s = (Inr (), u)"
      and pk: "peekToken (au_cfg a) magicTokenKind (query ''token'') u = (Inr tok, t)"
      using assms by (auto simp: handleVerifyGet_def success_simps)
    have "db u = db s" "clock u = clock s"
      using u by (auto simp: setLinkHeaders_def success_simps setHeader_def)
    then show "\<exists>k \<in> set (tokens (db s)). tk_Kind k = magicTokenKind \<and>
       tk_TokenHash k = cf_hash (au_cfg a) (query ''token'') \<and> tk_ConsumedAt k = None \<and> clock s < tk_ExpiresAt k"
      using peekToken_Inr [OF pk] by auto
  qed
qed

text \<open>The answer of the request of a link is the answer of the origin check, of the decoder and of the rate limit;
  it depends on nothing of the account.\<close>

theorem magic_send_reveals_nothing:
  "fst (handleMagicSend a p r body s) =
     (case checkOrigin (au_edge a) r of
        Inl e \<Rightarrow> Inl e
      | Inr _ \<Rightarrow>
          (case body of
             Inl e \<Rightarrow> Inl e
           | Inr (address, callbackURL) \<Rightarrow>
               fst (allowOnly a (keyOf OpMagicLinkRequest (clientIP (au_edge a) r) (Normalize address) []) s)))"
  by (cases "checkOrigin (au_edge a) r"; cases body)
    (auto simp: handleMagicSend_def originChecked_def decoded_def sendLink_def Let_def andThen_def ret_def fail_def
      ignoring_def caught_eq split: prod.splits sum.splits)

section \<open>A concrete link\<close>

definition w_magic :: magicPlugin where
  "w_magic = \<lparr>mk_ttl = 900, mk_createUser = True, mk_callbackURL = [], mk_verifyURL = [], mk_noConfirm = False\<rparr>"

definition w_link :: Token where
  "w_link = \<lparr>tk_ID = ''l1'', tk_UserID = Some ''u2'', tk_Kind = magicTokenKind, tk_Identifier = ''bob@x.io'',
     tk_TokenHash = ''#link'', tk_CreatedAt = 90, tk_ExpiresAt = 900, tk_ConsumedAt = None\<rparr>"

definition w_magicTables :: tables where
  "w_magicTables = w_core\<lparr>tokens := [w_link]\<rparr>"

lemma wf_w_magicTables: "wfTables w_magicTables"
  by (simp add: wf_eval w_magicTables_def w_core_def w_eval bob_def w_session_def w_link_def)

theorem magic_link_sound_witness:
  "\<exists>u \<in> set (users (db (snd (completeVerify w_auth w_magic (w_request [] []) ''link'' [] True (world w_magicTables))))).
     u_ID u = ''u2'' \<and> u_EmailVerifiedAt u \<noteq> None"
proof -
  let ?m = "completeVerify w_auth w_magic (w_request [] []) ''link'' [] True"
  have "(case fst (?m (world w_magicTables)) of Inl e \<Rightarrow> False | Inr x \<Rightarrow> True)" by code_simp
  then obtain x s' where run: "?m (world w_magicTables) = (Inr x, s')" by (metis prod.collapse sum.case_eq_if sum.collapse(2))
  have "\<forall>k \<in> set (tokens (db (world w_magicTables))). tk_UserID k = Some ''u2''" by (simp add: w_magicTables_def w_link_def)
  then show ?thesis using magic_link_sound [OF run] wf_w_magicTables run by fastforce
qed

theorem magic_page_harmless_witness:
  "db (snd (handleVerifyGet w_auth w_magic (w_request [] []) (\<lambda>n. if n = ''token'' then ''link'' else []) (world w_magicTables))) =
     w_magicTables"
proof -
  let ?m = "handleVerifyGet w_auth w_magic (w_request [] []) (\<lambda>n. if n = ''token'' then ''link'' else [])"
  obtain res s' where run: "?m (world w_magicTables) = (res, s')" by fastforce
  show ?thesis using magic_page_harmless [OF _ run] run by (simp add: w_magic_def)
qed

end
