(* ===== verification/Admin.thy ===== *)
theory Admin
  imports Org_Properties Account_Handlers
begin

text \<open>
  \<open>plugins/admin\<close>: the administration of users by an administrator or by the application itself, its routes, and the
  routes over the organizations. The bootstrap of the first administrator is not modelled: its guard row lives in a
  table of the plugin.
\<close>

section \<open>The plugin\<close>

text \<open>The hooks of the application are verdicts: on a row before and after the change, and on a change of a role.\<close>

record adminPlugin =
  ad_adminRole :: string
  ad_organizations :: "orgPlugin option"
  ad_beforeUserUpdate :: "User \<Rightarrow> User \<Rightarrow> err option"
  ad_beforeRoleChange :: "User \<Rightarrow> string \<Rightarrow> string \<Rightarrow> err option"

definition adminRegister :: "host \<Rightarrow> adminPlugin \<Rightarrow> unit res" where
  "adminRegister h p =
     (if RoleNames h = []
      then Inl (ErrOther ''authall/admin: the roles plugin must be enabled before the admin plugin'')
      else if Rank h (ad_adminRole p) < 0
      then Inl (ErrOther ''authall/admin: the administrator role is not in the role hierarchy'')
      else Inr ())"

definition adminRoleOf :: "host \<Rightarrow> User \<Rightarrow> string" where
  "adminRoleOf h u = (if u_Role u = [] then au_defaultRole (ho_auth h) else u_Role u)"

definition adminError :: "err \<Rightarrow> err" where
  "adminError e =
     (case asPublic e of
        Some x \<Rightarrow> x
      | None \<Rightarrow>
          if isNotFound e then api CodeNotFound
          else if isConflict e then api CodeEmailAlreadyExists
          else with_cause CodeInternal e)"

definition emitChange :: "string \<Rightarrow> User \<Rightarrow> (string \<times> string) list \<Rightarrow> (sys, unit) oper" where
  "emitChange name user fs =
     andThen (emit name (u_ID user) fs) (\<lambda>_. emit ''auth.user_updated'' (u_ID user) [(''change'', name)])"

definition adminHashPassword :: "host \<Rightarrow> string \<Rightarrow> (sys, string) oper" where
  "adminHashPassword h password =
     andThen (checkPassword (au_cfg (ho_auth h)) password) (\<lambda>_.
     case cf_hashPassword (au_cfg (ho_auth h)) password of
       Inl e \<Rightarrow> fail (with_cause CodeInternal e)
     | Inr hsh \<Rightarrow> ret hsh)"

definition passwordAlphabet :: string where
  "passwordAlphabet = ''abcdefghijkmnopqrstuvwxyzABCDEFGHJKLMNPQRSTUVWXYZ23456789''"

text \<open>\<open>newPassword\<close>. The random source hands out the bytes.\<close>

definition newPassword :: "(sys, string) oper" where
  "newPassword =
     andThen NewToken (\<lambda>raw. ret (map (\<lambda>c. passwordAlphabet ! (of_char c mod length passwordAlphabet)) raw))"

definition generatedPassword :: "string \<Rightarrow> (sys, string \<times> string) oper" where
  "generatedPassword password =
     (if password = [] then andThen (mapFail (with_cause CodeInternal) newPassword) (\<lambda>v. ret (v, v))
      else ret (password, []))"

section \<open>The guard of the last administrator\<close>

fun countOthers :: "string \<Rightarrow> string list \<Rightarrow> (sys, nat) oper" where
  "countOthers userID [] = ret 0"
| "countOthers userID (name # names) =
     andThen (LockEnabledUsersWithRole name) (\<lambda>ids.
     andThen (countOthers userID names) (\<lambda>n. ret (countWhere (\<lambda>i. i \<noteq> userID) ids + n)))"

definition guardLastAdmin :: "host \<Rightarrow> adminPlugin \<Rightarrow> string \<Rightarrow> (sys, unit) oper" where
  "guardLastAdmin h p userID =
     (let names = [ad_adminRole p] @ (if au_defaultRole (ho_auth h) = ad_adminRole p then [[]] else []) in
      andThen (countOthers userID names) (\<lambda>remaining.
      if remaining = 0 then fail (api CodeLastAdmin) else ret ()))"

section \<open>The operations\<close>

record AdminUserInput =
  au_Email :: string
  au_Name :: string
  au_Role :: string
  au_Password :: string
  au_Temporary :: bool

text \<open>The second transaction of \<open>CreateUser\<close>, for the user that the first one created.\<close>

definition equipTx :: "host \<Rightarrow> adminPlugin \<Rightarrow> User \<Rightarrow> User \<Rightarrow> string \<Rightarrow> time \<Rightarrow> (sys, unit) oper" where
  "equipTx h p before user password at =
     andThen (adminHashPassword h password) (\<lambda>hsh.
     andThen (Users_SetCredential \<lparr>cr_UserID = u_ID user, cr_PasswordHash = hsh, cr_CreatedAt = at, cr_UpdatedAt = at\<rparr>) (\<lambda>_.
     andThen (veto (ad_beforeUserUpdate p before user)) (\<lambda>_.
     Users_Update user)))"

definition AdminCreateUser :: "host \<Rightarrow> adminPlugin \<Rightarrow> AdminUserInput \<Rightarrow> (sys, User \<times> string) oper" where
  "AdminCreateUser h p i =
     (let role = (if au_Role i = [] then au_defaultRole (ho_auth h) else au_Role i) in
      if Rank h role < 0 then fail (api CodeRoleUnknown)
      else
        andThen (generatedPassword (au_Password i)) (\<lambda>(password, generated).
        andThen (createUser (au_cfg (ho_auth h)) \<lparr>ci_Email = au_Email i, ci_Password = [], ci_DisplayName = au_Name i,
                   ci_ImageURL = [], ci_EmailVerified = False\<rparr> []) (\<lambda>before.
        andThen now (\<lambda>at.
        let user = before\<lparr>u_Role := role, u_MustChangePassword := au_Temporary i, u_UpdatedAt := at\<rparr>
        in andThen (mapFail adminError (transaction (equipTx h p before user password at))) (\<lambda>_.
           andThen (runAfter ''UserUpdate'' (u_ID user)) (\<lambda>_.
           andThen (emit ''auth.user_created'' (u_ID user) [(''role'', role)]) (\<lambda>_. ret (user, generated))))))))"

definition adminSetRoleTx :: "host \<Rightarrow> adminPlugin \<Rightarrow> string \<Rightarrow> string \<Rightarrow> (sys, User \<times> string) oper" where
  "adminSetRoleTx h p userID role =
     andThen (Users_GetByID userID) (\<lambda>user.
     let frm = adminRoleOf h user in
     if frm = role then ret (user, frm)
     else
       andThen (if RoleAtLeast h frm (ad_adminRole p) \<and> \<not> RoleAtLeast h role (ad_adminRole p)
                then guardLastAdmin h p userID else ret ()) (\<lambda>_.
       andThen now (\<lambda>at.
       let updated = user\<lparr>u_Role := role, u_UpdatedAt := at\<rparr>
       in andThen (veto (ad_beforeRoleChange p updated frm role)) (\<lambda>_.
          andThen (veto (ad_beforeUserUpdate p user updated)) (\<lambda>_.
          andThen (Users_Update updated) (\<lambda>_. ret (updated, frm)))))))"

definition AdminSetRole :: "host \<Rightarrow> adminPlugin \<Rightarrow> string \<Rightarrow> string \<Rightarrow> (sys, User) oper" where
  "AdminSetRole h p userID role =
     (if Rank h role < 0 then fail (api CodeRoleUnknown)
      else
        andThen (mapFail adminError (transaction (adminSetRoleTx h p userID role))) (\<lambda>(updated, frm).
        if frm \<noteq> role then
          andThen (runAfter ''RoleChange'' (u_ID updated)) (\<lambda>_.
          andThen (runAfter ''UserUpdate'' (u_ID updated)) (\<lambda>_.
          andThen (emitChange ''auth.role_changed'' updated [(''from'', frm), (''to'', role)]) (\<lambda>_. ret updated)))
        else ret updated))"

definition disableTx :: "host \<Rightarrow> adminPlugin \<Rightarrow> string \<Rightarrow> (sys, User) oper" where
  "disableTx h p userID =
     andThen (Users_GetByID userID) (\<lambda>user.
     if u_DisabledAt user \<noteq> None then ret user
     else
       andThen (if RoleAtLeast h (adminRoleOf h user) (ad_adminRole p) then guardLastAdmin h p userID else ret ()) (\<lambda>_.
       andThen now (\<lambda>at.
       let updated = user\<lparr>u_DisabledAt := Some at, u_UpdatedAt := at\<rparr>
       in andThen (veto (ad_beforeUserUpdate p user updated)) (\<lambda>_.
          andThen (Users_Update updated) (\<lambda>_.
          andThen (Sessions_DeleteByUser userID) (\<lambda>_. ret updated))))))"

definition AdminDisable :: "host \<Rightarrow> adminPlugin \<Rightarrow> string \<Rightarrow> (sys, User) oper" where
  "AdminDisable h p userID =
     andThen (mapFail adminError (transaction (disableTx h p userID))) (\<lambda>updated.
     andThen (runAfter ''UserUpdate'' (u_ID updated)) (\<lambda>_.
     andThen (emitChange ''auth.user_disabled'' updated []) (\<lambda>_. ret updated)))"

definition enableTx :: "adminPlugin \<Rightarrow> string \<Rightarrow> (sys, User) oper" where
  "enableTx p userID =
     andThen (Users_GetByID userID) (\<lambda>user.
     if u_DisabledAt user = None then ret user
     else
       andThen now (\<lambda>at.
       let updated = user\<lparr>u_DisabledAt := None, u_UpdatedAt := at\<rparr>
       in andThen (veto (ad_beforeUserUpdate p user updated)) (\<lambda>_.
          andThen (Users_Update updated) (\<lambda>_. ret updated))))"

definition AdminEnable :: "adminPlugin \<Rightarrow> string \<Rightarrow> (sys, User) oper" where
  "AdminEnable p userID =
     andThen (mapFail adminError (transaction (enableTx p userID))) (\<lambda>updated.
     andThen (runAfter ''UserUpdate'' (u_ID updated)) (\<lambda>_.
     andThen (emitChange ''auth.user_enabled'' updated []) (\<lambda>_. ret updated)))"

definition adminResetTx :: "adminPlugin \<Rightarrow> string \<Rightarrow> string \<Rightarrow> bool \<Rightarrow> (sys, User) oper" where
  "adminResetTx p userID hsh temporary =
     andThen (Users_GetByID userID) (\<lambda>user.
     andThen now (\<lambda>at.
     andThen (Users_SetCredential \<lparr>cr_UserID = u_ID user, cr_PasswordHash = hsh, cr_CreatedAt = at, cr_UpdatedAt = at\<rparr>) (\<lambda>_.
     let updated = user\<lparr>u_MustChangePassword := temporary, u_UpdatedAt := at\<rparr>
     in andThen (veto (ad_beforeUserUpdate p user updated)) (\<lambda>_.
        andThen (Users_Update updated) (\<lambda>_.
        andThen (Sessions_DeleteByUser userID) (\<lambda>_. ret updated))))))"

definition AdminResetPassword :: "host \<Rightarrow> adminPlugin \<Rightarrow> string \<Rightarrow> string \<Rightarrow> bool \<Rightarrow> (sys, string) oper" where
  "AdminResetPassword h p userID wanted temporary =
     andThen (generatedPassword wanted) (\<lambda>(password, generated).
     andThen (adminHashPassword h password) (\<lambda>hsh.
     andThen (mapFail adminError (transaction (adminResetTx p userID hsh temporary))) (\<lambda>updated.
     andThen (runAfter ''UserUpdate'' (u_ID updated)) (\<lambda>_.
     andThen (emitChange ''auth.password_reset_by_admin'' updated
       [(''temporary'', if temporary then ''true'' else ''false'')]) (\<lambda>_. ret generated)))))"

section \<open>The routes\<close>

definition adminGuard :: "host \<Rightarrow> adminPlugin \<Rightarrow> httpRequest \<Rightarrow> (Principal \<Rightarrow> (sys, 'a) oper) \<Rightarrow> (sys, 'a) oper" where
  "adminGuard h p r fn =
     RequireAuth h r (\<lambda>q.
       if pr_Method q \<noteq> MethodSession then fail (api CodeForbidden)
       else if \<not> RoleAtLeast h (pr_Role q) (ad_adminRole p) then fail (api CodeInsufficientRole)
       else fn q)"

text \<open>The query of the list: a present value that does not parse is \<open>Some None\<close>.\<close>

record adminQuery =
  aq_Email :: string
  aq_Cursor :: string
  aq_Limit :: "int option option"
  aq_Role :: string
  aq_Disabled :: "bool option option"

definition handleListUsers ::
  "char option \<Rightarrow> host \<Rightarrow> adminPlugin \<Rightarrow> httpRequest \<Rightarrow> adminQuery \<Rightarrow> (sys, User list \<times> string) oper" where
  "handleListUsers esc h p r q =
     adminGuard h p r (\<lambda>_.
       if (case aq_Limit q of None \<Rightarrow> False | Some None \<Rightarrow> True | Some (Some v) \<Rightarrow> v < 1 \<or> v > 200)
       then fail (api CodeInvalidRequest)
       else if aq_Role q \<noteq> [] \<and> Rank h (aq_Role q) < 0 then fail (api CodeRoleUnknown)
       else if aq_Disabled q = Some None then fail (api CodeInvalidRequest)
       else mapFail (with_cause CodeInvalidRequest) (ListUsers esc
         \<lparr>uf_EmailPrefix = aq_Email q, uf_Role = (if aq_Role q = [] then None else Some (aq_Role q)),
          uf_Disabled = (case aq_Disabled q of None \<Rightarrow> None | Some v \<Rightarrow> v),
          uf_Limit = (case aq_Limit q of Some (Some v) \<Rightarrow> v | _ \<Rightarrow> 50), uf_Cursor = aq_Cursor q\<rparr>))"

text \<open>The flags of the bodies are optional and default to a temporary password.\<close>

definition handleAdminCreate ::
  "host \<Rightarrow> adminPlugin \<Rightarrow> httpRequest \<Rightarrow> (AdminUserInput \<times> bool option) res \<Rightarrow> (sys, User \<times> string) oper" where
  "handleAdminCreate h p r body =
     adminGuard h p r (\<lambda>_. andThen (decoded body) (\<lambda>(i, temporary).
       AdminCreateUser h p (i\<lparr>au_Temporary := (case temporary of None \<Rightarrow> True | Some b \<Rightarrow> b)\<rparr>)))"

definition handleAdminRole :: "host \<Rightarrow> adminPlugin \<Rightarrow> httpRequest \<Rightarrow> string \<Rightarrow> string res \<Rightarrow> (sys, User) oper" where
  "handleAdminRole h p r i body =
     adminGuard h p r (\<lambda>_. andThen (decoded body) (\<lambda>role. AdminSetRole h p i role))"

definition handleAdminDisable :: "host \<Rightarrow> adminPlugin \<Rightarrow> httpRequest \<Rightarrow> string \<Rightarrow> (sys, User) oper" where
  "handleAdminDisable h p r i =
     adminGuard h p r (\<lambda>q. if u_ID (pr_User q) = i then fail (api CodeForbidden) else AdminDisable h p i)"

definition handleAdminEnable :: "host \<Rightarrow> adminPlugin \<Rightarrow> httpRequest \<Rightarrow> string \<Rightarrow> (sys, User) oper" where
  "handleAdminEnable h p r i = adminGuard h p r (\<lambda>_. AdminEnable p i)"

text \<open>The fields that the decoder filled, and its error. A malformed body is no error of this route.\<close>

definition handleAdminPassword ::
  "host \<Rightarrow> adminPlugin \<Rightarrow> httpRequest \<Rightarrow> string \<Rightarrow> string \<times> bool option \<times> err option \<Rightarrow> (sys, string) oper" where
  "handleAdminPassword h p r i body =
     adminGuard h p r (\<lambda>_.
       let (password, temporary, verdict) = body in
       case verdict of
         Some e \<Rightarrow>
           if code_of e \<noteq> CodeInvalidRequest then fail e
           else AdminResetPassword h p i password (case temporary of None \<Rightarrow> True | Some b \<Rightarrow> b)
       | None \<Rightarrow> AdminResetPassword h p i password (case temporary of None \<Rightarrow> True | Some b \<Rightarrow> b))"

definition AdminList :: "int \<Rightarrow> string \<Rightarrow> (sys, Organization list \<times> string) oper" where
  "AdminList limit cursor = ListOrganizations \<lparr>gf_UserID = [], gf_Limit = limit, gf_Cursor = cursor\<rparr>"

definition AdminDelete :: "orgPlugin \<Rightarrow> User option \<Rightarrow> string \<Rightarrow> (sys, unit) oper" where
  "AdminDelete g actor orgID = DeleteOrg g actor orgID"

definition handleListOrganizations ::
  "host \<Rightarrow> adminPlugin \<Rightarrow> httpRequest \<Rightarrow> int option \<Rightarrow> string \<Rightarrow> (sys, Organization list \<times> string) oper" where
  "handleListOrganizations h p r raw cursor =
     adminGuard h p r (\<lambda>_. AdminList (case raw of None \<Rightarrow> 0 | Some v \<Rightarrow> v) cursor)"

definition handleDeleteOrganization ::
  "host \<Rightarrow> adminPlugin \<Rightarrow> orgPlugin \<Rightarrow> httpRequest \<Rightarrow> string \<Rightarrow> (sys, unit) oper" where
  "handleDeleteOrganization h p g r i = adminGuard h p r (\<lambda>q. AdminDelete g (Some (pr_User q)) i)"

section \<open>An administrator is always there\<close>

definition isAdmin :: "host \<Rightarrow> adminPlugin \<Rightarrow> User \<Rightarrow> bool" where
  "isAdmin h p u \<longleftrightarrow> u_DisabledAt u = None \<and> RoleAtLeast h (adminRoleOf h u) (ad_adminRole p)"

definition hasAdmin :: "host \<Rightarrow> adminPlugin \<Rightarrow> tables \<Rightarrow> bool" where
  "hasAdmin h p t \<longleftrightarrow> wfTables t \<and> (\<exists>u \<in> set (users t). isAdmin h p u)"

lemma Rank_default [simp]: "Rank h (au_defaultRole (ho_auth h)) = Rank h []"
  by (simp add: Rank_def)

lemma countOthers_Inr:
  assumes "countOthers i names s = (Inr n, s')"
  shows "db s' = db s" and "n > 0 \<Longrightarrow> \<exists>w \<in> set (users (db s)). u_Role w \<in> set names \<and> u_DisabledAt w = None \<and> u_ID w \<noteq> i"
proof -
  have "db s' = db s \<and> (n > 0 \<longrightarrow> (\<exists>w \<in> set (users (db s)). u_Role w \<in> set names \<and> u_DisabledAt w = None \<and> u_ID w \<noteq> i))"
    using assms
  proof (induction names arbitrary: s n s')
    case Nil
    then show ?case by (simp add: ret_Inr)
  next
    case (Cons name names)
    obtain ids t m t' where 1: "LockEnabledUsersWithRole name s = (Inr ids, t)" and 2: "countOthers i names t = (Inr m, t')"
      and n: "n = countWhere (\<lambda>x. x \<noteq> i) ids + m" "s' = t'"
      using Cons.prems by (auto simp: success_simps)
    have t: "db t = db s" "ids = map u_ID (filter (\<lambda>u. u_Role u = name \<and> u_DisabledAt u = None) (users (db s)))"
      using 1 by (auto simp: LockEnabledUsersWithRole_def sql_success)
    have "0 < countWhere (\<lambda>x. x \<noteq> i) ids \<longrightarrow> (\<exists>w \<in> set (users (db s)). u_Role w = name \<and> u_DisabledAt w = None \<and> u_ID w \<noteq> i)"
      unfolding countWhere_pos t(2) by auto
    then show ?case using Cons.IH [OF 2] n t(1) by (cases "0 < m") auto
  qed
  then show "db s' = db s" "n > 0 \<Longrightarrow> \<exists>w \<in> set (users (db s)). u_Role w \<in> set names \<and> u_DisabledAt w = None \<and> u_ID w \<noteq> i"
    by blast+
qed

lemma guardLastAdmin_Inr:
  assumes "guardLastAdmin h p i s = (Inr x, s')" and "Rank h (ad_adminRole p) \<ge> 0"
  shows "db s' = db s" "\<exists>w \<in> set (users (db s)). isAdmin h p w \<and> u_ID w \<noteq> i"
proof -
  let ?names = "[ad_adminRole p] @ (if au_defaultRole (ho_auth h) = ad_adminRole p then [[]] else [])"
  obtain n where n: "countOthers i ?names s = (Inr n, s')" "n > 0"
    using assms(1) by (auto simp: guardLastAdmin_def Let_def success_simps if_run fail_def ret_def)
  show "db s' = db s" by (rule countOthers_Inr(1) [OF n(1)])
  obtain w where w: "w \<in> set (users (db s))" "u_Role w \<in> set ?names" "u_DisabledAt w = None" "u_ID w \<noteq> i"
    using countOthers_Inr(2) [OF n] by blast
  have "Rank h (adminRoleOf h w) = Rank h (ad_adminRole p)"
    using w(2) by (auto simp: adminRoleOf_def split: if_splits) (metis Rank_default)+
  then have "isAdmin h p w" using w(3) assms(2) by (simp add: isAdmin_def RoleAtLeast_def Let_def)
  then show "\<exists>w \<in> set (users (db s)). isAdmin h p w \<and> u_ID w \<noteq> i" using w by blast
qed

lemma env_guardLastAdmin [env_intros]: "envKept (guardLastAdmin h p i)"
proof -
  have "envKept (countOthers i names)" for names
    by (induction names) (auto intro!: env_intros simp: LockEnabledUsersWithRole_def)
  then show ?thesis unfolding guardLastAdmin_def Let_def by (intro env_intros)
qed

text \<open>A change of one row keeps an administrator when the row stays one, was none, or another one is there.\<close>

lemma changed_row:
  assumes "hasAdmin h p t" and "user \<in> set (users t)" and "u_ID updated = u_ID user"
    and "users t' = updateWhere (\<lambda>u. u_ID u = u_ID updated) (userUpdateOf updated) (users t)" and "wfTables t'"
    and "isAdmin h p updated \<or> \<not> isAdmin h p user \<or> (\<exists>w \<in> set (users t). isAdmin h p w \<and> u_ID w \<noteq> u_ID user)"
  shows "hasAdmin h p t'"
proof (cases "isAdmin h p updated")
  case True
  have "userUpdateOf updated user \<in> set (users t')"
    using assms(2,3,4) by (auto simp: set_updateWhere intro!: rev_image_eqI)
  moreover have "isAdmin h p (userUpdateOf updated user)"
    using True by (auto simp: isAdmin_def adminRoleOf_def userUpdateOf_def split: if_splits)
  ultimately show ?thesis using assms(5) by (auto simp: hasAdmin_def)
next
  case False
  have wf: "wfTables t" using assms(1) by (simp add: hasAdmin_def)
  obtain w where w: "w \<in> set (users t)" "isAdmin h p w" "u_ID w \<noteq> u_ID user"
  proof (cases "isAdmin h p user")
    case True
    then show thesis using that assms(6) False by blast
  next
    case False
    obtain w where "w \<in> set (users t)" "isAdmin h p w" using assms(1) by (auto simp: hasAdmin_def)
    then show thesis using that [of w] users_wf [OF wf _ assms(2), of w] False by metis
  qed
  then have "w \<in> set (users t')" using assms(3,4) by (auto simp: set_updateWhere intro!: rev_image_eqI)
  then show ?thesis using w(2) assms(5) by (auto simp: hasAdmin_def)
qed

abbreviation governed :: "host \<Rightarrow> adminPlugin \<Rightarrow> sys \<Rightarrow> bool" where
  "governed h p \<equiv> \<lambda>s. \<not> in_tx s \<and> hasAdmin h p (db s)"

lemma wf_admin_txs [db_intros]:
  "dbInv wfTables (adminSetRoleTx h p i role)" "dbInv wfTables (disableTx h p i)" "dbInv wfTables (enableTx p i)"
  "dbInv wfTables (adminResetTx p i hsh b)" "dbInv wfTables (equipTx h p v u pw at)" "dbInv Q (guardLastAdmin h p i)"
proof -
  have c: "dbInv Q (countOthers i names)" for Q names
    by (induction names) (auto intro!: db_intros simp: LockEnabledUsersWithRole_def)
  show g: "dbInv Q (guardLastAdmin h p i)" for Q
    unfolding guardLastAdmin_def Let_def by (intro db_intros c)
  show "dbInv wfTables (adminSetRoleTx h p i role)" "dbInv wfTables (disableTx h p i)" "dbInv wfTables (enableTx p i)"
    "dbInv wfTables (adminResetTx p i hsh b)" "dbInv wfTables (equipTx h p v u pw at)"
    unfolding adminSetRoleTx_def disableTx_def enableTx_def adminResetTx_def equipTx_def adminHashPassword_def checkPassword_def Let_def
    by (intro db_intros g)+
qed

lemma Sessions_gone: "Sessions_DeleteByUser i s = (Inr x, s') \<Longrightarrow>
    db s' = (db s)\<lparr>sessions := deleteWhere (\<lambda>se. se_UserID se = i) (sessions (db s))\<rparr>"
  by (auto simp: Sessions_DeleteByUser_def sql_success)

lemma adminCredential_frame:
  assumes "Users_SetCredential c s = (Inr x, s')"
  shows "users (db s') = users (db s)" "sessions (db s') = sessions (db s)"
    "\<forall>r \<in> set (credentials (db s')). cr_UserID r = cr_UserID c \<longrightarrow> cr_PasswordHash r = cr_PasswordHash c"
proof -
  have "db s' = (db s)\<lparr>credentials := credentials (db s')\<rparr>" using SetCredential_Inr [OF assms] by blast
  then show "users (db s') = users (db s)" "sessions (db s') = sessions (db s)"
    by (metis tables.select_convs tables.surjective tables.update_convs(2))+
  show "\<forall>r \<in> set (credentials (db s')). cr_UserID r = cr_UserID c \<longrightarrow> cr_PasswordHash r = cr_PasswordHash c"
    using SetCredential_Inr [OF assms] by blast
qed

lemma GetByID_Inr: "Users_GetByID i s = (Inr u, s') \<Longrightarrow> u \<in> set (users (db s)) \<and> u_ID u = i \<and> db s' = db s \<and> clock s' = clock s"
  by (auto simp: Users_GetByID_def sql_success dest!: find_SomeD)

text \<open>What the transactions leave in the users table: nothing new, or the changed row.\<close>

lemma adminSetRoleTx_Inr:
  assumes "adminSetRoleTx h p i role s = (Inr (u, frm), s')"
  shows "db s' = db s \<or> (\<exists>user \<in> set (users (db s)). \<exists>updated. u_ID user = i \<and> u_ID updated = i \<and> u_Role updated = role \<and>
    u_DisabledAt updated = u_DisabledAt user \<and> u = updated \<and> adminRoleOf h user \<noteq> role \<and>
    db s' = (db s)\<lparr>users := updateWhere (\<lambda>x. u_ID x = u_ID updated) (userUpdateOf updated) (users (db s))\<rparr> \<and>
    (RoleAtLeast h (adminRoleOf h user) (ad_adminRole p) \<and> \<not> RoleAtLeast h role (ad_adminRole p) \<longrightarrow>
      (\<exists>t t'. db t = db s \<and> guardLastAdmin h p i t = (Inr (), t'))))"
proof -
  obtain user t where g: "Users_GetByID i s = (Inr user, t)" and
    k: "(let frm = adminRoleOf h user in
     if frm = role then ret (user, frm)
     else
       andThen (if RoleAtLeast h frm (ad_adminRole p) \<and> \<not> RoleAtLeast h role (ad_adminRole p)
                then guardLastAdmin h p i else ret ()) (\<lambda>_.
       andThen now (\<lambda>at.
       let updated = user\<lparr>u_Role := role, u_UpdatedAt := at\<rparr>
       in andThen (veto (ad_beforeRoleChange p updated frm role)) (\<lambda>_.
          andThen (veto (ad_beforeUserUpdate p user updated)) (\<lambda>_.
          andThen (Users_Update updated) (\<lambda>_. ret (updated, frm))))))) t = (Inr (u, frm), s')"
    using assms unfolding adminSetRoleTx_def andThen_Inr by blast
  note us = GetByID_Inr [OF g]
  show ?thesis
  proof (cases "adminRoleOf h user = role")
    case True
    then show ?thesis using k us by (simp add: ret_Inr Let_def)
  next
    case False
    let ?m = "if RoleAtLeast h (adminRoleOf h user) (ad_adminRole p) \<and> \<not> RoleAtLeast h role (ad_adminRole p)
                then guardLastAdmin h p i else ret ()"
    obtain t1 t2 where m: "?m t = (Inr (), t1)" and up: "Users_Update (user\<lparr>u_Role := role, u_UpdatedAt := clock t1\<rparr>) t2 = (Inr (), s')"
      and d2: "db t2 = db t1" and u: "u = user\<lparr>u_Role := role, u_UpdatedAt := clock t1\<rparr>"
      using k False by (auto simp: Let_def success_simps now_Inr veto_Inr)
    have "dbInv Q ?m" for Q by (intro db_intros wf_admin_txs(6))
    then have d1: "db t1 = db t" using dbInv_same m by blast
    show ?thesis
      using us d1 d2 False m Update_user_Inr [OF up] u
      by (intro disjI2 bexI [of _ user] exI [of _ u] conjI impI exI [of _ t] exI [of _ t1]) auto
  qed
qed

lemma disableTx_Inr:
  assumes "disableTx h p i s = (Inr u, s')"
  shows "\<exists>user \<in> set (users (db s)). u_ID user = i \<and>
    (if u_DisabledAt user \<noteq> None then u = user \<and> db s' = db s
     else u = user\<lparr>u_DisabledAt := Some (clock s), u_UpdatedAt := clock s\<rparr> \<and>
       db s' = (db s)\<lparr>users := updateWhere (\<lambda>x. u_ID x = u_ID u) (userUpdateOf u) (users (db s)),
         sessions := deleteWhere (\<lambda>se. se_UserID se = i) (sessions (db s))\<rparr> \<and>
       (RoleAtLeast h (adminRoleOf h user) (ad_adminRole p) \<longrightarrow>
         (\<exists>t t'. db t = db s \<and> guardLastAdmin h p i t = (Inr (), t'))))"
proof -
  obtain user t where g: "Users_GetByID i s = (Inr user, t)" and
    k: "(if u_DisabledAt user \<noteq> None then ret user
     else
       andThen (if RoleAtLeast h (adminRoleOf h user) (ad_adminRole p) then guardLastAdmin h p i else ret ()) (\<lambda>_.
       andThen now (\<lambda>at.
       let updated = user\<lparr>u_DisabledAt := Some at, u_UpdatedAt := at\<rparr>
       in andThen (veto (ad_beforeUserUpdate p user updated)) (\<lambda>_.
          andThen (Users_Update updated) (\<lambda>_.
          andThen (Sessions_DeleteByUser i) (\<lambda>_. ret updated)))))) t = (Inr u, s')"
    using assms unfolding disableTx_def andThen_Inr by blast
  note us = GetByID_Inr [OF g]
  show ?thesis
  proof (cases "u_DisabledAt user = None")
    case False
    then show ?thesis using k us by (intro bexI [of _ user]) (auto simp: ret_Inr)
  next
    case True
    let ?m = "if RoleAtLeast h (adminRoleOf h user) (ad_adminRole p) then guardLastAdmin h p i else ret ()"
    obtain t1 t2 t3 x where m: "?m t = (Inr (), t1)"
      and up: "Users_Update (user\<lparr>u_DisabledAt := Some (clock t1), u_UpdatedAt := clock t1\<rparr>) t2 = (Inr (), t3)"
      and del: "Sessions_DeleteByUser i t3 = (Inr x, s')"
      and d2: "db t2 = db t1" and u: "u = user\<lparr>u_DisabledAt := Some (clock t1), u_UpdatedAt := clock t1\<rparr>"
      using k True by (auto simp: Let_def success_simps now_Inr veto_Inr)
    have "dbInv Q ?m" for Q by (intro db_intros wf_admin_txs(6))
    then have d1: "db t1 = db t" using dbInv_same m by blast
    have "envKept ?m" by (intro env_intros env_guardLastAdmin)
    then have c: "clock t1 = clock s" using envKeptD(1) m us by metis
    have d: "db s' = (db s)\<lparr>users := updateWhere (\<lambda>x. u_ID x = u_ID u) (userUpdateOf u) (users (db s)),
         sessions := deleteWhere (\<lambda>se. se_UserID se = i) (sessions (db s))\<rparr>"
      using Update_user_Inr [OF up] Sessions_gone [OF del] d1 d2 us u by simp
    have gd: "RoleAtLeast h (adminRoleOf h user) (ad_adminRole p) \<longrightarrow>
         (\<exists>t t'. db t = db s \<and> guardLastAdmin h p i t = (Inr (), t'))"
      using m us by auto
    show ?thesis using us True u c d gd by (intro bexI [of _ user]) auto
  qed
qed

lemma RoleAtLeast_default [simp]:
  "RoleAtLeast h (if r = [] then au_defaultRole (ho_auth h) else r) m \<longleftrightarrow> RoleAtLeast h r m"
  by (simp add: RoleAtLeast_def)

lemma isAdmin_iff: "isAdmin h p u \<longleftrightarrow> u_DisabledAt u = None \<and> RoleAtLeast h (u_Role u) (ad_adminRole p)"
  by (simp add: isAdmin_def adminRoleOf_def)

lemma governed_tx:
  assumes "\<And>a x b. hasAdmin h p (db a) \<Longrightarrow> m a = (Inr x, b) \<Longrightarrow> wfTables (db b) \<Longrightarrow> hasAdmin h p (db b)"
    and "dbInv wfTables m"
  shows "keeps (governed h p) (transaction m)"
proof (rule keeps_tx)
  fix a x b assume a: "hasAdmin h p (db a)" and run: "m a = (Inr x, b)"
  then have "wfTables (db b)" using wf_run [OF assms(2) run] by (simp add: hasAdmin_def)
  then show "hasAdmin h p (db b)" using assms(1) a run by blast
qed

lemma governed_setRole:
  assumes "Rank h (ad_adminRole p) \<ge> 0"
  shows "keeps (governed h p) (AdminSetRole h p i role)"
proof -
  have tx: "keeps (governed h p) (transaction (adminSetRoleTx h p i role))"
  proof (rule governed_tx [OF _ wf_admin_txs(1)])
    fix a b and x :: "User \<times> string"
    assume a: "hasAdmin h p (db a)" and run: "adminSetRoleTx h p i role a = (Inr x, b)" and wf: "wfTables (db b)"
    obtain u frm where x: "x = (u, frm)" by (cases x)
    from adminSetRoleTx_Inr [OF run [unfolded x]] show "hasAdmin h p (db b)"
    proof (elim disjE bexE exE conjE)
      assume "db b = db a"
      then show ?thesis using a by simp
    next
      fix user updated
      assume us: "user \<in> set (users (db a))" "u_ID user = i" "u_ID updated = i" "u_Role updated = role"
        "u_DisabledAt updated = u_DisabledAt user"
        and d: "db b = (db a)\<lparr>users := updateWhere (\<lambda>x. u_ID x = u_ID updated) (userUpdateOf updated) (users (db a))\<rparr>"
        and gd: "RoleAtLeast h (adminRoleOf h user) (ad_adminRole p) \<and> \<not> RoleAtLeast h role (ad_adminRole p) \<longrightarrow>
          (\<exists>t t'. db t = db a \<and> guardLastAdmin h p i t = (Inr (), t'))"
      show ?thesis
      proof (rule changed_row [OF a us(1) _ _ wf])
        show "u_ID updated = u_ID user" using us by simp
        show "users (db b) = updateWhere (\<lambda>u. u_ID u = u_ID updated) (userUpdateOf updated) (users (db a))" using d by simp
        show "isAdmin h p updated \<or> \<not> isAdmin h p user \<or> (\<exists>w \<in> set (users (db a)). isAdmin h p w \<and> u_ID w \<noteq> u_ID user)"
          using us gd guardLastAdmin_Inr(2) [OF _ assms] by (metis isAdmin_def isAdmin_iff)
      qed
    qed
  qed
  show ?thesis
    unfolding AdminSetRole_def emitChange_def by (intro keeps_intros tx; intro keeps_quiet db_intros env_intros)
qed

lemma governed_disable:
  assumes "Rank h (ad_adminRole p) \<ge> 0"
  shows "keeps (governed h p) (AdminDisable h p i)"
proof -
  have tx: "keeps (governed h p) (transaction (disableTx h p i))"
  proof (rule governed_tx [OF _ wf_admin_txs(2)])
    fix a u b assume a: "hasAdmin h p (db a)" and run: "disableTx h p i a = (Inr u, b)" and wf: "wfTables (db b)"
    from disableTx_Inr [OF run] obtain user where us: "user \<in> set (users (db a))" "u_ID user = i"
      and k: "if u_DisabledAt user \<noteq> None then u = user \<and> db b = db a
       else u = user\<lparr>u_DisabledAt := Some (clock a), u_UpdatedAt := clock a\<rparr> \<and>
       db b = (db a)\<lparr>users := updateWhere (\<lambda>x. u_ID x = u_ID u) (userUpdateOf u) (users (db a)),
         sessions := deleteWhere (\<lambda>se. se_UserID se = i) (sessions (db a))\<rparr> \<and>
       (RoleAtLeast h (adminRoleOf h user) (ad_adminRole p) \<longrightarrow>
         (\<exists>t t'. db t = db a \<and> guardLastAdmin h p i t = (Inr (), t')))" by blast
    show "hasAdmin h p (db b)"
    proof (cases "u_DisabledAt user = None")
      case False
      then show ?thesis using k a by simp
    next
      case True
      then have u: "u_ID u = u_ID user"
        and d: "users (db b) = updateWhere (\<lambda>x. u_ID x = u_ID u) (userUpdateOf u) (users (db a))"
        and gd: "RoleAtLeast h (adminRoleOf h user) (ad_adminRole p) \<longrightarrow> (\<exists>t t'. db t = db a \<and> guardLastAdmin h p i t = (Inr (), t'))"
        using k by simp_all
      have "\<not> isAdmin h p user \<or> (\<exists>w \<in> set (users (db a)). isAdmin h p w \<and> u_ID w \<noteq> u_ID user)"
        using us gd guardLastAdmin_Inr(2) [OF _ assms] by (metis isAdmin_def)
      then show ?thesis using changed_row [OF a us(1) u d wf] by blast
    qed
  qed
  show ?thesis
    unfolding AdminDisable_def emitChange_def by (intro keeps_intros tx; intro keeps_quiet db_intros env_intros)
qed

lemma governed_enable: "keeps (governed h p) (AdminEnable p i)"
proof -
  have tx: "keeps (governed h p) (transaction (enableTx p i))"
  proof (rule governed_tx [OF _ wf_admin_txs(3)])
    fix a u b assume a: "hasAdmin h p (db a)" and run: "enableTx p i a = (Inr u, b)" and wf: "wfTables (db b)"
    obtain user t where g: "Users_GetByID i a = (Inr user, t)" and k: "(if u_DisabledAt user = None then ret user
     else
       andThen now (\<lambda>at.
       let updated = user\<lparr>u_DisabledAt := None, u_UpdatedAt := at\<rparr>
       in andThen (veto (ad_beforeUserUpdate p user updated)) (\<lambda>_.
          andThen (Users_Update updated) (\<lambda>_. ret updated)))) t = (Inr u, b)"
      using run unfolding enableTx_def andThen_Inr by blast
    note us = GetByID_Inr [OF g]
    show "hasAdmin h p (db b)"
    proof (cases "u_DisabledAt user = None")
      case True
      then show ?thesis using k us a by (simp add: ret_Inr)
    next
      case False
      then have "db b = (db a)\<lparr>users := updateWhere (\<lambda>x. u_ID x = u_ID u) (userUpdateOf u) (users (db a))\<rparr>" "u_ID u = u_ID user"
        using k us by (auto simp: Let_def success_simps now_Inr veto_Inr dest!: Update_user_Inr)
      then show ?thesis using changed_row [OF a _ _ _ wf, of user u] us False by (simp add: isAdmin_def)
    qed
  qed
  show ?thesis
    unfolding AdminEnable_def emitChange_def by (intro keeps_intros tx; intro keeps_quiet db_intros env_intros)
qed

lemma adminResetTx_Inr:
  assumes "adminResetTx p i hsh temporary s = (Inr u, s')"
  shows "\<exists>user \<in> set (users (db s)). u_ID user = i \<and> u = user\<lparr>u_MustChangePassword := temporary, u_UpdatedAt := clock s\<rparr> \<and>
    users (db s') = updateWhere (\<lambda>x. u_ID x = u_ID u) (userUpdateOf u) (users (db s)) \<and>
    sessions (db s') = deleteWhere (\<lambda>se. se_UserID se = i) (sessions (db s)) \<and>
    (\<forall>c \<in> set (credentials (db s')). cr_UserID c = i \<longrightarrow> cr_PasswordHash c = hsh)"
proof -
  obtain user t t1 t2 t3 x where g: "Users_GetByID i s = (Inr user, t)"
    and sc: "Users_SetCredential \<lparr>cr_UserID = u_ID user, cr_PasswordHash = hsh, cr_CreatedAt = clock t, cr_UpdatedAt = clock t\<rparr> t = (Inr (), t1)"
    and up: "Users_Update u t2 = (Inr (), t3)" and d2: "db t2 = db t1" and del: "Sessions_DeleteByUser i t3 = (Inr x, s')"
    and u: "u = user\<lparr>u_MustChangePassword := temporary, u_UpdatedAt := clock t\<rparr>"
    using assms by (auto simp: adminResetTx_def Let_def success_simps now_Inr veto_Inr)
  note us = GetByID_Inr [OF g]
  have "users (db s') = updateWhere (\<lambda>x. u_ID x = u_ID u) (userUpdateOf u) (users (db s))"
    "sessions (db s') = deleteWhere (\<lambda>se. se_UserID se = i) (sessions (db s))" "credentials (db s') = credentials (db t1)"
    using Update_user_Inr [OF up] Sessions_gone [OF del] d2 us adminCredential_frame(1,2) [OF sc] by simp_all
  moreover have "\<forall>c \<in> set (credentials (db t1)). cr_UserID c = i \<longrightarrow> cr_PasswordHash c = hsh"
    using adminCredential_frame(3) [OF sc] us by simp
  ultimately show ?thesis using us u by (intro bexI [of _ user]) auto
qed

lemma governed_reset: "keeps (governed h p) (AdminResetPassword h p i w b)"
proof -
  have tx: "keeps (governed h p) (transaction (adminResetTx p i hsh temporary))" for hsh temporary
  proof (rule governed_tx [OF _ wf_admin_txs(4)])
    fix a u b assume a: "hasAdmin h p (db a)" and run: "adminResetTx p i hsh temporary a = (Inr u, b)" and wf: "wfTables (db b)"
    from adminResetTx_Inr [OF run] obtain user where us: "user \<in> set (users (db a))" and
      u: "u_ID u = u_ID user" "isAdmin h p u \<longleftrightarrow> isAdmin h p user"
      and d: "users (db b) = updateWhere (\<lambda>x. u_ID x = u_ID u) (userUpdateOf u) (users (db a))"
      by (auto simp: isAdmin_iff)
    show "hasAdmin h p (db b)" using changed_row [OF a us u(1) d wf] u(2) by blast
  qed
  show ?thesis
    unfolding AdminResetPassword_def generatedPassword_def newPassword_def adminHashPassword_def checkPassword_def Let_def emitChange_def
    by (intro keeps_intros tx; intro keeps_quiet db_intros env_intros)
qed

text \<open>Creation: the rows of before stay, whatever fails.\<close>

lemma governed_create: "keeps (governed h p) (AdminCreateUser h p i)"
proof -
  have row: "keeps (\<lambda>s. \<not> in_tx s \<and> (wfTables (db s) \<and> w \<in> set (users (db s)) \<and> u_ID w \<noteq> u_ID user))
      (transaction (equipTx h p before user pw at))" for w before user pw at
  proof (rule keeps_tx)
    fix a x b assume a: "wfTables (db a) \<and> w \<in> set (users (db a)) \<and> u_ID w \<noteq> u_ID user"
      and run: "equipTx h p before user pw at a = (Inr x, b)"
    obtain hsh t1 t2 t3 where 1: "adminHashPassword h pw a = (Inr hsh, t1)"
      and 2: "Users_SetCredential \<lparr>cr_UserID = u_ID user, cr_PasswordHash = hsh, cr_CreatedAt = at, cr_UpdatedAt = at\<rparr> t1 = (Inr (), t2)"
      and 3: "Users_Update user t3 = (Inr (), b)" and d3: "db t3 = db t2"
      using run by (auto simp: equipTx_def success_simps veto_Inr)
    have "dbInv Q (adminHashPassword h pw)" for Q
      unfolding adminHashPassword_def checkPassword_def Let_def by (intro db_intros)
    then have "db t1 = db a" using dbInv_same 1 by blast
    then have "users (db b) = updateWhere (\<lambda>u. u_ID u = u_ID user) (userUpdateOf user) (users (db a))"
      using Update_user_Inr [OF 3] adminCredential_frame(1) [OF 2] d3 by simp
    then have "w \<in> set (users (db b))" using a by (auto simp: set_updateWhere intro!: rev_image_eqI)
    moreover have "wfTables (db b)" using wf_run [OF wf_admin_txs(5) run] a by blast
    ultimately show "wfTables (db b) \<and> w \<in> set (users (db b)) \<and> u_ID w \<noteq> u_ID user" using a by blast
  qed
  show ?thesis
    unfolding keeps_def
  proof (intro allI impI)
    fix s :: sys assume s: "\<not> in_tx s \<and> hasAdmin h p (db s)"
    obtain w where w: "w \<in> set (users (db s))" "isAdmin h p w" and wf: "wfTables (db s)" using s by (auto simp: hasAdmin_def)
    let ?role = "if au_Role i = [] then au_defaultRole (ho_auth h) else au_Role i"
    obtain r1 s1 where 1: "generatedPassword (au_Password i) s = (r1, s1)" by fastforce
    have "dbInv Q (generatedPassword (au_Password i))" "envKept (generatedPassword (au_Password i))" for Q
      unfolding generatedPassword_def newPassword_def by (intro db_intros env_intros)+
    then have d1: "db s1 = db s" "in_tx s1 = in_tx s" using dbInv_same 1 envKeptD(2) by blast+
    have keep: "governed h p (snd (AdminCreateUser h p i s))"
      if "\<And>password generated. r1 = Inr (password, generated) \<Longrightarrow> \<not> Rank h ?role < 0 \<Longrightarrow>
         governed h p (snd (AdminCreateUser h p i s))"
    proof (cases "Rank h ?role < 0")
      case True
      then have "AdminCreateUser h p i s = (Inl (api CodeRoleUnknown), s)" by (auto simp: AdminCreateUser_def Let_def fail_def)
      then show ?thesis using s by simp
    next
      case False
      show ?thesis
      proof (cases r1)
        case (Inl e)
        then have "snd (AdminCreateUser h p i s) = s1"
          using False 1 by (simp add: AdminCreateUser_def Let_def andThen_def)
        then show ?thesis using s d1 by simp
      next
        case (Inr x)
        then show ?thesis using that False by (cases x) blast
      qed
    qed
    show "governed h p (snd (AdminCreateUser h p i s))"
    proof (rule keep)
      fix password generated assume r1: "r1 = Inr (password, generated)" and rk: "\<not> Rank h ?role < 0"
      let ?in = "\<lparr>ci_Email = au_Email i, ci_Password = [], ci_DisplayName = au_Name i, ci_ImageURL = [], ci_EmailVerified = False\<rparr>"
      obtain r2 s2 where 2: "createUser (au_cfg (ho_auth h)) ?in [] s1 = (r2, s2)" by fastforce
      have wf2: "wfTables (db s2)" using wf_run [OF wf_createUser 2] wf d1 by simp
      have t2: "in_tx s2 = in_tx s1" using envKeptD(2) [OF env_createUser 2] .
      show "governed h p (snd (AdminCreateUser h p i s))"
      proof (cases r2)
        case (Inl e)
        have "db s2 = db s1" using createUser_Inl [OF 2 [unfolded Inl]] d1 s by simp
        moreover have "snd (AdminCreateUser h p i s) = s2"
          using 1 2 r1 rk Inl by (simp add: AdminCreateUser_def Let_def andThen_def)
        ultimately show ?thesis using s d1 t2 by simp
      next
        case (Inr before)
        let ?user = "before\<lparr>u_Role := ?role, u_MustChangePassword := au_Temporary i, u_UpdatedAt := clock s2\<rparr>"
        let ?rest = "andThen (mapFail adminError (transaction (equipTx h p before ?user password (clock s2)))) (\<lambda>_.
           andThen (runAfter ''UserUpdate'' (u_ID ?user)) (\<lambda>_.
           andThen (emit ''auth.user_created'' (u_ID ?user) [(''role'', ?role)]) (\<lambda>_. ret (?user, generated))))"
        have new: "db s2 = (db s1)\<lparr>users := users (db s1) @ [before]\<rparr>" "u_ID before \<notin> u_ID ` set (users (db s1))"
          using createUser_Inr [OF 2 [unfolded Inr]] wf d1 by simp_all
        have eq: "AdminCreateUser h p i s = ?rest s2"
          using 1 2 r1 rk Inr by (simp add: AdminCreateUser_def Let_def andThen_def now_def)
        have k: "keeps (\<lambda>s. \<not> in_tx s \<and> (wfTables (db s) \<and> w \<in> set (users (db s)) \<and> u_ID w \<noteq> u_ID ?user)) ?rest"
          by (intro keeps_intros row; intro keeps_quiet db_intros env_intros)
        have "u_ID w \<in> u_ID ` set (users (db s1))" using w(1) d1(1) by simp
        moreover have "u_ID ?user = u_ID before" by simp
        ultimately have "u_ID w \<noteq> u_ID ?user" using new(2) by metis
        then have "\<not> in_tx s2 \<and> (wfTables (db s2) \<and> w \<in> set (users (db s2)) \<and> u_ID w \<noteq> u_ID ?user)"
          using w(1) d1 wf2 t2 s new(1) by simp
        then have "\<not> in_tx (snd (?rest s2)) \<and> wfTables (db (snd (?rest s2))) \<and> w \<in> set (users (db (snd (?rest s2))))"
          using k unfolding keeps_def by blast
        then show ?thesis using w(2) unfolding eq hasAdmin_def by blast
      qed
    qed
  qed
qed

datatype adminRequest =
    ACreate AdminUserInput
  | ASetRole string string
  | ADisable string
  | AEnable string
  | AReset string string bool

fun serveAdmin :: "host \<Rightarrow> adminPlugin \<Rightarrow> adminRequest \<Rightarrow> sys \<Rightarrow> sys" where
  "serveAdmin h p (ACreate i) s = snd (AdminCreateUser h p i s)"
| "serveAdmin h p (ASetRole i role) s = snd (AdminSetRole h p i role s)"
| "serveAdmin h p (ADisable i) s = snd (AdminDisable h p i s)"
| "serveAdmin h p (AEnable i) s = snd (AdminEnable p i s)"
| "serveAdmin h p (AReset i w b) s = snd (AdminResetPassword h p i w b s)"

text \<open>Between two requests the rest of the library writes the other tables and adds users.\<close>

inductive adminReach :: "host \<Rightarrow> adminPlugin \<Rightarrow> sys \<Rightarrow> bool" for h p where
  start: "wfTables (db s) \<Longrightarrow> \<exists>u \<in> set (users (db s)). isAdmin h p u \<Longrightarrow> \<not> in_tx s \<Longrightarrow> adminReach h p s"
| request: "adminReach h p s \<Longrightarrow> adminReach h p (serveAdmin h p rq s)"
| environment: "adminReach h p s \<Longrightarrow> wfTables (db s') \<Longrightarrow> set (users (db s)) \<subseteq> set (users (db s')) \<Longrightarrow> \<not> in_tx s' \<Longrightarrow>
    adminReach h p s'"

text \<open>C28. An application never loses its last administrator: in every state that any sequence of administrative
  requests reaches, by any callers, with any faults of the database and refusals of the hooks, some enabled user
  holds a role that is at least the administrator role.\<close>

theorem last_administrator:
  assumes "adminReach h p s" and "adminRegister h p = Inr ()"
  shows "\<exists>u \<in> set (users (db s)). u_DisabledAt u = None \<and> RoleAtLeast h (adminRoleOf h u) (ad_adminRole p)"
proof -
  have rk: "Rank h (ad_adminRole p) \<ge> 0" using assms(2) by (auto simp: adminRegister_def split: if_splits)
  have "governed h p s"
    using assms(1)
  proof (induction rule: adminReach.induct)
    case (start s)
    then show ?case by (simp add: hasAdmin_def)
  next
    case (request s rq)
    then show ?case
      using governed_create [of h p] governed_setRole [OF rk] governed_disable [OF rk] governed_enable [of h p] governed_reset [of h p]
      by (cases rq) (simp_all add: keeps_def)
  next
    case (environment s s')
    then show ?case by (auto simp: hasAdmin_def)
  qed
  then show ?thesis by (auto simp: hasAdmin_def isAdmin_def)
qed

section \<open>What a disabled user loses\<close>

text \<open>A user who is disabled is disabled completely: the change is one transaction that also removes every session
  of the user, touches no other row, and leaves everything as it was when it fails at any point.\<close>

theorem disable_is_complete:
  assumes "AdminDisable h p i s = (r, s')" and "\<not> in_tx s" and "wfTables (db s)"
  shows "case r of
      Inl e \<Rightarrow> db s' = db s
    | Inr u \<Rightarrow> u_ID u = i \<and> u_DisabledAt u \<noteq> None \<and> (\<forall>v \<in> set (users (db s')). u_ID v = i \<longrightarrow> u_DisabledAt v \<noteq> None) \<and>
        (\<forall>v. u_ID v \<noteq> i \<longrightarrow> (v \<in> set (users (db s')) \<longleftrightarrow> v \<in> set (users (db s)))) \<and>
        ((\<exists>v \<in> set (users (db s)). u_ID v = i \<and> u_DisabledAt v = None) \<longrightarrow> (\<forall>se \<in> set (sessions (db s')). se_UserID se \<noteq> i))"
proof (cases r)
  case (Inl e)
  have "\<exists>e'. transaction (disableTx h p i) s = (Inl e', s')"
    using assms(1) Inl by (auto simp: AdminDisable_def emitChange_def failure_simps success_simps env_success response_Inl runAfter_def emit_def)
  then show ?thesis using transaction_Inl_db [OF assms(2)] Inl by auto
next
  case (Inr u)
  obtain t where tx: "transaction (disableTx h p i) s = (Inr u, t)" and d: "db s' = db t"
    using assms(1) Inr by (auto simp: AdminDisable_def emitChange_def success_simps env_success)
  obtain a b where a: "disableTx h p i a = (Inr u, b)" "db a = db s" "db t = db b"
    using transaction_InrE [OF tx] by metis
  from disableTx_Inr [OF a(1), unfolded a(2)] obtain user where us: "user \<in> set (users (db s))" "u_ID user = i"
    and k: "if u_DisabledAt user \<noteq> None then u = user \<and> db b = db s
     else u = user\<lparr>u_DisabledAt := Some (clock a), u_UpdatedAt := clock a\<rparr> \<and>
       db b = (db s)\<lparr>users := updateWhere (\<lambda>x. u_ID x = u_ID u) (userUpdateOf u) (users (db s)),
         sessions := deleteWhere (\<lambda>se. se_UserID se = i) (sessions (db s))\<rparr> \<and>
       (RoleAtLeast h (adminRoleOf h user) (ad_adminRole p) \<longrightarrow>
         (\<exists>t t'. db t = db s \<and> guardLastAdmin h p i t = (Inr (), t')))" by blast
  have only: "v = user" if "v \<in> set (users (db s))" "u_ID v = i" for v
    using users_wf [OF assms(3) that(1) us(1)] that us by simp
  show ?thesis
  proof (cases "u_DisabledAt user = None")
    case True
    then have u: "u_ID u = i" "u_DisabledAt u \<noteq> None"
      and us': "users (db s') = updateWhere (\<lambda>x. u_ID x = u_ID u) (userUpdateOf u) (users (db s))"
      and ss: "sessions (db s') = deleteWhere (\<lambda>se. se_UserID se = i) (sessions (db s))"
      using k us a(3) d by simp_all
    have "\<forall>v \<in> set (users (db s')). u_ID v = i \<longrightarrow> u_DisabledAt v \<noteq> None"
      unfolding us' using u by (auto simp: set_updateWhere userUpdateOf_def)
    moreover have "v \<in> set (users (db s')) \<longleftrightarrow> v \<in> set (users (db s))" if "u_ID v \<noteq> i" for v
      unfolding us' using u that by (auto simp: set_updateWhere userUpdateOf_def intro!: rev_image_eqI)
    ultimately show ?thesis using Inr u ss by simp
  next
    case False
    then have u: "u = user" "db s' = db s" using k a(3) d by simp_all
    have "\<forall>v \<in> set (users (db s)). u_ID v = i \<longrightarrow> u_DisabledAt v \<noteq> None" using only False by metis
    moreover have "\<not> (\<exists>v \<in> set (users (db s)). u_ID v = i \<and> u_DisabledAt v = None)" using only False by metis
    ultimately show ?thesis unfolding Inr sum.case u using us(2) False by blast
  qed
qed

section \<open>A concrete administration\<close>

definition w_admin :: adminPlugin where
  "w_admin = \<lparr>ad_adminRole = ''admin'', ad_organizations = None, ad_beforeUserUpdate = (\<lambda>v u. None),
     ad_beforeRoleChange = (\<lambda>u x y. None)\<rparr>"

definition w_adminTables :: tables where
  "w_adminTables = w_core\<lparr>users := [ann\<lparr>u_Role := ''admin''\<rparr>, bob]\<rparr>"

lemma wf_w_adminTables: "wfTables w_adminTables"
  by (simp add: wf_eval w_adminTables_def w_core_def w_eval bob_def w_session_def)

theorem last_administrator_witness:
  "\<exists>u \<in> set (users (db (serveAdmin w_host w_admin (ASetRole ''u1'' ''user'') (world w_adminTables)))).
     u_DisabledAt u = None \<and> RoleAtLeast w_host (adminRoleOf w_host u) ''admin''"
proof -
  have "\<exists>u \<in> set (users (db (world w_adminTables))). isAdmin w_host w_admin u"
    by (intro bexI [of _ "ann\<lparr>u_Role := ''admin''\<rparr>"])
      (simp_all add: w_adminTables_def isAdmin_iff ann_def w_admin_def w_host_def RoleAtLeast_def Rank_def RoleNames_def)
  then have "adminReach w_host w_admin (world w_adminTables)" by (intro adminReach.start) (simp_all add: wf_w_adminTables)
  then have r: "adminReach w_host w_admin (serveAdmin w_host w_admin (ASetRole ''u1'' ''user'') (world w_adminTables))"
    by (rule adminReach.request)
  have "adminRegister w_host w_admin = Inr ()"
    by (simp add: adminRegister_def w_host_def w_admin_def RoleNames_def Rank_def)
  then show ?thesis using last_administrator [OF r] by (simp add: w_admin_def)
qed

theorem disable_is_complete_witness:
  "\<not> (\<exists>se \<in> set (sessions (db (snd (AdminDisable w_host w_admin ''u2'' (world w_adminTables))))). se_UserID se = ''u2'')"
proof -
  have "(case fst (AdminDisable w_host w_admin ''u2'' (world w_adminTables)) of Inl e \<Rightarrow> False | Inr u \<Rightarrow> True)" by code_simp
  then obtain u s' where run: "AdminDisable w_host w_admin ''u2'' (world w_adminTables) = (Inr u, s')"
    by (metis prod.collapse sum.case_eq_if sum.collapse(2))
  have "\<exists>v \<in> set (users (db (world w_adminTables))). u_ID v = ''u2'' \<and> u_DisabledAt v = None"
    by (simp add: w_adminTables_def bob_def ann_def)
  then show ?thesis using disable_is_complete [OF run] run wf_w_adminTables by simp
qed


end
