(* ===== verification/Spec2Isabelle.thy ===== *)
theory Spec2Isabelle
  imports Permission Store_Orgs Store_Provider Reachable Principals Second_Factor Account_Handlers OAuth_Login Org_Runs Token_Spec Magic_Link Admin
begin

text \<open>
  A verification development for Auth-All, an authentication library for Go. The Go code is
  translated into functions of HOL; the theorems say what the library promises to an application
  that trusts it with passwords, sessions, tokens and permissions.

  How the program is put together. The package \<open>authall\<close> holds the operations (sign-in, sessions,
  tokens, users); it calls a \<open>store.Store\<close>, which \<open>internal/sqlstore\<close> implements with SQL for
  PostgreSQL and SQLite; a rate limiter guards the operations; plugins add permissions,
  organizations and an OAuth provider on the same database.

  The state. \<open>Store_Types\<close> has one record per row type of \<open>store/\<close> and the record \<open>tables\<close> with one
  list of rows per SQL table; \<open>wfTables\<close> states the keys of \<open>schema/\<close>. \<open>Store_Sql\<close> has the record
  \<open>sys\<close>: the database, a schedule of driver faults (one entry per statement, BEGIN and COMMIT), the
  clock, the sources of identifiers and random tokens, and the trace of emitted events. A Go function
  \<open>(T, error)\<close> is a function \<open>sys \<Rightarrow> (err + T) \<times> sys\<close>, built with the combinators of
  \<open>Auth_Prelude\<close>: \<open>andThen\<close> for the early return of an error, \<open>caught\<close> where the code inspects the
  error, \<open>ignoring\<close> where it drops it. Theorems quantify over the fault schedule, so they cover a
  database that fails at any statement.

  The theories:
  \<open>Auth_Prelude\<close> (errors, combinators, tables as lists), \<open>Go_Strings\<close> (strings, base64, hex, decimal),
  \<open>Store_Types\<close>, \<open>Store_Sql\<close>, \<open>Store_Paging\<close> (cursors of \<open>internal/sqlstore\<close> and the page walk),
  \<open>Store_Core\<close> (\<open>users.go\<close>, \<open>accounts.go\<close>, \<open>sessions.go\<close>, \<open>tokens.go\<close>, \<open>oauth.go\<close>, \<open>totp.go\<close>,
  \<open>ratelimit.go\<close>, \<open>useradmin.go\<close>, \<open>apikeys.go\<close>), \<open>One_Time\<close> (the contract of a credential that works
  once, a locale interpreted on the store operations), \<open>Store_Orgs\<close> (\<open>organizations.go\<close>),
  \<open>Store_Provider\<close> (\<open>oauthprovider.go\<close>), \<open>Permission\<close> (\<open>plugins/organizations/permission\<close>),
  \<open>Rate_Limit\<close> (\<open>ratelimit\<close> and \<open>ratelimit/storelimit\<close>), \<open>Totp\<close> (\<open>internal/totp\<close> and the recovery
  codes), \<open>Core_Auth\<close> (\<open>tokens.go\<close>, \<open>sessions.go\<close>, \<open>users.go\<close>, \<open>operations.go\<close>, parts of
  \<open>authall.go\<close> and \<open>handlers_totp.go\<close>), \<open>Core_Properties\<close> (its theorems) and \<open>Reachable\<close> (runs of
  requests). The HTTP side: \<open>Http_Edge\<close> (\<open>http.go\<close>: origin, redirect target, client address),
  \<open>Principals\<close> (\<open>principal.go\<close>, \<open>principalcache.go\<close>, \<open>handlers_sessions.go\<close>), \<open>Base32\<close> (the secrets of
  \<open>internal/totp\<close>), \<open>Handler_Base\<close> (what the handlers share: limit of a route, cookies, mails),
  \<open>Second_Factor\<close> (\<open>handlers_totp.go\<close>), \<open>Account_Handlers\<close> (\<open>handlers.go\<close>, \<open>handlers_tokens.go\<close>,
  \<open>handlers_account.go\<close>), \<open>OAuth_Login\<close> (\<open>handlers_oauth.go\<close>) and \<open>Roles\<close> (\<open>roles_core.go\<close>,
  \<open>middleware.go\<close>, \<open>plugins/roles\<close>). \<open>Token_Spec\<close> states the abstract vault of one-time values and the
  refinement of the token operations to it.

  The plugins: \<open>Api_Keys\<close> (\<open>plugins/apikeys\<close>), \<open>Organizations\<close> and \<open>Org_Access\<close> (the operations of
  \<open>plugins/organizations\<close>, its routes and the credential of a key), \<open>Org_Properties\<close> (escalation, the
  last owner), \<open>Org_Joining\<close> (invitations, removal, limit, slugs), \<open>Org_Keys\<close> (the locale
  \<open>organization_resolver\<close>, the interface between the two plugins, interpreted on the operations of the
  organizations), \<open>Org_Runs\<close> (concrete runs of the organizations), \<open>Magic_Link\<close> (\<open>plugins/magiclink\<close>)
  and \<open>Admin\<close> (\<open>plugins/admin\<close>).

  A handler is an operation: its error is the argument of \<open>writeError\<close> or \<open>writeBrowserError\<close>, its value
  the body of the response or the target of the redirect, and its cookies, headers and mails are in the
  trace. The body of a request is an argument, a decoded value or the error of the decoder.

  What the lemmas show. The \<open>wf_\<close> lemmas: every operation keeps the schema, on every branch; they
  form the collection \<open>db_intros\<close>. The \<open>env_\<close> lemmas: no operation moves the clock. The \<open>_Inr\<close>
  lemmas invert a successful run. \<open>isolated\<close> says that the rate limiter is a guest of the database,
  \<open>mailed\<close> follows what an operation mails, and \<open>sessionFree\<close> marks what the sessions table does not
  enter. The numbered theorems are the properties.

  Bounds and fuel. The page walk of \<open>Store_Core\<close> takes fuel, and \<open>list_users_complete\<close> shows that one
  more than the number of users is enough. Loops over lists are structural recursion. Go integers
  that count (limits, steps, times in nanoseconds) are \<open>int\<close>; the TOTP truncation uses words.

  Parameters. SHA-256, Argon2id, HMAC, the address parser of \<open>net/mail\<close>, \<open>net/netip\<close> and the hooks
  of the application, the identity that an OAuth provider returns and the verdict of the mail sender are
  arguments. Strings are byte strings.

  Not modelled: DDL and migrations, JSON, route registration and OpenAPI, cookie attributes, the HTTP
  clients of external providers, mail delivery, the command line. Concurrency is the interleaving of statements (\<open>One_Time\<close>); a
  whole operation runs without interleaving in the theorems about operations.
\<close>

end
